(* ===== verification/Prelude.thy ===== *)
theory Prelude
  imports Main
begin

text \<open>
  Shared vocabulary of the development: the identifier and time types every component uses,
  the Go string functions the sources call (\<open>strings.Split\<close>, \<open>strings.SplitN\<close>,
  \<open>strings.Join\<close>, \<open>strings.CutPrefix\<close>), signed 64-bit wrap-around, and the evaluation of a
  PostgreSQL \<open>WITH RECURSIVE ... UNION ...\<close> query as a work-list loop, with the lemma that it
  computes the reachable rows.

  A \<open>uuid.UUID\<close> is an opaque identifier; it is a natural number here, and \<open>uuid.Nil\<close> is 0.
  A \<open>time.Time\<close> is the number of nanoseconds since a fixed epoch, and a \<open>time.Duration\<close> is a
  number of nanoseconds, both as \<open>int\<close>.
\<close>

named_theorems go_simps \<open>unfolding equations of translated Go operations\<close>
named_theorems sql_simps \<open>unfolding equations of translated SQL queries\<close>
named_theorems call_simps \<open>when a sequence of calls succeeds\<close>

type_synonym uuid = nat
type_synonym time = int
type_synonym duration = int

abbreviation (input) uuid_nil :: uuid where
  "uuid_nil \<equiv> 0"

section \<open>Go strings\<close>

text \<open>\<open>strings.Split(s, sep)\<close> for a one-character separator: never empty.\<close>

fun go_split :: "char \<Rightarrow> string \<Rightarrow> string list" where
  "go_split c [] = [[]]"
| "go_split c (x # xs) =
     (if x = c then [] # go_split c xs
      else (case go_split c xs of [] \<Rightarrow> [[x]] | s # ss \<Rightarrow> (x # s) # ss))"

text \<open>
  \<open>strings.SplitN(s, sep, n)\<close>: at most \<open>n\<close> substrings, the last one the unsplit rest.
\<close>

fun go_split_n :: "nat \<Rightarrow> char \<Rightarrow> string \<Rightarrow> string list" where
  "go_split_n 0 c xs = []"
| "go_split_n (Suc 0) c xs = [xs]"
| "go_split_n (Suc (Suc n)) c [] = [[]]"
| "go_split_n (Suc (Suc n)) c (x # xs) =
     (if x = c then [] # go_split_n (Suc n) c xs
      else (case go_split_n (Suc (Suc n)) c xs of [] \<Rightarrow> [[x]] | s # ss \<Rightarrow> (x # s) # ss))"

text \<open>\<open>strings.Join(parts, sep)\<close>.\<close>

fun go_join :: "char \<Rightarrow> string list \<Rightarrow> string" where
  "go_join c [] = []"
| "go_join c [s] = s"
| "go_join c (s # t # ss) = s @ c # go_join c (t # ss)"

text \<open>\<open>strings.CutPrefix(s, prefix)\<close>: the rest after the prefix, if it is one.\<close>

fun go_cut_prefix :: "string \<Rightarrow> string \<Rightarrow> string option" where
  "go_cut_prefix s [] = Some s"
| "go_cut_prefix [] (p # ps) = None"
| "go_cut_prefix (x # xs) (p # ps) = (if x = p then go_cut_prefix xs ps else None)"

lemma go_split_not_Nil [simp]: "go_split c s \<noteq> []"
  by (cases s) (auto split: list.splits)

lemma go_join_Cons_not_Nil: "ss \<noteq> [] \<Longrightarrow> go_join c (s # ss) = s @ c # go_join c ss"
  by (cases ss) auto

lemma go_join_Cons_Cons [simp]: "go_join c ((x # s) # ss) = x # go_join c (s # ss)"
  by (cases ss) auto

lemma go_join_split [simp]: "go_join c (go_split c s) = s"
proof (induction s)
  case (Cons x xs)
  then show ?case
    by (cases "go_split c xs") (auto simp: go_join_Cons_not_Nil)
qed simp

lemma go_split_no_sep: "c \<notin> set s \<Longrightarrow> go_split c s = [s]"
  by (induction s) auto

lemma go_split_append: "c \<notin> set s \<Longrightarrow> go_split c (s @ c # t) = s # go_split c t"
  by (induction s) auto

lemma go_split_join:
  "ss \<noteq> [] \<Longrightarrow> \<forall>s \<in> set ss. c \<notin> set s \<Longrightarrow> go_split c (go_join c ss) = ss"
proof (induction ss)
  case (Cons s ss)
  then show ?case
    by (cases ss) (auto simp: go_split_no_sep go_split_append)
qed simp

lemma go_split_segs_no_sep: "s \<in> set (go_split c t) \<Longrightarrow> c \<notin> set s"
proof (induction t arbitrary: s)
  case (Cons x xs)
  then show ?case
    by (cases "go_split c xs") (auto split: if_splits)
qed simp

lemma go_split_inj: "go_split c s = go_split c t \<Longrightarrow> s = t"
  by (metis go_join_split)

text \<open>\<open>SplitN\<close> is \<open>Split\<close> with the surplus pieces joined again.\<close>

lemma go_split_n_not_Nil [simp]: "go_split_n (Suc n) c s \<noteq> []"
  by (cases n; cases s) (auto split: list.splits)

lemma go_split_n_Cons_no_sep:
  "x \<noteq> c \<Longrightarrow> go_split_n (Suc (Suc n)) c (x # xs) =
    (x # hd (go_split_n (Suc (Suc n)) c xs)) # tl (go_split_n (Suc (Suc n)) c xs)"
  by (cases "go_split_n (Suc (Suc n)) c xs") auto

lemma go_split_n_split:
  "go_split_n (Suc n) c s =
     (let ss = go_split c s
      in if length ss \<le> Suc n then ss else take n ss @ [go_join c (drop n ss)])"
proof (induction n arbitrary: s)
  case 0
  show ?case
  proof (cases "length (go_split c s) \<le> 1")
    case True
    then obtain t where "go_split c s = [t]"
      by (cases "go_split c s") auto
    moreover from this have "t = s"
      using go_join_split [of c s] by simp
    ultimately show ?thesis by (simp add: Let_def)
  qed (simp add: Let_def)
next
  case (Suc n)
  show ?case
  proof (induction s)
    case (Cons x xs)
    show ?case
    proof (cases "x = c")
      case True
      then show ?thesis by (simp add: Suc.IH Let_def)
    next
      case False
      obtain t ts where ss: "go_split c xs = t # ts"
        by (cases "go_split c xs") auto
      from Cons.IH False ss show ?thesis
        by (cases ts) (auto simp: go_split_n_Cons_no_sep Let_def simp del: go_split_n.simps)
    qed
  qed simp
qed

section \<open>Signed 64-bit arithmetic\<close>

text \<open>Go's \<open>int64\<close> operations wrap modulo \<open>2 ^ 64\<close> into the signed range.\<close>

definition i64 :: "int \<Rightarrow> int" where
  "i64 x = (x + 2 ^ 63) mod 2 ^ 64 - 2 ^ 63"

lemma i64_range: "- (2 ^ 63) \<le> i64 x \<and> i64 x < 2 ^ 63"
  by (simp add: i64_def)

lemma i64_id: "- (2 ^ 63) \<le> x \<Longrightarrow> x < 2 ^ 63 \<Longrightarrow> i64 x = x"
  by (simp add: i64_def)

section \<open>\<open>WITH RECURSIVE base UNION step\<close>\<close>

text \<open>
  PostgreSQL evaluates such a query with a working table: the rows of the base term, without
  duplicates, are the first working table and the first result; each round runs the recursive
  term on the working table, drops the rows the result already has, appends what is left to
  the result and makes it the next working table, until a round adds nothing. The rounds are
  bounded by a fuel argument; \<open>cte_union_correct\<close> says how much is enough.
\<close>

definition new_rows :: "'a list \<Rightarrow> 'a list \<Rightarrow> 'a list" where
  "new_rows res xs = remdups (filter (\<lambda>x. x \<notin> set res) xs)"

fun cte_loop :: "nat \<Rightarrow> ('a \<Rightarrow> 'a list) \<Rightarrow> 'a list \<Rightarrow> 'a list \<Rightarrow> 'a list" where
  "cte_loop 0 step work res = res"
| "cte_loop (Suc fuel) step work res =
     (case new_rows res (concat (map step work)) of
        [] \<Rightarrow> res
      | new \<Rightarrow> cte_loop fuel step new (res @ new))"

definition cte_union :: "nat \<Rightarrow> ('a \<Rightarrow> 'a list) \<Rightarrow> 'a list \<Rightarrow> 'a list" where
  "cte_union fuel step base = cte_loop fuel step (remdups base) (remdups base)"

text \<open>The rows a recursive query denotes: what the base reaches by the recursive term.\<close>

inductive cte_reach :: "('a \<Rightarrow> 'a list) \<Rightarrow> 'a list \<Rightarrow> 'a \<Rightarrow> bool"
  for step :: "'a \<Rightarrow> 'a list" and base :: "'a list" where
  base: "x \<in> set base \<Longrightarrow> cte_reach step base x"
| step: "cte_reach step base x \<Longrightarrow> y \<in> set (step x) \<Longrightarrow> cte_reach step base y"

lemma set_new_rows [simp]: "set (new_rows res xs) = set xs - set res"
  by (auto simp: new_rows_def)

lemma distinct_new_rows [simp]: "distinct (new_rows res xs)"
  by (simp add: new_rows_def)

lemma cte_loop_sound:
  assumes "\<forall>x \<in> set work. cte_reach step base x" and "\<forall>x \<in> set res. cte_reach step base x"
    and "x \<in> set (cte_loop fuel step work res)"
  shows "cte_reach step base x"
  using assms
proof (induction fuel arbitrary: work res)
  case (Suc fuel)
  let ?new = "new_rows res (concat (map step work))"
  from Suc.prems(1) have new: "\<forall>y \<in> set ?new. cte_reach step base y"
    by (auto intro: cte_reach.step)
  show ?case
  proof (cases "?new = []")
    case True
    with Suc.prems show ?thesis by simp
  next
    case False
    then have "cte_loop (Suc fuel) step work res = cte_loop fuel step ?new (res @ ?new)"
      by (simp split: list.split)
    with Suc.prems(3) have "x \<in> set (cte_loop fuel step ?new (res @ ?new))"
      by simp
    then show ?thesis
      using Suc.prems(2) new by (intro Suc.IH [of ?new "res @ ?new"]) auto
  qed
qed simp

text \<open>
  The loop invariant: the result contains the working table, and every step out of a row of
  the result that is not in the working table is already in the result.
\<close>

lemma cte_loop_res_subset: "set res \<subseteq> set (cte_loop fuel step work res)"
proof (induction fuel arbitrary: work res)
  case (Suc fuel)
  show ?case
    using Suc [of "res @ new_rows res (concat (map step work))"
        "new_rows res (concat (map step work))"]
    by (auto split: list.split)
qed simp

lemma cte_loop_closed:
  assumes "finite U" and "set res \<subseteq> U"
    and "\<And>x y. x \<in> U \<Longrightarrow> y \<in> set (step x) \<Longrightarrow> y \<in> U"
    and "distinct res" and "set work \<subseteq> set res"
    and "\<And>x y. x \<in> set res - set work \<Longrightarrow> y \<in> set (step x) \<Longrightarrow> y \<in> set res"
    and "card U < fuel + length res"
    and "x \<in> set (cte_loop fuel step work res)" and "y \<in> set (step x)"
  shows "y \<in> set (cte_loop fuel step work res)"
  using assms(2,4-9)
proof (induction fuel arbitrary: work res)
  case 0
  have "length res \<le> card U"
    using 0(1,2) assms(1) by (metis card_mono distinct_card)
  with 0(5) show ?case by simp
next
  case (Suc fuel)
  let ?new = "new_rows res (concat (map step work))"
  show ?case
  proof (cases "?new = []")
    case True
    then have "set (concat (map step work)) \<subseteq> set res"
      by (metis Diff_eq_empty_iff empty_set set_new_rows)
    with True Suc.prems show ?thesis
      by (cases "x \<in> set work") auto
  next
    case False
    then have eq: "cte_loop (Suc fuel) step work res = cte_loop fuel step ?new (res @ ?new)"
      by (simp split: list.split)
    have sub: "set (res @ ?new) \<subseteq> U"
      using Suc.prems(1,3) assms(3) by auto
    have dist: "distinct (res @ ?new)"
      using Suc.prems(2) by simp
    have "length ?new \<ge> 1"
      using False by (cases ?new) auto
    with Suc.prems(5) have len: "card U < fuel + length (res @ ?new)"
      by simp
    have inv: "z \<in> set (res @ ?new)"
      if "w \<in> set (res @ ?new) - set ?new" and "z \<in> set (step w)" for w z
    proof (cases "w \<in> set work")
      case True
      with that(2) show ?thesis by auto
    next
      case False
      with that Suc.prems(4) [of w z] show ?thesis by auto
    qed
    show ?thesis
      unfolding eq
      using sub dist inv len Suc.prems(6,7) unfolding eq
      by (intro Suc.IH [of "res @ ?new" ?new]) auto
  qed
qed

theorem cte_union_correct:
  assumes "finite U" and "set base \<subseteq> U"
    and "\<And>x y. x \<in> U \<Longrightarrow> y \<in> set (step x) \<Longrightarrow> y \<in> U"
    and "card U < fuel"
  shows "set (cte_union fuel step base) = {x. cte_reach step base x}"
proof
  show "set (cte_union fuel step base) \<subseteq> {x. cte_reach step base x}"
    using cte_loop_sound [of "remdups base" step base "remdups base"]
    by (auto simp: cte_union_def intro: cte_reach.base)
  show "{x. cte_reach step base x} \<subseteq> set (cte_union fuel step base)"
  proof
    fix x assume "x \<in> {x. cte_reach step base x}"
    then have "cte_reach step base x" by simp
    then show "x \<in> set (cte_union fuel step base)"
    proof (induction rule: cte_reach.induct)
      case (base x)
      then show ?case
        using cte_loop_res_subset [of "remdups base"] by (auto simp: cte_union_def)
    next
      case (step x y)
      show ?case
        unfolding cte_union_def
      proof (rule cte_loop_closed [OF assms(1)])
        show "set (remdups base) \<subseteq> U" using assms(2) by simp
        show "x \<in> set (cte_loop fuel step (remdups base) (remdups base))"
          using step.IH by (simp add: cte_union_def)
      qed (use assms step in auto)
    qed
  qed
qed

section \<open>\<open>WITH RECURSIVE base UNION ALL step\<close>\<close>

text \<open>
  With \<open>UNION ALL\<close> nothing is dropped: each round's rows are the next working table, and the
  query returns only if a round is empty. The fuel bounds the rounds; a caller shows that its
  fuel reaches the empty round.
\<close>

fun cte_union_all :: "nat \<Rightarrow> ('a \<Rightarrow> 'a list) \<Rightarrow> 'a list \<Rightarrow> 'a list" where
  "cte_union_all 0 step work = []"
| "cte_union_all (Suc fuel) step work =
     (if work = [] then [] else work @ cte_union_all fuel step (concat (map step work)))"

fun cte_rounds :: "nat \<Rightarrow> ('a \<Rightarrow> 'a list) \<Rightarrow> 'a list \<Rightarrow> 'a list" where
  "cte_rounds 0 step work = work"
| "cte_rounds (Suc n) step work = cte_rounds n step (concat (map step work))"

lemma cte_union_all_Nil [simp]: "cte_union_all fuel step [] = []"
  by (cases fuel) auto

lemma cte_rounds_Nil [simp]: "cte_rounds n step [] = []"
  by (induction n) auto

text \<open>Once a round is empty, more fuel changes nothing.\<close>

lemma cte_union_all_enough:
  "cte_rounds n step work = [] \<Longrightarrow> n \<le> fuel \<Longrightarrow>
     cte_union_all fuel step work = cte_union_all n step work"
proof (induction n arbitrary: fuel work)
  case (Suc n)
  from Suc.prems(2) obtain m where m: "fuel = Suc m" "n \<le> m" by (cases fuel) auto
  have "cte_union_all m step (concat (map step work)) = cte_union_all n step (concat (map step work))"
    using Suc.prems(1) m(2) by (intro Suc.IH) simp
  then show ?case by (simp add: m(1))
qed simp

text \<open>A recursive \<open>UNION ALL\<close> query, row by row.\<close>

lemma cte_rounds_iff:
  "x \<in> set (cte_rounds n step work) \<longleftrightarrow> (\<exists>w \<in> set work. x \<in> set (cte_rounds n step [w]))"
proof (induction n arbitrary: work)
  case (Suc n)
  show ?case
    unfolding cte_rounds.simps Suc.IH [of "concat (map step work)"]
    using Suc.IH [of "concat (map step [_])"] by (auto simp: Suc.IH [of "step _"])
qed auto

lemma cte_union_all_iff:
  "x \<in> set (cte_union_all n step work) \<longleftrightarrow> (\<exists>k < n. x \<in> set (cte_rounds k step work))"
proof (induction n arbitrary: work)
  case (Suc n)
  show ?case
  proof (cases "work = []")
    case False
    then have "x \<in> set (cte_union_all (Suc n) step work) \<longleftrightarrow>
        x \<in> set (cte_rounds 0 step work) \<or> (\<exists>k < n. x \<in> set (cte_rounds (Suc k) step work))"
      by (simp add: Suc.IH)
    then show ?thesis by (auto simp: less_Suc_eq_0_disj)
  qed simp
qed simp

text \<open>What a query with an empty round returns: what the base reaches.\<close>

lemma cte_rounds_Suc: "cte_rounds (Suc n) step work = concat (map step (cte_rounds n step work))"
  by (induction n arbitrary: work) simp_all

lemma cte_rounds_reach: "x \<in> set (cte_rounds n step work) \<Longrightarrow> cte_reach step work x"
  by (induction n arbitrary: x) (auto simp del: cte_rounds.simps(2) simp: cte_rounds_Suc intro: cte_reach.intros)

lemma cte_reach_rounds: "cte_reach step work x \<Longrightarrow> \<exists>n. x \<in> set (cte_rounds n step work)"
proof (induction rule: cte_reach.induct)
  case (base x)
  then show ?case by (auto intro: exI [of _ 0])
next
  case (step x y)
  then obtain n where "x \<in> set (cte_rounds n step work)" by blast
  with step.hyps(2) have "y \<in> set (cte_rounds (Suc n) step work)" unfolding cte_rounds_Suc by auto
  then show ?case ..
qed

lemma cte_rounds_empty_mono: "cte_rounds n step work = [] \<Longrightarrow> cte_rounds (n + m) step work = []"
  by (induction m) (simp_all del: cte_rounds.simps(2) add: cte_rounds_Suc)

theorem cte_union_all_correct:
  assumes "cte_rounds fuel step work = []"
  shows "set (cte_union_all fuel step work) = {x. cte_reach step work x}"
proof (intro set_eqI iffI)
  fix x assume "x \<in> {x. cte_reach step work x}"
  then obtain n where n: "x \<in> set (cte_rounds n step work)" using cte_reach_rounds [of step work x] by auto
  then have "\<not> fuel \<le> n" using cte_rounds_empty_mono [OF assms, of "n - fuel"] by auto
  then have "n < fuel" by simp
  with n show "x \<in> set (cte_union_all fuel step work)" unfolding cte_union_all_iff by blast
qed (auto simp: cte_union_all_iff intro: cte_rounds_reach)

section \<open>Lists\<close>

lemma find_SomeD: "find P xs = Some x \<Longrightarrow> x \<in> set xs \<and> P x"
  by (induction xs) (auto split: if_splits)

lemma find_Some_iff_distinct:
  "distinct (map key xs) \<Longrightarrow> find (\<lambda>x. key x = k) xs = Some x \<longleftrightarrow> x \<in> set xs \<and> key x = k"
proof (induction xs)
  case (Cons y ys)
  then show ?case by (auto simp: image_iff)
qed simp

lemma filter_key_distinct:
  "distinct (map key xs) \<Longrightarrow> x \<in> set xs \<Longrightarrow> filter (\<lambda>y. key y = key x) xs = [x]"
  by (induction xs) (auto simp: filter_empty_conv image_iff)

lemma filter_key_missing: "k \<notin> key ` set xs \<Longrightarrow> filter (\<lambda>y. key y = k) xs = []"
  by (auto simp: filter_empty_conv)

lemma distinct_key_eq:
  "distinct (map key xs) \<Longrightarrow> x \<in> set xs \<Longrightarrow> y \<in> set xs \<Longrightarrow> key x = key y \<Longrightarrow> x = y"
  by (metis distinct_map inj_onD)

section \<open>Transition systems\<close>

inductive reach :: "('s \<Rightarrow> bool) \<Rightarrow> ('s \<Rightarrow> 's \<Rightarrow> bool) \<Rightarrow> 's \<Rightarrow> bool"
  for init :: "'s \<Rightarrow> bool" and step :: "'s \<Rightarrow> 's \<Rightarrow> bool" where
  start: "init s \<Longrightarrow> reach init step s"
| onward: "reach init step s \<Longrightarrow> step s s' \<Longrightarrow> reach init step s'"

text \<open>An invariant of a system: it holds at the start and every step keeps it.\<close>

locale invariant_of =
  fixes init :: "'s \<Rightarrow> bool" and step :: "'s \<Rightarrow> 's \<Rightarrow> bool" and inv :: "'s \<Rightarrow> bool"
  assumes init_inv: "init s \<Longrightarrow> inv s"
    and step_inv: "inv s \<Longrightarrow> step s s' \<Longrightarrow> inv s'"
begin

lemma reach_inv: "reach init step s \<Longrightarrow> inv s"
  by (induction rule: reach.induct) (auto intro: init_inv step_inv)

end

section \<open>Results of a call\<close>

text \<open>The ConnectRPC codes the services answer with, and a call that may panic.\<close>

datatype connect_code =
    CodeUnauthenticated | CodeInvalidArgument | CodePermissionDenied | CodeNotFound
  | CodeFailedPrecondition | CodeAlreadyExists | CodeInternal

text \<open>A call after a call that may fail: the first error is the answer.\<close>

definition and_then :: "'e + 'a \<Rightarrow> ('a \<Rightarrow> 'e + 'b) \<Rightarrow> 'e + 'b" where
  "and_then r f = (case r of Inl e \<Rightarrow> Inl e | Inr a \<Rightarrow> f a)"

lemma and_then_Inl [simp]: "and_then (Inl e) f = Inl e"
  by (simp add: and_then_def)

lemma and_then_Inr [simp]: "and_then (Inr a) f = f a"
  by (simp add: and_then_def)

lemma and_then_success [call_simps]: "and_then r f = Inr b \<longleftrightarrow> (\<exists>a. r = Inr a \<and> f a = Inr b)"
  by (cases r) auto

datatype 'a outcome = Returned 'a | Panicked

end
