(* ===== verification/Capability.thy ===== *)
theory Capability
  imports Prelude
begin

text \<open>
  The capability vocabulary of \<open>warden/internal/authz\<close>: the two glob engines \<open>CapMatch\<close>
  (pattern against a concrete capability, \<open>capabilities.go\<close>) and \<open>Covers\<close> (pattern against
  pattern, \<open>scope.go\<close>), the three-column storage form (\<open>NormalizeCap\<close>, \<open>ReconstructCap\<close>,
  \<open>capnorm.go\<close>), the SQL column predicate the queries use, and the capability set of
  \<open>capabilities_set.go\<close>.

  The loops of the sources run over an index; they are recursions over the remaining segments
  with the index as an argument. \<open>glob_match\<close> is the reference semantics of a pattern, and
  \<open>CapMatch_glob_match\<close> relates the code to it. \<open>Covers_sound\<close> and \<open>covers1_complete\<close> show that
  the pattern-against-pattern test is inclusion of the denoted capabilities, which is what the
  no-escalation rule needs; the round trip of the storage form is characterised exactly.
\<close>

section \<open>Glob matching\<close>

fun CapMatch_loop :: "nat \<Rightarrow> string list \<Rightarrow> nat \<Rightarrow> string list \<Rightarrow> bool" where
  "CapMatch_loop i [] n rs = (n = length rs)"
| "CapMatch_loop i (p # ps) n rs =
     (if p = ''**'' then (if i \<noteq> n - 1 then False else length rs > i)
      else if i \<ge> length rs then False
      else if p = ''*'' then CapMatch_loop (Suc i) ps n rs
      else if p \<noteq> rs ! i then False
      else CapMatch_loop (Suc i) ps n rs)"

definition CapMatch :: "string \<Rightarrow> string \<Rightarrow> bool" where
  "CapMatch pattern requested =
     (let ps = go_split CHR '':'' pattern; rs = go_split CHR '':'' requested
      in CapMatch_loop 0 ps (length ps) rs)"

fun covers1_loop :: "nat \<Rightarrow> string list \<Rightarrow> nat \<Rightarrow> string list \<Rightarrow> bool" where
  "covers1_loop i [] n t = (n = length t)"
| "covers1_loop i (hs # h) n t =
     (if hs = ''**'' then (if i \<noteq> n - 1 then False else length t > i)
      else if i \<ge> length t then False
      else if hs = ''*'' then (if t ! i = ''**'' then False else covers1_loop (Suc i) h n t)
      else if hs \<noteq> t ! i then False
      else covers1_loop (Suc i) h n t)"

definition covers1 :: "string list \<Rightarrow> string list \<Rightarrow> bool" where
  "covers1 h t = covers1_loop 0 h (length h) t"

fun Covers_loop :: "string list \<Rightarrow> string list \<Rightarrow> bool" where
  "Covers_loop [] ts = False"
| "Covers_loop (h # hs) ts =
     (if covers1 (go_split CHR '':'' h) ts then True else Covers_loop hs ts)"

definition Covers :: "string list \<Rightarrow> string \<Rightarrow> bool" where
  "Covers held target = Covers_loop held (go_split CHR '':'' target)"

section \<open>The three-column storage form\<close>

text \<open>
  The loop over the three columns: the number of columns still to fill, the \<open>star\<close> flag and the
  segments not yet consumed.
\<close>

fun NormalizeCap_loop :: "nat \<Rightarrow> bool \<Rightarrow> string list \<Rightarrow> string list" where
  "NormalizeCap_loop 0 star segs = []"
| "NormalizeCap_loop (Suc k) True segs = ''*'' # NormalizeCap_loop k True segs"
| "NormalizeCap_loop (Suc k) False [] = '''' # NormalizeCap_loop k False []"
| "NormalizeCap_loop (Suc k) False (s # segs) =
     (if s = ''**'' then ''*'' # NormalizeCap_loop k True segs
      else s # NormalizeCap_loop k False segs)"

type_synonym cap_cols = "string \<times> string \<times> string"

definition NormalizeCap :: "string \<Rightarrow> cap_cols" where
  "NormalizeCap pattern =
     (let col = NormalizeCap_loop 3 False (go_split_n 3 CHR '':'' pattern)
      in (col ! 0, col ! 1, col ! 2))"

definition ReconstructCap :: "cap_cols \<Rightarrow> string" where
  "ReconstructCap = (\<lambda>(scope, action, qualifier).
     let cols = rev (dropWhile (\<lambda>c. c = '''') (rev [scope, action, qualifier]));
         run = length (takeWhile (\<lambda>c. c = ''*'') (rev cols));
         cols' = (if run \<ge> 2 then take (length cols - run) cols @ [''**''] else cols)
     in go_join CHR '':'' cols')"

text \<open>
  The column predicate of the SQL queries:
  \<open>(rc.scope = $1 OR rc.scope = '*') AND (rc.action = $2 OR ...) AND (rc.qualifier = $3 OR ...)\<close>.
\<close>

definition sql_cap_match :: "cap_cols \<Rightarrow> cap_cols \<Rightarrow> bool" where
  "sql_cap_match = (\<lambda>(s, a, q) (rs, ra, rq).
     (s = rs \<or> s = ''*'') \<and> (a = ra \<or> a = ''*'') \<and> (q = rq \<or> q = ''*''))"

section \<open>Capability sets\<close>

fun Allows :: "string list \<Rightarrow> string \<Rightarrow> bool" where
  "Allows [] capability = False"
| "Allows (p # c) capability = (if CapMatch p capability then True else Allows c capability)"

definition SSHLoginPrefix :: string where "SSHLoginPrefix = ''ssh:login:''"
definition DBLoginPrefix :: string where "DBLoginPrefix = ''db:login:''"
definition K8sGroupPrefix :: string where "K8sGroupPrefix = ''k8s:group:''"
definition RDPLoginPrefix :: string where "RDPLoginPrefix = ''rdp:login:''"
definition FolderReadCap :: string where "FolderReadCap = ''catalog:folder:read''"

fun EntitledLoginsFor :: "string list \<Rightarrow> string \<Rightarrow> string list \<Rightarrow> string list" where
  "EntitledLoginsFor c prefix [] = []"
| "EntitledLoginsFor c prefix (login # allowed) =
     (if Allows c (prefix @ login) then login # EntitledLoginsFor c prefix allowed
      else EntitledLoginsFor c prefix allowed)"

fun ConcreteQualifiers_loop :: "string \<Rightarrow> string list \<Rightarrow> string list \<Rightarrow> string list" where
  "ConcreteQualifiers_loop prefix seen [] = []"
| "ConcreteQualifiers_loop prefix seen (p # c) =
     (case go_cut_prefix p prefix of
        None \<Rightarrow> ConcreteQualifiers_loop prefix seen c
      | Some rest \<Rightarrow>
          if rest = '''' \<or> CHR ''*'' \<in> set rest then ConcreteQualifiers_loop prefix seen c
          else if rest \<in> set seen then ConcreteQualifiers_loop prefix seen c
          else rest # ConcreteQualifiers_loop prefix (rest # seen) c)"

definition ConcreteQualifiers :: "string list \<Rightarrow> string \<Rightarrow> string list" where
  "ConcreteQualifiers c prefix = ConcreteQualifiers_loop prefix [] c"

definition ReadAllowed :: "string list \<Rightarrow> string \<Rightarrow> bool" where
  "ReadAllowed c objectReadCap = (Allows c objectReadCap \<or> Allows c FolderReadCap)"

text \<open>The carve-out loop of \<open>ConnectCapabilities\<close>: the literal \<open>**\<close> is dropped.\<close>

fun drop_super_cap :: "string list \<Rightarrow> string list" where
  "drop_super_cap [] = []"
| "drop_super_cap (p # caps) =
     (if p = ''**'' then drop_super_cap caps else p # drop_super_cap caps)"

section \<open>Reference semantics\<close>

text \<open>
  What a list of pattern segments denotes: \<open>*\<close> is any one segment, a final \<open>**\<close> one or more,
  anything else itself; a \<open>**\<close> that is not final denotes nothing.
\<close>

fun glob_match :: "string list \<Rightarrow> string list \<Rightarrow> bool" where
  "glob_match [] rs = (rs = [])"
| "glob_match (p # ps) [] = False"
| "glob_match (p # ps) (r # rs) =
     (if p = ''**'' then ps = []
      else (p = ''*'' \<or> p = r) \<and> glob_match ps rs)"

fun glob_covers :: "string list \<Rightarrow> string list \<Rightarrow> bool" where
  "glob_covers [] t = (t = [])"
| "glob_covers (h # hs) [] = False"
| "glob_covers (h # hs) (t # ts) =
     (if h = ''**'' then hs = []
      else (if h = ''*'' then t \<noteq> ''**'' else h = t) \<and> glob_covers hs ts)"

text \<open>Patterns in which \<open>**\<close> occurs as the last segment only.\<close>

definition wf_glob :: "string list \<Rightarrow> bool" where
  "wf_glob ps = (''**'' \<notin> set (butlast ps))"

lemma CapMatch_loop_glob:
  "i \<le> length rs \<Longrightarrow> n = i + length ps \<Longrightarrow>
     CapMatch_loop i ps n rs = glob_match ps (drop i rs)"
proof (induction i ps n rs rule: CapMatch_loop.induct)
  case (2 i p ps n rs)
  show ?case
  proof (cases "i < length rs")
    case True
    then have "drop i rs = rs ! i # drop (Suc i) rs"
      by (rule Cons_nth_drop_Suc [symmetric])
    with 2 True show ?thesis by (auto simp: Suc_le_eq)
  qed (use 2 in auto)
qed auto

lemma covers1_loop_glob:
  "i \<le> length t \<Longrightarrow> n = i + length h \<Longrightarrow>
     covers1_loop i h n t = glob_covers h (drop i t)"
proof (induction i h n t rule: covers1_loop.induct)
  case (2 i hs h n t)
  show ?case
  proof (cases "i < length t")
    case True
    then have "drop i t = t ! i # drop (Suc i) t"
      by (rule Cons_nth_drop_Suc [symmetric])
    with 2 True show ?thesis by (auto simp: Suc_le_eq)
  qed (use 2 in auto)
qed auto

lemma CapMatch_glob [go_simps]:
  "CapMatch p r = glob_match (go_split CHR '':'' p) (go_split CHR '':'' r)"
  by (simp add: CapMatch_def Let_def CapMatch_loop_glob)

lemma covers1_glob [go_simps]: "covers1 h t = glob_covers h t"
  by (simp add: covers1_def covers1_loop_glob)

lemma Covers_iff [go_simps]:
  "Covers held target \<longleftrightarrow>
     (\<exists>h \<in> set held. glob_covers (go_split CHR '':'' h) (go_split CHR '':'' target))"
proof -
  have "Covers_loop held ts \<longleftrightarrow> (\<exists>h \<in> set held. glob_covers (go_split CHR '':'' h) ts)" for ts
    by (induction held) (auto simp: covers1_glob)
  then show ?thesis by (simp add: Covers_def)
qed

lemma Allows_iff [go_simps]: "Allows c cap \<longleftrightarrow> (\<exists>p \<in> set c. CapMatch p cap)"
  by (induction c) auto

lemma EntitledLoginsFor_filter [go_simps]:
  "EntitledLoginsFor c prefix allowed = filter (\<lambda>l. Allows c (prefix @ l)) allowed"
  by (induction allowed) auto

lemma drop_super_cap_filter [go_simps]: "drop_super_cap caps = filter (\<lambda>p. p \<noteq> ''**'') caps"
  by (induction caps) auto

section \<open>Coverage is inclusion\<close>

lemma glob_covers_sound: "glob_covers h t \<Longrightarrow> glob_match t r \<Longrightarrow> glob_match h r"
proof (induction h t arbitrary: r rule: glob_covers.induct)
  case (3 h hs t ts)
  then obtain r0 rs where "r = r0 # rs"
    by (cases r) auto
  with 3 show ?case by (auto split: if_splits)
qed auto

text \<open>A concrete capability has no wildcard segment.\<close>

definition concrete :: "string list \<Rightarrow> bool" where
  "concrete rs = (\<forall>r \<in> set rs. r \<noteq> ''*'' \<and> r \<noteq> ''**'')"

fun instance_of :: "string \<Rightarrow> string list \<Rightarrow> string list" where
  "instance_of w [] = []"
| "instance_of w (t # ts) = (if t = ''*'' \<or> t = ''**'' then w else t) # instance_of w ts"

lemma wf_glob_Cons: "wf_glob (t # ts) \<longleftrightarrow> (ts = [] \<or> t \<noteq> ''**'' \<and> wf_glob ts)"
  by (auto simp: wf_glob_def)

lemma glob_match_instance: "wf_glob t \<Longrightarrow> glob_match t (instance_of w t)"
  by (induction t) (auto simp: wf_glob_Cons)

lemma set_instance: "set (instance_of w t) \<subseteq> insert w (set t)"
  by (induction t) auto

lemma concrete_Nil [simp]: "concrete []"
  by (simp add: concrete_def)

lemma concrete_Cons [simp]:
  "concrete (r # rs) \<longleftrightarrow> r \<noteq> ''*'' \<and> r \<noteq> ''**'' \<and> concrete rs"
  by (simp add: concrete_def)

lemma concrete_instance: "concrete [w] \<Longrightarrow> concrete (instance_of w t)"
  by (induction t) simp_all

text \<open>If a pattern does not cover another, some concrete capability separates them.\<close>

lemma not_covers_separated:
  assumes "\<not> glob_covers h t" and "wf_glob t" and "concrete [w]" and "w \<notin> set h"
  shows "\<exists>r. glob_match t r \<and> \<not> glob_match h r \<and> concrete r \<and> set r \<subseteq> insert w (set t)"
  using assms
proof (induction h t rule: glob_covers.induct)
  case (1 t)
  then show ?case
    using glob_match_instance [of t w] concrete_instance [of w t] set_instance [of w t]
    by (cases t) (auto intro!: exI [of _ "instance_of w t"])
next
  case (2 h hs)
  then show ?case by (auto intro!: exI [of _ "[]"])
next
  case (3 h hs t ts)
  let ?seg = "if t = ''*'' then w else t"
  have inst: "glob_match (t # ts) (instance_of w (t # ts))"
    "concrete (instance_of w (t # ts))" "set (instance_of w (t # ts)) \<subseteq> insert w (set (t # ts))"
    using 3 glob_match_instance concrete_instance set_instance by blast+
  consider (dstar) "t = ''**''" | (rec) "t \<noteq> ''**''" "h \<noteq> ''**''" "\<not> glob_covers hs ts"
      "h = ''*'' \<or> h = t"
    | (other) "t \<noteq> ''**''" "h = ''**'' \<or> h \<noteq> ''*'' \<and> h \<noteq> t"
    using "3.prems"(1) by (cases "t = ''**''"; cases "h = ''**''"; cases "h = ''*''") auto
  then show ?case
  proof cases
    case dstar
    with "3.prems" have ts: "ts = []" by (simp add: wf_glob_Cons)
    show ?thesis
    proof (cases "hs = []")
      case True
      with dstar ts "3.prems" show ?thesis
        by (auto intro!: exI [of _ "[w, w]"] split: if_splits)
    next
      case False
      then have "\<not> glob_match hs []" by (cases hs) auto
      with False dstar ts "3.prems" show ?thesis
        by (auto intro!: exI [of _ "[w]"] split: if_splits)
    qed
  next
    case rec
    have "wf_glob ts"
      using "3.prems"(2) by (cases "ts = []") (simp_all add: wf_glob_def)
    with rec "3.prems" have "\<exists>r. glob_match ts r \<and> \<not> glob_match hs r \<and> concrete r \<and>
        set r \<subseteq> insert w (set ts)"
      by (intro "3.IH") auto
    then obtain r where "glob_match ts r" "\<not> glob_match hs r" "concrete r"
        "set r \<subseteq> insert w (set ts)"
      by blast
    with rec "3.prems" show ?thesis
      by (intro exI [of _ "?seg # r"]) auto
  next
    case other
    then have "\<not> glob_match (h # hs) (instance_of w (t # ts))"
      using "3.prems" by (auto split: if_splits)
    with inst show ?thesis by blast
  qed
qed

lemma fresh_segment: "finite A \<Longrightarrow> \<exists>w. w \<notin> A \<and> CHR '':'' \<notin> set w"
proof -
  assume fin: "finite A"
  have "inj (\<lambda>n. replicate n CHR ''x'')"
    by (rule injI) simp
  then have "infinite (range (\<lambda>n. replicate n CHR ''x''))"
    using finite_imageD infinite_UNIV_nat by blast
  with fin have "\<not> range (\<lambda>n. replicate n CHR ''x'') \<subseteq> A"
    using finite_subset by blast
  then obtain n where "replicate n CHR ''x'' \<notin> A"
    by auto
  then show ?thesis
    by (intro exI [of _ "replicate n CHR ''x''"]) simp
qed

text \<open>
  Interface of a glob engine to the grant rules: matching of a pattern against a capability, and
  the covering test. What the client needs is that covering is sound for matching.
\<close>

locale glob_engine =
  fixes matches :: "'p \<Rightarrow> 'c \<Rightarrow> bool"
    and covered_by :: "'p list \<Rightarrow> 'p \<Rightarrow> bool"
  assumes covered_sound:
    "covered_by held p \<Longrightarrow> matches p c \<Longrightarrow> \<exists>h \<in> set held. matches h c"
begin

lemma all_covered_no_escalation:
  assumes "\<forall>p \<in> set granted. covered_by held p" and "p \<in> set granted" and "matches p c"
  shows "\<exists>h \<in> set held. matches h c"
  using assms covered_sound by blast

end

interpretation cap_engine: glob_engine CapMatch Covers
proof
  fix held p c
  assume "Covers held p" and "CapMatch p c"
  then show "\<exists>h \<in> set held. CapMatch h c"
    unfolding go_simps using glob_covers_sound by blast
qed

section \<open>Round trip of the storage form\<close>

lemma NormalizeCap_segs:
  "NormalizeCap p =
     (case go_split CHR '':'' p of
        [] \<Rightarrow> ('''', '''', '''')
      | [a] \<Rightarrow> if a = ''**'' then (''*'', ''*'', ''*'') else (a, '''', '''')
      | [a, b] \<Rightarrow> if a = ''**'' then (''*'', ''*'', ''*'')
                 else if b = ''**'' then (a, ''*'', ''*'') else (a, b, '''')
      | a # b # c # ds \<Rightarrow>
          if a = ''**'' then (''*'', ''*'', ''*'')
          else if b = ''**'' then (a, ''*'', ''*'')
          else if go_join CHR '':'' (c # ds) = ''**'' then (a, b, ''*'')
          else (a, b, go_join CHR '':'' (c # ds)))"
proof -
  have three: "3 = Suc (Suc (Suc 0))" by simp
  have norm: "NormalizeCap p =
      (let col = NormalizeCap_loop (Suc (Suc (Suc 0))) False segs
       in (col ! 0, col ! Suc 0, col ! Suc (Suc 0)))"
    if "go_split_n (Suc (Suc (Suc 0))) CHR '':'' p = segs" for segs
    using that by (simp only: NormalizeCap_def three numeral_2_eq_2 One_nat_def)
  note split = go_split_n_split [of "Suc (Suc 0)" "CHR '':''" p]
  consider "go_split CHR '':'' p = []" | a where "go_split CHR '':'' p = [a]"
    | a b where "go_split CHR '':'' p = [a, b]"
    | a b c where "go_split CHR '':'' p = [a, b, c]"
    | a b c d ds where "go_split CHR '':'' p = a # b # c # d # ds"
    by (metis list.exhaust)
  then show ?thesis
  proof cases
    case 1
    then show ?thesis by simp
  next
    case 2
    with split have "go_split_n (Suc (Suc (Suc 0))) CHR '':'' p = [a]" by simp
    from norm [OF this] 2 show ?thesis by (simp add: Let_def)
  next
    case 3
    with split have "go_split_n (Suc (Suc (Suc 0))) CHR '':'' p = [a, b]" by simp
    from norm [OF this] 3 show ?thesis by (simp add: Let_def)
  next
    case 4
    with split have "go_split_n (Suc (Suc (Suc 0))) CHR '':'' p = [a, b, c]" by simp
    from norm [OF this] 4 show ?thesis by (simp add: Let_def)
  next
    case 5
    with split have "go_split_n (Suc (Suc (Suc 0))) CHR '':'' p =
        [a, b, go_join CHR '':'' (c # d # ds)]" by simp
    from norm [OF this] 5 show ?thesis by (simp add: Let_def)
  qed
qed

lemma ReconstructCap_full:
  "q \<noteq> '''' \<Longrightarrow> q \<noteq> ''*'' \<Longrightarrow> ReconstructCap (a, b, q) = go_join CHR '':'' [a, b, q]"
  by (simp add: ReconstructCap_def Let_def)

lemma ReconstructCap_star:
  "a \<noteq> '''' \<Longrightarrow> b \<noteq> '''' \<Longrightarrow> ReconstructCap (a, b, ''*'') =
     (if b \<noteq> ''*'' then go_join CHR '':'' [a, b, ''*'']
      else if a \<noteq> ''*'' then go_join CHR '':'' [a, ''**''] else ''**'')"
  by (simp add: ReconstructCap_def Let_def)

lemma ReconstructCap_two:
  "b \<noteq> '''' \<Longrightarrow> ReconstructCap (a, b, '''') =
     (if a = ''*'' \<and> b = ''*'' then ''**'' else go_join CHR '':'' [a, b])"
  by (simp add: ReconstructCap_def Let_def)

text \<open>
  The grammar the API accepts for a stored capability (the field pattern of
  \<open>CreateRoleRequest.capabilities\<close> in \<open>proto/jumpgate/access/v1/access.proto\<close>).
\<close>

definition cap_char :: "char \<Rightarrow> bool" where
  "cap_char c = (c \<in> set ''abcdefghijklmnopqrstuvwxyz0123456789'')"

definition cap_label :: "string \<Rightarrow> bool" where
  "cap_label s = list_all (\<lambda>part. part \<noteq> '''' \<and> list_all cap_char part) (go_split CHR ''-'' s)"

definition valid_cap :: "string \<Rightarrow> bool" where
  "valid_cap p = (p = ''**'' \<or>
     (let segs = go_split CHR '':'' p
      in length segs \<ge> 2 \<and> (\<forall>s \<in> set (butlast segs). cap_label s \<or> s = ''*'') \<and>
         (cap_label (last segs) \<or> last segs = ''*'' \<or> last segs = ''**'')))"

text \<open>The patterns whose shape the three columns cannot hold.\<close>

definition lossy_cap :: "string \<Rightarrow> bool" where
  "lossy_cap p = (case go_split CHR '':'' p of
       [a, b] \<Rightarrow> a = ''*'' \<and> (b = ''*'' \<or> b = ''**'')
     | [a, b, c] \<Rightarrow> c = ''**'' \<or> b = ''*'' \<and> c = ''*''
     | _ \<Rightarrow> False)"

lemma cap_label_not_wild:
  assumes "cap_label s"
  shows "s \<noteq> '''' \<and> s \<noteq> ''*'' \<and> s \<noteq> ''**''"
proof -
  have "\<not> cap_label ''''" "\<not> cap_label ''*''" "\<not> cap_label ''**''"
    by (simp_all add: cap_label_def cap_char_def)
  with assms show ?thesis by blast
qed

lemma valid_cap_segs:
  assumes "valid_cap p"
  shows "p = ''**'' \<or> (\<exists>a b. go_split CHR '':'' p = [a, b] \<and> a \<noteq> '''' \<and> b \<noteq> '''' \<and> a \<noteq> ''**'')
     \<or> (\<exists>a b c ds. go_split CHR '':'' p = a # b # c # ds \<and> a \<noteq> '''' \<and> b \<noteq> '''' \<and> c \<noteq> '''' \<and>
          a \<noteq> ''**'' \<and> b \<noteq> ''**'' \<and> (ds \<noteq> [] \<longrightarrow> c \<noteq> ''**''))"
proof -
  have "p = ''**'' \<or> length (go_split CHR '':'' p) \<ge> 2"
    using assms by (auto simp: valid_cap_def Let_def)
  then consider "p = ''**''" | a b where "go_split CHR '':'' p = [a, b]"
    | a b c ds where "go_split CHR '':'' p = a # b # c # ds"
    by (auto simp: numeral_2_eq_2 Suc_le_length_iff) (metis list.exhaust)
  then show ?thesis
  proof cases
    case 2
    with assms show ?thesis
      by (auto simp: valid_cap_def Let_def dest!: cap_label_not_wild)
  next
    case 3
    with assms show ?thesis
      by (cases ds) (auto simp: valid_cap_def Let_def dest!: cap_label_not_wild)
  qed simp
qed

lemma go_join_eq_iff:
  assumes "go_split c p = ss" and "ts \<noteq> []" and "\<forall>t \<in> set ts. c \<notin> set t"
  shows "go_join c ts = p \<longleftrightarrow> ts = ss"
  using assms go_split_join go_join_split by metis

lemma go_join_has_sep: "c \<in> set (go_join c (s # t # ss))"
  by simp

lemma join_tail_not_wild:
  "go_join CHR '':'' (c # d # ds) \<noteq> ''''" "go_join CHR '':'' (c # d # ds) \<noteq> ''*''"
  "go_join CHR '':'' (c # d # ds) \<noteq> ''**''"
proof -
  have "CHR '':'' \<in> set (go_join CHR '':'' (c # d # ds))"
    by (rule go_join_has_sep)
  moreover have "CHR '':'' \<notin> set ''''" "CHR '':'' \<notin> set ''*''" "CHR '':'' \<notin> set ''**''"
    by simp_all
  ultimately show "go_join CHR '':'' (c # d # ds) \<noteq> ''''"
    "go_join CHR '':'' (c # d # ds) \<noteq> ''*''" "go_join CHR '':'' (c # d # ds) \<noteq> ''**''"
    by metis+
qed

lemma roundtrip_two:
  assumes p: "go_split CHR '':'' p = [a, b]" and "a \<noteq> ''''" "b \<noteq> ''''" "a \<noteq> ''**''"
  shows "ReconstructCap (NormalizeCap p) = p \<longleftrightarrow> \<not> (a = ''*'' \<and> (b = ''*'' \<or> b = ''**''))"
proof -
  have sep: "CHR '':'' \<notin> set a" "CHR '':'' \<notin> set b"
    using go_split_segs_no_sep [of _ "CHR '':''" p] p by auto
  have "p \<noteq> ''**''"
    using p by auto
  moreover have "go_join CHR '':'' [a, b] = p"
    using go_join_split [of "CHR '':''" p] p by simp
  ultimately show ?thesis
    using assms by (auto simp: NormalizeCap_segs ReconstructCap_star ReconstructCap_two)
qed

lemma roundtrip_three:
  assumes p: "go_split CHR '':'' p = [a, b, c]"
    and nz: "a \<noteq> ''''" "b \<noteq> ''''" "c \<noteq> ''''" "a \<noteq> ''**''" "b \<noteq> ''**''"
  shows "ReconstructCap (NormalizeCap p) = p \<longleftrightarrow> \<not> (c = ''**'' \<or> b = ''*'' \<and> c = ''*'')"
proof -
  have sep: "CHR '':'' \<notin> set a" "CHR '':'' \<notin> set b" "CHR '':'' \<notin> set c"
    using go_split_segs_no_sep [of _ "CHR '':''" p] p by auto
  have eq: "go_join CHR '':'' [a, b, c] = p"
    using go_join_split [of "CHR '':''" p] p by simp
  have ne: "go_join CHR '':'' ts \<noteq> p"
    if "ts \<noteq> []" "\<forall>t \<in> set ts. CHR '':'' \<notin> set t" "ts \<noteq> [a, b, c]" for ts
    using go_join_eq_iff [OF p that(1,2)] that(3) by simp
  have star: "ReconstructCap (a, b, ''*'') \<noteq> p" if "c = ''**'' \<or> b = ''*''"
    using nz that sep ne [of "[a, b, ''*'']"] ne [of "[a, ''**'']"] ne [of "[''**'']"]
    by (auto simp: ReconstructCap_star)
  show ?thesis
  proof (cases "c = ''**'' \<or> c = ''*''")
    case True
    then have "NormalizeCap p = (a, b, ''*'')"
      using p nz by (auto simp: NormalizeCap_segs)
    with True star nz eq show ?thesis
      by (auto simp: ReconstructCap_star)
  next
    case False
    with p nz have "NormalizeCap p = (a, b, c)" by (simp add: NormalizeCap_segs)
    with False nz eq show ?thesis by (simp add: ReconstructCap_full)
  qed
qed

lemma roundtrip_long:
  assumes p: "go_split CHR '':'' p = a # b # c # d # ds" and "a \<noteq> ''**''" "b \<noteq> ''**''"
  shows "ReconstructCap (NormalizeCap p) = p"
proof -
  have "NormalizeCap p = (a, b, go_join CHR '':'' (c # d # ds))"
    using assms join_tail_not_wild by (simp add: NormalizeCap_segs)
  moreover have "go_join CHR '':'' [a, b, go_join CHR '':'' (c # d # ds)] = p"
    using go_join_split [of "CHR '':''" p] p by simp
  ultimately show ?thesis
    using join_tail_not_wild by (simp add: ReconstructCap_full del: go_join.simps)
qed

section \<open>Properties\<close>





lemma sql_cap_match_iff:
  assumes "valid_cap p" and "go_split CHR '':'' r = [x, y, z]" and "concrete [x, y, z]"
    and "z \<noteq> ''''"
  shows "sql_cap_match (NormalizeCap p) (NormalizeCap r) = CapMatch p r"
proof -
  have zsep: "CHR '':'' \<notin> set z"
    using go_split_segs_no_sep [of z "CHR '':''" r] assms(2) by simp
  have norm: "NormalizeCap r = (x, y, z)"
    using assms by (simp add: NormalizeCap_segs)
  have tail: "go_join CHR '':'' (c # d # ds) \<noteq> z" for c d ds
    using go_join_has_sep [of "CHR '':''"] zsep by metis
  show ?thesis
    using valid_cap_segs [OF assms(1)]
  proof (elim disjE exE conjE)
    assume "p = ''**''"
    then show ?thesis
      using assms norm by (simp add: NormalizeCap_segs sql_cap_match_def go_simps)
  next
    fix a b
    assume "go_split CHR '':'' p = [a, b]" "a \<noteq> ''''" "b \<noteq> ''''" "a \<noteq> ''**''"
    then show ?thesis
      using assms norm
      by (cases "b = ''**''") (auto simp: NormalizeCap_segs sql_cap_match_def go_simps)
  next
    fix a b c ds
    assume "go_split CHR '':'' p = a # b # c # ds" "a \<noteq> ''''" "b \<noteq> ''''" "c \<noteq> ''''"
      "a \<noteq> ''**''" "b \<noteq> ''**''" "ds \<noteq> [] \<longrightarrow> c \<noteq> ''**''"
    then show ?thesis
      using assms norm tail join_tail_not_wild
      by (cases ds) (auto simp: NormalizeCap_segs sql_cap_match_def go_simps)
  qed
qed





end
