(* ===== verification/Schema.thy ===== *)
theory Schema
  imports Prelude Capability
begin

text \<open>
  The tables of the control-plane database that carry the access model
  (\<open>warden/internal/postgres/migrate/migrations/0001_schema.sql\<close>), with the columns the modelled
  code reads or writes, and the database state as a record of tables. A nullable column is an
  \<open>option\<close>; a table is the list of its rows. \<open>sql_eq\<close> is SQL equality of nullable values used as a
  condition: it holds only for two equal non-NULL values. The CHECK constraints and unique indexes
  the proofs rely on are collected in \<open>schema_checks\<close>.
\<close>

datatype object_kind = KAsset | KFolder
datatype rewrite_via = ViaSameObject | ViaParent
datatype subject_kind = Requester | Approver
datatype request_status = Pending | Granted | Denied | Cancelled
datatype vote_decision = Approve | Deny

record user_row =
  u_id :: uuid
  u_email :: string
  u_display_name :: string
  u_password_hash :: string
  u_deactivated_at :: "time option"

record group_row =
  g_id :: uuid
  g_name :: string
  g_folder :: "uuid option"
  g_external_key :: "string option"

record group_membership =
  gm_id :: uuid
  gm_group :: uuid
  gm_member_user :: "uuid option"
  gm_member_group :: "uuid option"
  gm_origin :: string
  gm_created_at :: time

text \<open>\<open>path_ids\<close> is the ltree column: the ids from the root folder down to the folder itself.\<close>

record folder_row =
  f_id :: uuid
  f_name :: string
  f_parent :: "uuid option"
  f_path_ids :: "uuid list"

record asset_row =
  a_id :: uuid
  a_name :: string
  a_folder :: uuid
  a_kind :: string
  a_endpoint_revision :: int

text \<open>
  The connection settings of an asset, one table per kind: its target address (and, for
  PostgreSQL, the default database) and its logins. A login names the sealed secret it uses.
\<close>

record asset_config =
  ac_asset :: uuid
  ac_target_address :: string
  ac_default_database :: string

record asset_login =
  al_asset :: uuid
  al_login :: string
  al_kind :: string
  al_secret :: "uuid option"

record asset_secret =
  as_id :: uuid
  as_asset :: uuid
  as_name :: string
  as_sealed :: string

text \<open>The names of the catalog, which folders and assets of one parent share.\<close>

record catalog_name =
  cn_parent :: "uuid option"
  cn_name :: string
  cn_folder :: "uuid option"
  cn_asset :: "uuid option"

record role_row =
  r_id :: uuid
  r_name :: string
  r_folder :: "uuid option"

record role_capability =
  rc_role :: uuid
  rc_cols :: cap_cols

record role_grant =
  rg_id :: uuid
  rg_role :: uuid
  rg_source :: uuid
  rg_via :: rewrite_via
  rg_created_at :: time

record role_binding =
  rb_id :: uuid
  rb_role :: uuid
  rb_scope_folder :: "uuid option"
  rb_scope_asset :: "uuid option"
  rb_subject_user :: "uuid option"
  rb_subject_group :: "uuid option"
  rb_created_at :: time

text \<open>\<open>pgtype.Interval\<close>, not NULL: months, days and microseconds are separate fields.\<close>

record pg_interval =
  iv_months :: int
  iv_days :: int
  iv_microseconds :: int

record request_policy =
  rp_id :: uuid
  rp_role :: uuid
  rp_scope_folder :: "uuid option"
  rp_scope_asset :: "uuid option"
  rp_required_approvals :: int
  rp_approver_role :: "uuid option"
  rp_requester_role :: "uuid option"
  rp_max_duration :: "pg_interval option"
  rp_name :: "string option"
  rp_created_at :: time

record policy_subject =
  ps_id :: uuid
  ps_policy :: uuid
  ps_kind :: subject_kind
  ps_user :: "uuid option"
  ps_group :: "uuid option"
  ps_created_at :: time

record access_request =
  ar_id :: uuid
  ar_requester :: uuid
  ar_role :: uuid
  ar_asset :: uuid
  ar_reason :: string
  ar_requested_duration :: pg_interval
  ar_required_approvals :: int
  ar_granted_duration :: pg_interval
  ar_status :: request_status
  ar_created_at :: time
  ar_resolved_at :: "time option"

record request_approval =
  ap_request :: uuid
  ap_approver :: uuid
  ap_decision :: vote_decision

record access_grant =
  ag_id :: uuid
  ag_request :: uuid
  ag_role :: uuid
  ag_asset :: uuid
  ag_subject :: uuid
  ag_granted_at :: time
  ag_expires_at :: time
  ag_revoked_at :: "time option"
  ag_revoked_by :: "uuid option"
  ag_revoked_reason :: "string option"

record live_session =
  ls_id :: uuid
  ls_user :: uuid
  ls_asset :: uuid
  ls_worker :: string
  ls_grant :: "uuid option"
  ls_protocol :: string
  ls_principals :: "string list"
  ls_client_key_fp :: string
  ls_started_at :: time
  ls_terminate_requested_at :: "time option"

record worker_presence_row =
  wp_worker :: string
  wp_last_seen_at :: time

record db =
  users :: "user_row list"
  groups :: "group_row list"
  group_memberships :: "group_membership list"
  folders :: "folder_row list"
  assets :: "asset_row list"
  roles :: "role_row list"
  role_capabilities :: "role_capability list"
  role_grants :: "role_grant list"
  role_bindings :: "role_binding list"
  request_policies :: "request_policy list"
  policy_subjects :: "policy_subject list"
  access_requests :: "access_request list"
  request_approvals :: "request_approval list"
  access_grants :: "access_grant list"
  catalog_names :: "catalog_name list"
  asset_secrets :: "asset_secret list"
  ssh_asset_configs :: "asset_config list"
  ssh_asset_logins :: "asset_login list"
  postgres_asset_configs :: "asset_config list"
  postgres_asset_logins :: "asset_login list"
  rdp_asset_configs :: "asset_config list"
  rdp_asset_logins :: "asset_login list"
  live_sessions :: "live_session list"
  worker_presence :: "worker_presence_row list"

fun sql_eq :: "'a option \<Rightarrow> 'a option \<Rightarrow> bool" where
  "sql_eq (Some x) (Some y) = (x = y)"
| "sql_eq _ _ = False"

lemma sql_eq_Some [simp]: "sql_eq a (Some x) \<longleftrightarrow> a = Some x"
  by (cases a) auto

lemma sql_eq_iff: "sql_eq a b \<longleftrightarrow> (\<exists>x. a = Some x \<and> b = Some x)"
  by (cases a; cases b) auto

section \<open>Constraints\<close>

text \<open>\<open>at_most_one_scope\<close> on \<open>role_bindings\<close> and \<open>scope_shape\<close> on \<open>request_policies\<close>.\<close>

definition binding_check :: "role_binding \<Rightarrow> bool" where
  "binding_check rb = (\<not> (rb_scope_folder rb \<noteq> None \<and> rb_scope_asset rb \<noteq> None))"

definition policy_check :: "request_policy \<Rightarrow> bool" where
  "policy_check rp = (rp_required_approvals rp \<ge> 0 \<and>
     \<not> (rp_scope_folder rp \<noteq> None \<and> rp_scope_asset rp \<noteq> None))"

text \<open>
  The unique indexes of \<open>request_policies\<close>: at most one policy of a role for an asset, for a
  folder, and as the default.
\<close>

definition policies_unique :: "db \<Rightarrow> bool" where
  "policies_unique d = distinct (map (\<lambda>rp. (rp_role rp, rp_scope_folder rp, rp_scope_asset rp))
     (request_policies d))"

text \<open>
  A generated uuid is never the nil uuid, and a policy's scope asset exists (foreign key).
\<close>

definition no_nil_roles :: "db \<Rightarrow> bool" where
  "no_nil_roles d = list_all (\<lambda>rp. rp_approver_role rp \<noteq> Some uuid_nil \<and>
     rp_requester_role rp \<noteq> Some uuid_nil) (request_policies d)"

definition policy_scope_fk :: "db \<Rightarrow> bool" where
  "policy_scope_fk d = list_all (\<lambda>rp. case rp_scope_asset rp of
     None \<Rightarrow> True | Some a \<Rightarrow> list_ex (\<lambda>r. a_id r = a) (assets d)) (request_policies d)"

definition schema_checks :: "db \<Rightarrow> bool" where
  "schema_checks d =
     (list_all binding_check (role_bindings d) \<and> list_all policy_check (request_policies d))"

end
