(* ===== verification/Sample.thy ===== *)
theory Sample
  imports Schema
begin

text \<open>
  A small database the witnesses evaluate the model on: two folders, an asset in the inner one,
  a requester, two approvers in a group, a deactivated user, an administrator with a global
  binding, and request policies for the role \<open>operator\<close> at a folder and as the default.
\<close>

definition sample_db :: db where
  "sample_db = \<lparr>
     users = [\<lparr>u_id = 1, u_email = ''ann'', u_display_name = ''ann'', u_password_hash = [],
                 u_deactivated_at = None\<rparr>, \<lparr>u_id = 2, u_email = ''bob'', u_display_name = ''bob'', u_password_hash = [],
                 u_deactivated_at = None\<rparr>,
              \<lparr>u_id = 3, u_email = ''cyd'', u_display_name = ''cyd'', u_password_hash = [],
                 u_deactivated_at = Some 5\<rparr>, \<lparr>u_id = 4, u_email = ''dee'', u_display_name = ''dee'', u_password_hash = [],
                 u_deactivated_at = None\<rparr>,
              \<lparr>u_id = 5, u_email = ''eve'', u_display_name = ''eve'', u_password_hash = [],
                 u_deactivated_at = None\<rparr>],
     groups = [\<lparr>g_id = 50, g_name = ''approvers'', g_folder = None, g_external_key = None\<rparr>, \<lparr>g_id = 51, g_name = ''dbas'', g_folder = Some 10, g_external_key = None\<rparr>],
     group_memberships =
       [\<lparr>gm_id = 101, gm_group = 50, gm_member_user = Some 2, gm_member_group = None,
          gm_origin = ''manual'', gm_created_at = 0\<rparr>,
        \<lparr>gm_id = 102, gm_group = 50, gm_member_user = Some 3, gm_member_group = None,
          gm_origin = ''manual'', gm_created_at = 0\<rparr>,
        \<lparr>gm_id = 103, gm_group = 51, gm_member_user = Some 4, gm_member_group = None,
          gm_origin = ''manual'', gm_created_at = 0\<rparr>,
        \<lparr>gm_id = 104, gm_group = 50, gm_member_user = None, gm_member_group = Some 51,
          gm_origin = ''manual'', gm_created_at = 0\<rparr>],
     folders =
       [\<lparr>f_id = 10, f_name = ''prod'', f_parent = None, f_path_ids = [10]\<rparr>,
        \<lparr>f_id = 11, f_name = ''db'', f_parent = Some 10, f_path_ids = [10, 11]\<rparr>],
     assets = [\<lparr>a_id = 20, a_name = ''pg1'', a_folder = 11, a_kind = ''ssh'', a_endpoint_revision = 1\<rparr>],
     roles =
       [\<lparr>r_id = 30, r_name = ''operator'', r_folder = None\<rparr>,
        \<lparr>r_id = 31, r_name = ''requester'', r_folder = Some 10\<rparr>,
        \<lparr>r_id = 32, r_name = ''approver'', r_folder = Some 10\<rparr>,
        \<lparr>r_id = 33, r_name = ''admin'', r_folder = None\<rparr>],
     role_capabilities =
       [\<lparr>rc_role = 30, rc_cols = NormalizeCap ''ssh:login:root''\<rparr>,
        \<lparr>rc_role = 32, rc_cols = NormalizeCap ''access:request:read''\<rparr>,
        \<lparr>rc_role = 33, rc_cols = NormalizeCap ''**''\<rparr>],
     role_grants =
       [\<lparr>rg_id = 70, rg_role = 31, rg_source = 31, rg_via = ViaParent, rg_created_at = 0\<rparr>,
        \<lparr>rg_id = 71, rg_role = 32, rg_source = 32, rg_via = ViaParent, rg_created_at = 0\<rparr>],
     role_bindings =
       [\<lparr>rb_id = 40, rb_role = 31, rb_scope_folder = Some 10, rb_scope_asset = None,
          rb_subject_user = Some 1, rb_subject_group = None, rb_created_at = 0\<rparr>,
        \<lparr>rb_id = 41, rb_role = 32, rb_scope_folder = Some 10, rb_scope_asset = None,
          rb_subject_user = None, rb_subject_group = Some 50, rb_created_at = 0\<rparr>,
        \<lparr>rb_id = 42, rb_role = 33, rb_scope_folder = None, rb_scope_asset = None,
          rb_subject_user = Some 5, rb_subject_group = None, rb_created_at = 0\<rparr>],
     request_policies =
       [\<lparr>rp_id = 60, rp_role = 30, rp_scope_folder = Some 10, rp_scope_asset = None,
          rp_required_approvals = 2, rp_approver_role = Some 32, rp_requester_role = Some 31,
          rp_max_duration = Some \<lparr>iv_months = 0, iv_days = 0, iv_microseconds = 3600000000\<rparr>,
          rp_name = None, rp_created_at = 0\<rparr>,
        \<lparr>rp_id = 61, rp_role = 30, rp_scope_folder = None, rp_scope_asset = None,
          rp_required_approvals = 1, rp_approver_role = None, rp_requester_role = None,
          rp_max_duration = None, rp_name = None, rp_created_at = 0\<rparr>],
     policy_subjects =
       [\<lparr>ps_id = 65, ps_policy = 61, ps_kind = Approver, ps_user = Some 4, ps_group = None, ps_created_at = 0\<rparr>],
     access_requests = [], request_approvals = [], access_grants = [],
     catalog_names =
       [\<lparr>cn_parent = None, cn_name = ''prod'', cn_folder = Some 10, cn_asset = None\<rparr>,
        \<lparr>cn_parent = Some 10, cn_name = ''db'', cn_folder = Some 11, cn_asset = None\<rparr>,
        \<lparr>cn_parent = Some 11, cn_name = ''pg1'', cn_folder = None, cn_asset = Some 20\<rparr>],
     asset_secrets = [],
     ssh_asset_configs = [\<lparr>ac_asset = 20, ac_target_address = ''10.0.0.1:22'', ac_default_database = []\<rparr>],
     ssh_asset_logins = [\<lparr>al_asset = 20, al_login = ''root'', al_kind = ''ca'', al_secret = None\<rparr>],
     postgres_asset_configs = [], postgres_asset_logins = [],
     rdp_asset_configs = [], rdp_asset_logins = [], live_sessions = [], worker_presence = []\<rparr>"

definition sample_grant :: access_grant where
  "sample_grant = \<lparr>ag_id = 90, ag_request = 80, ag_role = 30, ag_asset = 20, ag_subject = 1,
     ag_granted_at = 0, ag_expires_at = 100, ag_revoked_at = None, ag_revoked_by = None,
     ag_revoked_reason = None\<rparr>"

end
