(* ===== verification/Closure.thy ===== *)
theory Closure
  imports Schema Sample
begin

text \<open>
  The authorization closures of \<open>warden/internal/authz\<close>. They are recursive SQL functions of the
  schema (\<open>authz_user_groups\<close>, \<open>authz_held_impl\<close>, \<open>authz_global_held\<close>, \<open>authz_role_goals\<close>), which
  \<open>authorizer.go\<close>, \<open>roleresolver.go\<close> and \<open>global_held.go\<close> reach through queries: the forward
  closure of the roles a user holds, and the backward goal expansion behind \<open>HoldsRole\<close>. Each is
  the work-list evaluation \<open>cte_union\<close> of its recursive query; the fuel is one more than the number
  of rows that can occur, so it never runs out (the \<open>_reach\<close> lemmas).

  The main result is that the two directions agree (\<open>HoldsRole_iff_held\<close>,
  \<open>HoldsRoleStanding_iff_held\<close>): a question answered by goal expansion and one answered by the
  forward closure cannot diverge.
\<close>

section \<open>Users and groups\<close>

definition authz_user_is_active :: "db \<Rightarrow> uuid \<Rightarrow> bool" where
  "authz_user_is_active d u = list_ex (\<lambda>r. u_id r = u \<and> u_deactivated_at r = None) (users d)"

definition user_groups_base :: "db \<Rightarrow> uuid \<Rightarrow> uuid list" where
  "user_groups_base d u =
     map gm_group (filter (\<lambda>gm. sql_eq (gm_member_user gm) (Some u)) (group_memberships d))"

definition user_groups_step :: "db \<Rightarrow> uuid \<Rightarrow> uuid list" where
  "user_groups_step d g =
     map gm_group (filter (\<lambda>gm. sql_eq (gm_member_group gm) (Some g)) (group_memberships d))"

definition authz_user_groups :: "db \<Rightarrow> uuid \<Rightarrow> uuid list" where
  "authz_user_groups d u =
     cte_union (Suc (length (group_memberships d))) (user_groups_step d) (user_groups_base d u)"

section \<open>The forward closure\<close>

type_synonym held_row = "uuid \<times> object_kind \<times> uuid option"

definition active_access_grants :: "db \<Rightarrow> time \<Rightarrow> access_grant list" where
  "active_access_grants d now =
     filter (\<lambda>g. ag_revoked_at g = None \<and> ag_expires_at g > now) (access_grants d)"

text \<open>\<open>rb.subject_user_id = u OR rb.subject_group_id IN authz_user_groups(u)\<close>.\<close>

definition binding_subject_is :: "db \<Rightarrow> uuid \<Rightarrow> role_binding \<Rightarrow> bool" where
  "binding_subject_is d u rb =
     (sql_eq (rb_subject_user rb) (Some u) \<or>
      list_ex (\<lambda>g. sql_eq (rb_subject_group rb) (Some g)) (authz_user_groups d u))"

definition binding_row :: "role_binding \<Rightarrow> held_row" where
  "binding_row rb =
     (rb_role rb, if rb_scope_asset rb \<noteq> None then KAsset else KFolder,
      case rb_scope_asset rb of Some a \<Rightarrow> Some a | None \<Rightarrow> rb_scope_folder rb)"

definition held_base :: "db \<Rightarrow> time \<Rightarrow> uuid \<Rightarrow> bool \<Rightarrow> held_row list" where
  "held_base d now u include_grants =
     map binding_row
       (filter (\<lambda>rb. binding_subject_is d u rb \<and> authz_user_is_active d u) (role_bindings d)) @
     map (\<lambda>g. (ag_role g, KAsset, Some (ag_asset g)))
       (filter (\<lambda>g. include_grants \<and> ag_subject g = u \<and> authz_user_is_active d u)
         (active_access_grants d now))"

definition rewrite_rules :: "db \<Rightarrow> uuid \<Rightarrow> rewrite_via \<Rightarrow> role_grant list" where
  "rewrite_rules d source via = filter (\<lambda>rg. rg_source rg = source \<and> rg_via rg = via) (role_grants d)"

definition held_step :: "db \<Rightarrow> held_row \<Rightarrow> held_row list" where
  "held_step d = (\<lambda>(r, k, oid).
     map (\<lambda>rg. (rg_role rg, k, oid)) (rewrite_rules d r ViaSameObject) @
     concat (map (\<lambda>rg. map (\<lambda>cf. (rg_role rg, KFolder, Some (f_id cf)))
         (filter (\<lambda>cf. k = KFolder \<and> sql_eq (f_parent cf) oid) (folders d)))
       (rewrite_rules d r ViaParent)) @
     concat (map (\<lambda>rg. map (\<lambda>ca. (rg_role rg, KAsset, Some (a_id ca)))
         (filter (\<lambda>ca. k = KFolder \<and> sql_eq (Some (a_folder ca)) oid) (assets d)))
       (rewrite_rules d r ViaParent)))"

definition held_fuel :: "db \<Rightarrow> time \<Rightarrow> uuid \<Rightarrow> bool \<Rightarrow> nat" where
  "held_fuel d now u b =
     Suc ((length (held_base d now u b) + length (role_grants d)) *
          (length (held_base d now u b) + length (folders d) + length (assets d)))"

definition authz_held_impl :: "db \<Rightarrow> time \<Rightarrow> uuid \<Rightarrow> bool \<Rightarrow> held_row list" where
  "authz_held_impl d now u include_grants =
     cte_union (held_fuel d now u include_grants) (held_step d) (held_base d now u include_grants)"

definition authz_held :: "db \<Rightarrow> time \<Rightarrow> uuid \<Rightarrow> held_row list" where
  "authz_held d now u = authz_held_impl d now u True"

definition authz_held_standing :: "db \<Rightarrow> time \<Rightarrow> uuid \<Rightarrow> held_row list" where
  "authz_held_standing d now u = authz_held_impl d now u False"

section \<open>The global closure\<close>

definition global_held_base :: "db \<Rightarrow> uuid \<Rightarrow> uuid list" where
  "global_held_base d u = map rb_role
     (filter (\<lambda>rb. rb_scope_folder rb = None \<and> rb_scope_asset rb = None \<and>
        binding_subject_is d u rb \<and> authz_user_is_active d u) (role_bindings d))"

definition global_held_step :: "db \<Rightarrow> uuid \<Rightarrow> uuid list" where
  "global_held_step d r = map rg_role (filter (\<lambda>rg. rg_source rg = r) (role_grants d))"

definition authz_global_held :: "db \<Rightarrow> uuid \<Rightarrow> uuid list" where
  "authz_global_held d u =
     cte_union (Suc (length (role_bindings d) + length (role_grants d)))
       (global_held_step d) (global_held_base d u)"

section \<open>Goal expansion\<close>

type_synonym goal_row = "uuid \<times> object_kind \<times> uuid"

definition goal_rewrites :: "db \<Rightarrow> uuid \<Rightarrow> rewrite_via \<Rightarrow> role_grant list" where
  "goal_rewrites d r via = filter (\<lambda>rg. rg_role rg = r \<and> rg_via rg = via) (role_grants d)"

definition goal_step :: "db \<Rightarrow> goal_row \<Rightarrow> goal_row list" where
  "goal_step d = (\<lambda>(r, k, oid).
     map (\<lambda>rg. (rg_source rg, k, oid)) (goal_rewrites d r ViaSameObject) @
     concat (map (\<lambda>rg. map (\<lambda>a. (rg_source rg, KFolder, a_folder a))
         (filter (\<lambda>a. k = KAsset \<and> a_id a = oid) (assets d)))
       (goal_rewrites d r ViaParent)) @
     concat (map (\<lambda>rg. concat (map (\<lambda>f. case f_parent f of
             None \<Rightarrow> [] | Some p \<Rightarrow> [(rg_source rg, KFolder, p)])
         (filter (\<lambda>f. k = KFolder \<and> f_id f = oid) (folders d))))
       (goal_rewrites d r ViaParent)))"

definition goal_fuel :: "db \<Rightarrow> nat" where
  "goal_fuel d =
     Suc (Suc (length (role_grants d)) * Suc (length (assets d) + length (folders d)))"

definition authz_role_goals :: "db \<Rightarrow> uuid \<Rightarrow> object_kind \<Rightarrow> uuid \<Rightarrow> goal_row list" where
  "authz_role_goals d role k oid = cte_union (goal_fuel d) (goal_step d) [(role, k, oid)]"

text \<open>\<open>g.object_kind='asset' AND rb.scope_asset_id=g.object_id OR ...='folder' AND ...\<close>.\<close>

definition binding_on_goal :: "role_binding \<Rightarrow> goal_row \<Rightarrow> bool" where
  "binding_on_goal rb = (\<lambda>(r, k, oid). rb_role rb = r \<and>
     (k = KAsset \<and> sql_eq (rb_scope_asset rb) (Some oid) \<or>
      k = KFolder \<and> sql_eq (rb_scope_folder rb) (Some oid)))"

definition HoldsRoleStanding :: "db \<Rightarrow> uuid \<Rightarrow> uuid \<Rightarrow> object_kind \<Rightarrow> uuid \<Rightarrow> bool" where
  "HoldsRoleStanding d user role k oid =
     list_ex (\<lambda>g. list_ex (\<lambda>rb. binding_on_goal rb g \<and> binding_subject_is d user rb \<and>
         authz_user_is_active d user) (role_bindings d))
       (authz_role_goals d role k oid)"

definition HoldsRole :: "db \<Rightarrow> time \<Rightarrow> uuid \<Rightarrow> uuid \<Rightarrow> object_kind \<Rightarrow> uuid \<Rightarrow> bool" where
  "HoldsRole d now user role k oid =
     (HoldsRoleStanding d user role k oid \<or>
      list_ex (\<lambda>(r, gk, goid). list_ex (\<lambda>ag. ag_role ag = r \<and> gk = KAsset \<and> ag_asset ag = goid \<and>
          ag_subject ag = user \<and> authz_user_is_active d user) (active_access_grants d now))
        (authz_role_goals d role k oid))"

section \<open>What it means to hold a role\<close>

text \<open>
  The specification behind the queries: a role comes from a binding of an active user (or of a
  group of theirs), from an active grant, or from a rewrite rule along the same object or from
  the containing folder.
\<close>

inductive holds_spec :: "db \<Rightarrow> time \<Rightarrow> uuid \<Rightarrow> uuid \<Rightarrow> object_kind \<Rightarrow> uuid \<Rightarrow> bool"
  for d :: db and now :: time and u :: uuid where
  bound: "rb \<in> set (role_bindings d) \<Longrightarrow> binding_subject_is d u rb \<Longrightarrow> authz_user_is_active d u \<Longrightarrow>
    binding_on_goal rb (rb_role rb, k, oid) \<Longrightarrow> holds_spec d now u (rb_role rb) k oid"
| granted: "g \<in> set (access_grants d) \<Longrightarrow> ag_revoked_at g = None \<Longrightarrow> now < ag_expires_at g \<Longrightarrow>
    ag_subject g = u \<Longrightarrow> authz_user_is_active d u \<Longrightarrow> holds_spec d now u (ag_role g) KAsset (ag_asset g)"
| same_object: "holds_spec d now u (rg_source rg) k oid \<Longrightarrow> rg \<in> set (role_grants d) \<Longrightarrow>
    rg_via rg = ViaSameObject \<Longrightarrow> holds_spec d now u (rg_role rg) k oid"
| parent_folder: "holds_spec d now u (rg_source rg) KFolder p \<Longrightarrow> rg \<in> set (role_grants d) \<Longrightarrow>
    rg_via rg = ViaParent \<Longrightarrow> f \<in> set (folders d) \<Longrightarrow> f_parent f = Some p \<Longrightarrow>
    holds_spec d now u (rg_role rg) KFolder (f_id f)"
| parent_asset: "holds_spec d now u (rg_source rg) KFolder (a_folder a) \<Longrightarrow> rg \<in> set (role_grants d) \<Longrightarrow>
    rg_via rg = ViaParent \<Longrightarrow> a \<in> set (assets d) \<Longrightarrow> holds_spec d now u (rg_role rg) KAsset (a_id a)"

section \<open>The fuel is enough\<close>

lemma card_image_list_le: "card (f ` set xs) \<le> length xs"
  by (metis card_image_le card_length finite_set le_trans)

lemma card_list_le: "card (set xs) \<le> length xs"
  by (rule card_length)

lemma user_groups_reach:
  "set (authz_user_groups d u) = {g. cte_reach (user_groups_step d) (user_groups_base d u) g}"
  unfolding authz_user_groups_def
proof (rule cte_union_correct)
  let ?U = "gm_group ` set (group_memberships d)"
  show "finite ?U" by simp
  show "card ?U < Suc (length (group_memberships d))"
    using card_image_list_le [of gm_group "group_memberships d"] by simp
qed (auto simp: user_groups_base_def user_groups_step_def)

lemma global_held_reach:
  "set (authz_global_held d u) = {r. cte_reach (global_held_step d) (global_held_base d u) r}"
  unfolding authz_global_held_def
proof (rule cte_union_correct)
  let ?U = "rb_role ` set (role_bindings d) \<union> rg_role ` set (role_grants d)"
  show "finite ?U" by simp
  have "card ?U \<le> card (rb_role ` set (role_bindings d)) + card (rg_role ` set (role_grants d))"
    by (rule card_Un_le)
  then show "card ?U < Suc (length (role_bindings d) + length (role_grants d))"
    using card_image_list_le [of rb_role "role_bindings d"]
      card_image_list_le [of rg_role "role_grants d"] by linarith
qed (auto simp: global_held_base_def global_held_step_def)

lemma card_product_bound:
  assumes "card A \<le> m" and "card B \<le> n"
  shows "card (A \<times> B) < Suc (m * n)"
  using mult_le_mono [OF assms] by (simp add: card_cartesian_product)

lemma held_step_iff [sql_simps]:
  "(r', k', oid') \<in> set (held_step d (r, k, oid)) \<longleftrightarrow>
   (\<exists>rg \<in> set (role_grants d). rg_source rg = r \<and> rg_role rg = r' \<and>
     (rg_via rg = ViaSameObject \<and> k' = k \<and> oid' = oid \<or>
      rg_via rg = ViaParent \<and> k = KFolder \<and>
        ((\<exists>cf \<in> set (folders d). k' = KFolder \<and> oid' = Some (f_id cf) \<and> sql_eq (f_parent cf) oid) \<or>
         (\<exists>ca \<in> set (assets d). k' = KAsset \<and> oid' = Some (a_id ca) \<and> oid = Some (a_folder ca)))))"
  by (auto simp: held_step_def rewrite_rules_def sql_eq_iff)

lemma set_case_option: "set (case x of None \<Rightarrow> [] | Some p \<Rightarrow> [f p]) = {y. \<exists>p. x = Some p \<and> y = f p}"
  by (cases x) auto

lemma goal_step_iff [sql_simps]:
  "(r', k', oid') \<in> set (goal_step d (r, k, oid)) \<longleftrightarrow>
   (\<exists>rg \<in> set (role_grants d). rg_role rg = r \<and> rg_source rg = r' \<and>
     (rg_via rg = ViaSameObject \<and> k' = k \<and> oid' = oid \<or>
      rg_via rg = ViaParent \<and> k' = KFolder \<and>
        ((\<exists>a \<in> set (assets d). k = KAsset \<and> a_id a = oid \<and> a_folder a = oid') \<or>
         (\<exists>f \<in> set (folders d). k = KFolder \<and> f_id f = oid \<and> f_parent f = Some oid'))))"
  by (auto simp: goal_step_def goal_rewrites_def set_case_option; blast)

lemma held_reach [sql_simps]:
  "set (authz_held_impl d now u b) = {x. cte_reach (held_step d) (held_base d now u b) x}"
  unfolding authz_held_impl_def held_fuel_def
proof (rule cte_union_correct)
  let ?base = "held_base d now u b"
  let ?R = "fst ` set ?base \<union> rg_role ` set (role_grants d)"
  let ?O = "(snd ` set ?base \<union> (\<lambda>f. (KFolder, Some (f_id f))) ` set (folders d)) \<union>
      (\<lambda>a. (KAsset, Some (a_id a))) ` set (assets d)"
  let ?U = "?R \<times> ?O"
  show "finite ?U" by simp
  show "card ?U < Suc ((length ?base + length (role_grants d)) *
      (length ?base + length (folders d) + length (assets d)))"
    by (intro card_product_bound order_trans [OF card_Un_le] add_mono card_image_list_le)
  show "set ?base \<subseteq> ?U"
  proof
    fix x assume "x \<in> set ?base"
    then have "fst x \<in> ?R" and "snd x \<in> ?O" by blast+
    then show "x \<in> ?U" by (cases x) simp
  qed
  fix x y assume x: "x \<in> ?U" and y: "y \<in> set (held_step d x)"
  obtain r k i where xe: "x = (r, k, i)" by (cases x)
  obtain r' k' i' where ye: "y = (r', k', i')" by (cases y)
  from y obtain rg where rg: "rg \<in> set (role_grants d)" "rg_role rg = r'"
    and ob: "(k', i') = (k, i) \<or> (\<exists>cf \<in> set (folders d). (k', i') = (KFolder, Some (f_id cf))) \<or>
      (\<exists>ca \<in> set (assets d). (k', i') = (KAsset, Some (a_id ca)))"
    unfolding xe ye held_step_iff by blast
  have "r' \<in> ?R" using rg by blast
  moreover have "(k', i') \<in> ?O" using ob x unfolding xe by blast
  ultimately show "y \<in> ?U" unfolding ye by blast
qed

text \<open>The goals that can occur, and that there are fewer of them than the fuel.\<close>

definition goal_universe :: "db \<Rightarrow> goal_row \<Rightarrow> goal_row set" where
  "goal_universe d = (\<lambda>(r, k, oid). insert r (rg_source ` set (role_grants d)) \<times>
     insert (k, oid) ((\<lambda>a. (KFolder, a_folder a)) ` set (assets d) \<union>
       (\<lambda>f. (KFolder, the (f_parent f))) ` set (folders d)))"

lemma goal_universe_base: "g \<in> goal_universe d g"
  by (cases g) (simp add: goal_universe_def)

lemma goal_universe_finite: "finite (goal_universe d g)"
  by (cases g) (simp add: goal_universe_def)

lemma goal_universe_card: "card (goal_universe d g) < goal_fuel d"
proof -
  obtain r k oid where g: "g = (r, k, oid)" by (cases g)
  let ?O = "(\<lambda>a. (KFolder, a_folder a)) ` set (assets d) \<union> (\<lambda>f. (KFolder, the (f_parent f))) ` set (folders d)"
  have "card ?O \<le> length (assets d) + length (folders d)"
    by (intro order_trans [OF card_Un_le] add_mono card_image_list_le)
  then show ?thesis
    unfolding g goal_universe_def goal_fuel_def prod.case
    using card_image_list_le [of rg_source "role_grants d"]
    by (intro card_product_bound) (auto intro!: order_trans [OF card_insert_le_m1] simp: card_insert_if)
qed

lemma goal_universe_closed:
  assumes "x \<in> goal_universe d g" and "y \<in> set (goal_step d x)"
  shows "y \<in> goal_universe d g"
proof -
  obtain r k oid where g: "g = (r, k, oid)" by (cases g)
  obtain r1 k1 i1 where xe: "x = (r1, k1, i1)" by (cases x)
  obtain r' k' i' where ye: "y = (r', k', i')" by (cases y)
  from assms(2) obtain rg where rg: "rg \<in> set (role_grants d)" "rg_source rg = r'"
    and ob: "(k', i') = (k1, i1) \<or> (\<exists>a \<in> set (assets d). (k', i') = (KFolder, a_folder a)) \<or>
      (\<exists>f \<in> set (folders d). (k', i') = (KFolder, the (f_parent f)))"
    unfolding xe ye goal_step_iff by (metis option.sel)
  then show ?thesis using assms(1) unfolding g xe ye goal_universe_def by blast
qed

lemma goals_reach [sql_simps]:
  "set (authz_role_goals d r k oid) = {g. cte_reach (goal_step d) [(r, k, oid)] g}"
  unfolding authz_role_goals_def
  by (rule cte_union_correct [OF goal_universe_finite _ goal_universe_closed goal_universe_card,
        where g1 = "(r, k, oid)"]) (simp add: goal_universe_base)

section \<open>Forward and backward agree\<close>

lemma goal_step_held_step:
  "(r', k', oid') \<in> set (goal_step d (r, k, oid)) \<longleftrightarrow>
   (r, k, Some oid) \<in> set (held_step d (r', k', Some oid'))"
  unfolding goal_step_iff held_step_iff by (auto 0 3)

lemma held_step_Some_from_Some:
  "(r, k, Some oid) \<in> set (held_step d (r', k', i)) \<Longrightarrow> \<exists>oid'. i = Some oid'"
  unfolding held_step_iff by (auto simp: sql_eq_iff)

lemma goal_reach_forward:
  assumes "cte_reach (goal_step d) [(r, k, oid)] g" and "g = (r0, k0, o0)"
    and "cte_reach (held_step d) base (r0, k0, Some o0)"
  shows "cte_reach (held_step d) base (r, k, Some oid)"
  using assms
proof (induction arbitrary: r0 k0 o0 rule: cte_reach.induct)
  case (step x y)
  obtain r1 k1 o1 where x: "x = (r1, k1, o1)" by (cases x)
  from step.hyps(2) have "(r1, k1, Some o1) \<in> set (held_step d (r0, k0, Some o0))"
    by (simp add: x step.prems(1) goal_step_held_step)
  from cte_reach.step [OF step.prems(2) this] show ?case
    by (rule step.IH [OF x])
qed simp

lemma goal_reach_Cons:
  assumes "cte_reach st [y] g" and "y \<in> set (st x)"
  shows "cte_reach st [x] g"
  using assms
proof (induction rule: cte_reach.induct)
  case (base z)
  have "cte_reach st [x] x" by (rule cte_reach.base) simp
  from cte_reach.step [OF this] base show ?case by simp
qed (blast intro: cte_reach.step)

lemma held_reach_backward:
  assumes "cte_reach (held_step d) base x" and "x = (r, k, Some oid)"
  shows "\<exists>r0 k0 o0. cte_reach (goal_step d) [(r, k, oid)] (r0, k0, o0) \<and> (r0, k0, Some o0) \<in> set base"
  using assms
proof (induction arbitrary: r k oid rule: cte_reach.induct)
  case (base x)
  then show ?case by (auto intro!: exI cte_reach.base)
next
  case (step x y)
  obtain r' k' i where x: "x = (r', k', i)" by (cases x)
  with step obtain oid' where i: "i = Some oid'"
    using held_step_Some_from_Some by metis
  from step.hyps(2) have "(r', k', oid') \<in> set (goal_step d (r, k, oid))"
    by (simp add: x i step.prems goal_step_held_step)
  moreover from step.IH [of r' k' oid'] obtain r0 k0 o0
    where "cte_reach (goal_step d) [(r', k', oid')] (r0, k0, o0)" "(r0, k0, Some o0) \<in> set base"
    by (auto simp: x i)
  ultimately show ?case
    using goal_reach_Cons by metis
qed

text \<open>The two closures relate the same objects.\<close>

lemma held_iff_goal:
  "(r, k, Some oid) \<in> set (authz_held_impl d now u b) \<longleftrightarrow>
   (\<exists>r0 k0 o0. (r0, k0, o0) \<in> set (authz_role_goals d r k oid) \<and>
      (r0, k0, Some o0) \<in> set (held_base d now u b))"
  unfolding held_reach goals_reach mem_Collect_eq
  using held_reach_backward goal_reach_forward cte_reach.base by metis

lemma binding_row_on_goal:
  "binding_check rb \<Longrightarrow> binding_row rb = (r, k, Some oid) \<longleftrightarrow> binding_on_goal rb (r, k, oid)"
  by (auto simp: binding_row_def binding_on_goal_def binding_check_def split: option.splits)

lemma held_base_standing:
  assumes "schema_checks d"
  shows "(r, k, Some oid) \<in> set (held_base d now u False) \<longleftrightarrow>
    (\<exists>rb \<in> set (role_bindings d). binding_on_goal rb (r, k, oid) \<and> binding_subject_is d u rb \<and>
       authz_user_is_active d u)"
proof -
  have "binding_row rb = (r, k, Some oid) \<longleftrightarrow> binding_on_goal rb (r, k, oid)"
    if "rb \<in> set (role_bindings d)" for rb
    using assms that binding_row_on_goal by (auto simp: schema_checks_def list_all_iff)
  then show ?thesis
    by (auto simp: held_base_def image_iff) (metis (no_types))+
qed

lemma held_base_True:
  "x \<in> set (held_base d now u True) \<longleftrightarrow> x \<in> set (held_base d now u False) \<or>
    (\<exists>g \<in> set (active_access_grants d now). x = (ag_role g, KAsset, Some (ag_asset g)) \<and>
       ag_subject g = u \<and> authz_user_is_active d u)"
  by (auto simp: held_base_def)

lemma HoldsRoleStanding_held:
  assumes "schema_checks d"
  shows "HoldsRoleStanding d u role k oid \<longleftrightarrow>
    (role, k, Some oid) \<in> set (authz_held_standing d now u)"
  unfolding authz_held_standing_def held_iff_goal held_base_standing [OF assms]
  by (auto simp: HoldsRoleStanding_def list_ex_iff)

lemma HoldsRole_held:
  assumes "schema_checks d"
  shows "HoldsRole d now u role k oid \<longleftrightarrow> (role, k, Some oid) \<in> set (authz_held d now u)"
  unfolding authz_held_def held_iff_goal held_base_True held_base_standing [OF assms]
  by (auto simp: HoldsRole_def HoldsRoleStanding_def list_ex_iff; blast)

text \<open>
  What the resolver promises its clients: a standing role is a held role, and only an active
  user holds anything.
\<close>

locale role_oracle =
  fixes holds :: "uuid \<Rightarrow> uuid \<Rightarrow> object_kind \<Rightarrow> uuid \<Rightarrow> bool"
    and standing :: "uuid \<Rightarrow> uuid \<Rightarrow> object_kind \<Rightarrow> uuid \<Rightarrow> bool"
    and active :: "uuid \<Rightarrow> bool"
  assumes standing_holds: "standing u r k oid \<Longrightarrow> holds u r k oid"
    and holds_active: "holds u r k oid \<Longrightarrow> active u"
begin

lemma standing_active: "standing u r k oid \<Longrightarrow> active u"
  using standing_holds holds_active by blast

lemma inactive_no_standing: "\<not> active u \<Longrightarrow> \<not> standing u r k oid"
  using standing_active by blast

end

interpretation resolver: role_oracle "HoldsRole d now" "HoldsRoleStanding d" "authz_user_is_active d" for d now
  by unfold_locales (auto simp: HoldsRole_def HoldsRoleStanding_def list_ex_iff)

lemma cte_reach_mono:
  "cte_reach st base x \<Longrightarrow> set base \<subseteq> set base' \<Longrightarrow> cte_reach st base' x"
  by (induction rule: cte_reach.induct) (auto intro: cte_reach.intros)

lemma standing_subset_held: "set (authz_held_standing d now u) \<subseteq> set (authz_held d now u)"
proof
  fix x assume "x \<in> set (authz_held_standing d now u)"
  then have "cte_reach (held_step d) (held_base d now u False) x"
    by (simp add: authz_held_standing_def held_reach)
  moreover have "set (held_base d now u False) \<subseteq> set (held_base d now u True)"
    by (simp add: subset_iff held_base_True)
  ultimately have "cte_reach (held_step d) (held_base d now u True) x"
    by (rule cte_reach_mono)
  then show "x \<in> set (authz_held d now u)"
    by (simp add: authz_held_def held_reach)
qed

lemma cte_reach_Nil: "\<not> cte_reach st [] x"
proof
  assume "cte_reach st [] x"
  then show False by (induction rule: cte_reach.induct) auto
qed

lemma held_base_inactive: "\<not> authz_user_is_active d u \<Longrightarrow> held_base d now u b = []"
  by (simp add: held_base_def)

lemma inactive_holds_nothing:
  "\<not> authz_user_is_active d u \<Longrightarrow> set (authz_held_impl d now u b) = {}"
  by (simp add: held_reach held_base_inactive cte_reach_Nil)

lemma inactive_globally_nothing:
  "\<not> authz_user_is_active d u \<Longrightarrow> set (authz_global_held d u) = {}"
  by (simp add: global_held_reach global_held_base_def cte_reach_Nil)

section \<open>The closure implements the specification\<close>

lemma held_base_True_Some:
  assumes "schema_checks d"
  shows "(r, k, Some oid) \<in> set (held_base d now u True) \<Longrightarrow> holds_spec d now u r k oid"
  unfolding held_base_True held_base_standing [OF assms]
proof (elim disjE bexE conjE)
  fix rb assume "rb \<in> set (role_bindings d)" "binding_on_goal rb (r, k, oid)"
    "binding_subject_is d u rb" "authz_user_is_active d u"
  then show "holds_spec d now u r k oid"
    using holds_spec.bound [of rb d u k oid now] by (simp add: binding_on_goal_def)
next
  fix g assume "g \<in> set (active_access_grants d now)"
    "(r, k, Some oid) = (ag_role g, KAsset, Some (ag_asset g))" "ag_subject g = u"
    "authz_user_is_active d u"
  then show "holds_spec d now u r k oid"
    using holds_spec.granted [of g d now u] by (simp add: active_access_grants_def)
qed

lemma held_spec_sound:
  assumes "schema_checks d" and "cte_reach (held_step d) (held_base d now u True) x"
    and "x = (r, k, Some oid)"
  shows "holds_spec d now u r k oid"
  using assms(2,3)
proof (induction arbitrary: r k oid rule: cte_reach.induct)
  case (base x)
  then show ?case using held_base_True_Some [OF assms(1)] by simp
next
  case (step x y)
  obtain r' k' i where x: "x = (r', k', i)" by (cases x)
  with step obtain oid' where i: "i = Some oid'"
    using held_step_Some_from_Some by metis
  have IH: "holds_spec d now u r' k' oid'"
    by (rule step.IH) (simp add: x i)
  from step.hyps(2) show ?case
    unfolding x i step.prems held_step_iff
    using IH by (auto intro: holds_spec.intros)
qed

lemma held_closed:
  "x \<in> set (authz_held d now u) \<Longrightarrow> y \<in> set (held_step d x) \<Longrightarrow> y \<in> set (authz_held d now u)"
  unfolding authz_held_def held_reach mem_Collect_eq by (rule cte_reach.step)

lemma held_spec_complete:
  assumes "schema_checks d" and "holds_spec d now u r k oid"
  shows "(r, k, Some oid) \<in> set (authz_held d now u)"
  using assms(2)
proof (induction rule: holds_spec.induct)
  case (bound rb k oid)
  then have "(rb_role rb, k, Some oid) \<in> set (held_base d now u True)"
    unfolding held_base_True held_base_standing [OF assms(1)] by blast
  then show ?case
    by (simp add: authz_held_def held_reach cte_reach.base)
next
  case (granted g)
  then have "(ag_role g, KAsset, Some (ag_asset g)) \<in> set (held_base d now u True)"
    unfolding held_base_True by (auto simp: active_access_grants_def)
  then show ?case
    by (simp add: authz_held_def held_reach cte_reach.base)
next
  case (same_object rg k oid)
  show ?case
    by (rule held_closed [OF same_object.IH]) (use same_object.hyps in \<open>auto simp: held_step_iff\<close>)
next
  case (parent_folder rg p f)
  show ?case
    by (rule held_closed [OF parent_folder.IH])
      (unfold held_step_iff, use parent_folder.hyps in \<open>intro bexI [of _ rg]; auto\<close>)
next
  case (parent_asset rg a)
  show ?case
    by (rule held_closed [OF parent_asset.IH])
      (unfold held_step_iff, use parent_asset.hyps in \<open>intro bexI [of _ rg]; auto\<close>)
qed

lemma held_reach_mono:
  "set (held_base d now u b) \<subseteq> set (held_base d now' u b') \<Longrightarrow>
     set (authz_held_impl d now u b) \<subseteq> set (authz_held_impl d now' u b')"
  unfolding held_reach by (auto intro: cte_reach_mono)

lemma held_base_time:
  "now \<le> now' \<Longrightarrow> set (held_base d now' u True) \<subseteq> set (held_base d now u True)"
  by (auto simp: held_base_def active_access_grants_def)

lemma held_base_no_grant:
  "\<forall>g \<in> set (active_access_grants d now). ag_subject g \<noteq> u \<Longrightarrow>
     set (held_base d now u True) = set (held_base d now u False)"
  by (auto simp: held_base_def)

section \<open>Properties\<close>

text \<open>
  C1: goal expansion decides role holding. \<open>HoldsRole\<close>, which expands goals backwards from the
  object in question, is true exactly when the specification derives the role: there is a chain
  of rewrite rules from a binding of the (active) user or of one of the user's groups, or from an
  unexpired and unrevoked grant, to the role on the object.
\<close>

theorem HoldsRole_decides_spec:
  assumes "schema_checks d"
  shows "HoldsRole d now u role k oid \<longleftrightarrow> holds_spec d now u role k oid"
proof -
  have "(role, k, Some oid) \<in> set (authz_held d now u) \<longleftrightarrow> holds_spec d now u role k oid"
    using held_spec_sound [OF assms] held_spec_complete [OF assms]
    by (auto simp: authz_held_def held_reach)
  then show ?thesis by (simp add: HoldsRole_held [OF assms])
qed

theorem HoldsRole_decides_spec_witness:
  "holds_spec sample_db 0 2 32 KAsset 20 \<and> \<not> holds_spec sample_db 0 3 32 KAsset 20"
proof -
  have "schema_checks sample_db" by code_simp
  note iff = HoldsRole_decides_spec [OF this, symmetric]
  show ?thesis unfolding iff by code_simp
qed

text \<open>
  C2: the two directions agree. The backward query behind \<open>HoldsRole\<close> and the forward closure
  \<open>authz_held\<close>, which every capability question uses, give the same answer for every user, role and
  object, and so do \<open>HoldsRoleStanding\<close> and \<open>authz_held_standing\<close>.
\<close>

theorem backward_forward_agree:
  assumes "schema_checks d"
  shows "(HoldsRole d now u role k oid \<longleftrightarrow> (role, k, Some oid) \<in> set (authz_held d now u)) \<and>
    (HoldsRoleStanding d u role k oid \<longleftrightarrow> (role, k, Some oid) \<in> set (authz_held_standing d now u))"
  using HoldsRole_held [OF assms] HoldsRoleStanding_held [OF assms] by blast

theorem backward_forward_agree_witness:
  "(32, KAsset, Some 20) \<in> set (authz_held sample_db 0 4) \<and>
   (32, KAsset, Some 20) \<in> set (authz_held_standing sample_db 0 4)"
proof -
  have "schema_checks sample_db" by code_simp
  note agree = backward_forward_agree [OF this, of 0 4 32 KAsset 20]
  have "HoldsRole sample_db 0 4 32 KAsset 20 \<and> HoldsRoleStanding sample_db 4 32 KAsset 20"
    by code_simp
  with agree show ?thesis by blast
qed

text \<open>
  C3: a grant adds roles only while it is active. As time passes from \<open>now\<close> to \<open>now'\<close> the closure
  of a user only shrinks, it never falls below the standing closure, and once no grant of the
  user is active it is the standing closure.
\<close>

theorem grants_add_until_expiry:
  assumes "now \<le> now'"
  shows "set (authz_held d now' u) \<subseteq> set (authz_held d now u) \<and>
    set (authz_held_standing d now u) \<subseteq> set (authz_held d now' u) \<and>
    ((\<forall>g \<in> set (active_access_grants d now'). ag_subject g \<noteq> u) \<longrightarrow>
       set (authz_held d now' u) = set (authz_held_standing d now u))"
proof (intro conjI impI)
  show "set (authz_held d now' u) \<subseteq> set (authz_held d now u)"
    unfolding authz_held_def by (intro held_reach_mono held_base_time assms)
  have st: "set (held_base d now u False) = set (held_base d now' u False)"
    by (simp add: held_base_def)
  then show sub: "set (authz_held_standing d now u) \<subseteq> set (authz_held d now' u)"
    unfolding authz_held_standing_def authz_held_def
    by (intro held_reach_mono) (auto simp: held_base_True)
  assume "\<forall>g \<in> set (active_access_grants d now'). ag_subject g \<noteq> u"
  then have "set (authz_held d now' u) \<subseteq> set (authz_held_standing d now u)"
    unfolding authz_held_standing_def authz_held_def
    by (intro held_reach_mono) (simp add: held_base_no_grant st)
  with sub show "set (authz_held d now' u) = set (authz_held_standing d now u)" by simp
qed

theorem grants_add_until_expiry_witness:
  "(30, KAsset, Some 20) \<in> set (authz_held (sample_db\<lparr>access_grants := [sample_grant]\<rparr>) 50 1) \<and>
   set (authz_held (sample_db\<lparr>access_grants := [sample_grant]\<rparr>) 100 1) =
     set (authz_held_standing (sample_db\<lparr>access_grants := [sample_grant]\<rparr>) 50 1)"
proof
  let ?d = "sample_db\<lparr>access_grants := [sample_grant]\<rparr>"
  show "(30, KAsset, Some 20) \<in> set (authz_held ?d 50 1)" by code_simp
  have "\<forall>g \<in> set (active_access_grants ?d 100). ag_subject g \<noteq> 1" by code_simp
  then show "set (authz_held ?d 100 1) = set (authz_held_standing ?d 50 1)"
    using grants_add_until_expiry [of 50 100 ?d 1] by simp
qed

end
