(* ===== verification/Folders.thy ===== *)
theory Folders
  imports Schema "HOL-Library.Sublist"
begin

text \<open>
  The folder tree: the ltree column \<open>path_ids\<close> of \<open>folders\<close>, the two triggers that maintain it
  (\<open>folders_set_path_ids\<close> on insert, \<open>folders_move_path_ids\<close> on a change of \<open>parent_id\<close>), the ltree
  queries of \<open>warden/internal/authz/ltree.go\<close>, and \<open>folder_path\<close>.

  \<open>folders_wf\<close> is the invariant of the tree: ids are unique and every path is the path of the
  parent followed by the folder itself. It rules out cycles. The triggers keep it, provided a
  folder is not moved under its own subtree; this is the guard \<open>UpdateFolder\<close> has. Under it the
  ltree operators answer the same as a walk along \<open>parent_id\<close> (\<open>path_ancestors\<close>).
\<close>

section \<open>Lookups\<close>

definition GetFolder :: "db \<Rightarrow> uuid \<Rightarrow> folder_row option" where
  "GetFolder d fid = find (\<lambda>f. f_id f = fid) (folders d)"

text \<open>\<open>a @> b\<close> on ltree: \<open>a\<close> is an ancestor of \<open>b\<close> or equal. \<open>b <@ a\<close> is the same.\<close>

definition ltree_ancestor :: "uuid list \<Rightarrow> uuid list \<Rightarrow> bool" where
  "ltree_ancestor a b = prefix a b"

text \<open>A missing folder gives a NULL path, on which no ltree condition holds.\<close>

definition FolderPathIDs :: "db \<Rightarrow> uuid \<Rightarrow> uuid list option" where
  "FolderPathIDs d fid = map_option f_path_ids (GetFolder d fid)"

definition folderAncestorsAndSelf :: "db \<Rightarrow> uuid \<Rightarrow> uuid list" where
  "folderAncestorsAndSelf d fid = (case FolderPathIDs d fid of
     None \<Rightarrow> []
   | Some p \<Rightarrow> map f_id (filter (\<lambda>f. ltree_ancestor (f_path_ids f) p) (folders d)))"

definition folderSubtreeIDs :: "db \<Rightarrow> uuid list \<Rightarrow> uuid list" where
  "folderSubtreeIDs d roots =
     (if roots = [] then []
      else map f_id (filter (\<lambda>f. list_ex (\<lambda>r. f_id r \<in> set roots \<and>
             ltree_ancestor (f_path_ids r) (f_path_ids f)) (folders d)) (folders d)))"

text \<open>\<open>folder_path\<close>: the names from the folder up to the root, joined by dots.\<close>

definition chain_step :: "db \<Rightarrow> folder_row \<Rightarrow> folder_row list" where
  "chain_step d c = filter (\<lambda>f. sql_eq (Some (f_id f)) (f_parent c)) (folders d)"

definition folder_path :: "db \<Rightarrow> uuid option \<Rightarrow> string" where
  "folder_path d fid = go_join (CHR ''.'') (map f_name
     (cte_union_all (Suc (length (folders d))) (chain_step d)
       (filter (\<lambda>f. sql_eq (Some (f_id f)) fid) (folders d))))"

section \<open>Triggers\<close>

definition child_path :: "db \<Rightarrow> uuid option \<Rightarrow> uuid \<Rightarrow> uuid list option" where
  "child_path d parent fid = (case parent of
     None \<Rightarrow> Some [fid]
   | Some p \<Rightarrow> map_option (\<lambda>pp. pp @ [fid]) (FolderPathIDs d p))"

text \<open>
  The insert with its trigger. \<open>path_ids\<close> is NOT NULL and \<open>parent_id\<close> a foreign key, the id a
  primary key: an insert under a missing parent, of an id that exists, or of a folder that is
  its own parent is refused.
\<close>

definition insert_folder :: "db \<Rightarrow> uuid \<Rightarrow> string \<Rightarrow> uuid option \<Rightarrow> db option" where
  "insert_folder d fid name parent =
     (if parent = Some fid \<or> GetFolder d fid \<noteq> None then None
      else map_option (\<lambda>p. d\<lparr>folders := folders d @
             [\<lparr>f_id = fid, f_name = name, f_parent = parent, f_path_ids = p\<rparr>]\<rparr>)
           (child_path d parent fid))"

text \<open>The path rewrite of \<open>folders_move_path_ids\<close>: \<open>subpath\<close> drops the old prefix.\<close>

definition move_path :: "uuid list \<Rightarrow> uuid list \<Rightarrow> uuid list \<Rightarrow> uuid list" where
  "move_path old_path new_self p =
     (if ltree_ancestor old_path p then
        (if p = old_path then new_self else new_self @ drop (length old_path) p)
      else p)"

definition UpdateFolderParent :: "db \<Rightarrow> uuid \<Rightarrow> uuid option \<Rightarrow> db option" where
  "UpdateFolderParent d fid parent = (case GetFolder d fid of
     None \<Rightarrow> Some d
   | Some f \<Rightarrow>
       if parent = Some fid then None
       else if f_parent f = parent then Some d
       else map_option (\<lambda>new_self. d\<lparr>folders := map (\<lambda>g.
               g\<lparr>f_parent := (if f_id g = fid then parent else f_parent g),
                 f_path_ids := move_path (f_path_ids f) new_self (f_path_ids g)\<rparr>) (folders d)\<rparr>)
             (child_path d parent fid))"

section \<open>The tree invariant\<close>

definition folder_ok :: "db \<Rightarrow> folder_row \<Rightarrow> bool" where
  "folder_ok d f = (child_path d (f_parent f) (f_id f) = Some (f_path_ids f))"

definition folders_wf :: "db \<Rightarrow> bool" where
  "folders_wf d = (distinct (map f_id (folders d)) \<and> list_all (folder_ok d) (folders d))"

lemma GetFolder_iff:
  "folders_wf d \<Longrightarrow> GetFolder d fid = Some f \<longleftrightarrow> f \<in> set (folders d) \<and> f_id f = fid"
  unfolding GetFolder_def folders_wf_def by (simp add: find_Some_iff_distinct)

lemma GetFolder_None: "GetFolder d fid = None \<longleftrightarrow> fid \<notin> f_id ` set (folders d)"
  unfolding GetFolder_def by (auto simp: find_None_iff)

lemma FolderPathIDs_self:
  "folders_wf d \<Longrightarrow> f \<in> set (folders d) \<Longrightarrow> FolderPathIDs d (f_id f) = Some (f_path_ids f)"
  using GetFolder_iff [of d "f_id f" f] by (simp add: FolderPathIDs_def)

lemma folder_cases:
  assumes "folders_wf d" and "f \<in> set (folders d)"
  obtains (root) "f_parent f = None" "f_path_ids f = [f_id f]"
  | (child) g where "g \<in> set (folders d)" "f_parent f = Some (f_id g)"
      "f_path_ids f = f_path_ids g @ [f_id f]"
proof -
  from assms have "folder_ok d f"
    by (simp add: folders_wf_def list_all_iff)
  then show thesis
    using that GetFolder_iff [OF assms(1)]
    by (auto simp: folder_ok_def child_path_def FolderPathIDs_def split: option.splits)
qed

lemma path_not_Nil: "folders_wf d \<Longrightarrow> f \<in> set (folders d) \<Longrightarrow> f_path_ids f \<noteq> []"
  by (erule (1) folder_cases) auto

lemma last_path: "folders_wf d \<Longrightarrow> f \<in> set (folders d) \<Longrightarrow> last (f_path_ids f) = f_id f"
  by (erule (1) folder_cases) auto

text \<open>Every element of a path is the folder whose path ends there.\<close>

lemma path_prefix_folder:
  assumes "folders_wf d" and "f \<in> set (folders d)" and "prefix p (f_path_ids f)" and "p \<noteq> []"
  shows "\<exists>g \<in> set (folders d). f_path_ids g = p"
  using assms(2-)
proof (induction "length (f_path_ids f)" arbitrary: f rule: less_induct)
  case less
  show ?case
    using assms(1) less.prems(1)
  proof (cases rule: folder_cases)
    case root
    with less.prems show ?thesis
      by (metis append_Nil prefix_Nil prefix_snoc)
  next
    case (child g)
    then show ?thesis
      using less.hyps [of g] less.prems by (metis length_append_singleton lessI prefix_snoc)
  qed
qed

lemma folder_path_inj:
  assumes "folders_wf d" and "f \<in> set (folders d)" and "g \<in> set (folders d)"
    and "f_path_ids f = f_path_ids g"
  shows "f = g"
  using assms by (metis folders_wf_def distinct_key_eq last_path)

lemma path_element_folder:
  assumes "folders_wf d" and "f \<in> set (folders d)" and "i < length (f_path_ids f)"
  shows "\<exists>g \<in> set (folders d). f_id g = f_path_ids f ! i \<and> f_path_ids g = take (Suc i) (f_path_ids f)"
proof -
  have "take (Suc i) (f_path_ids f) \<noteq> []" using assms(3) by auto
  then obtain g where g: "g \<in> set (folders d)" "f_path_ids g = take (Suc i) (f_path_ids f)"
    using path_prefix_folder [OF assms(1,2) take_is_prefix] by blast
  then have "f_id g = last (take (Suc i) (f_path_ids f))"
    using last_path [OF assms(1)] by metis
  also have "\<dots> = f_path_ids f ! i"
    using assms(3) by (simp add: take_Suc_conv_app_nth)
  finally show ?thesis using g by blast
qed

lemma distinct_path:
  assumes "folders_wf d" and "f \<in> set (folders d)"
  shows "distinct (f_path_ids f)"
proof (rule ccontr)
  assume "\<not> distinct (f_path_ids f)"
  then obtain i j where ij: "i < length (f_path_ids f)" "j < length (f_path_ids f)" "i \<noteq> j"
    "f_path_ids f ! i = f_path_ids f ! j"
    by (auto simp: distinct_conv_nth)
  from path_element_folder [OF assms ij(1)] path_element_folder [OF assms ij(2)] ij(4)
  obtain g h where gh: "g \<in> set (folders d)" "h \<in> set (folders d)" "f_id g = f_id h"
    "f_path_ids g = take (Suc i) (f_path_ids f)" "f_path_ids h = take (Suc j) (f_path_ids f)"
    by metis
  then have "g = h"
    using assms(1) distinct_key_eq [of f_id "folders d"] by (simp add: folders_wf_def)
  with gh ij show False
    by (metis Suc_leI length_take min.absorb2 nat.inject)
qed

lemma path_ids_subset:
  assumes "folders_wf d" and "f \<in> set (folders d)"
  shows "set (f_path_ids f) \<subseteq> f_id ` set (folders d)"
proof
  fix x assume "x \<in> set (f_path_ids f)"
  then obtain i where "i < length (f_path_ids f)" "x = f_path_ids f ! i"
    by (auto simp: in_set_conv_nth)
  with path_element_folder [OF assms this(1)] show "x \<in> f_id ` set (folders d)"
    by (metis imageI)
qed

lemma length_path:
  assumes "folders_wf d" and "f \<in> set (folders d)"
  shows "length (f_path_ids f) \<le> length (folders d)"
proof -
  have "length (f_path_ids f) = card (set (f_path_ids f))"
    by (simp add: distinct_path [OF assms] distinct_card)
  also have "\<dots> \<le> card (f_id ` set (folders d))"
    by (intro card_mono path_ids_subset [OF assms]) simp
  also have "\<dots> \<le> length (folders d)"
    by (metis card_image_le card_length finite_set le_trans)
  finally show ?thesis .
qed

text \<open>The ancestors the ltree operator finds are the elements of the path.\<close>

lemma path_ancestors:
  assumes "folders_wf d" and "f \<in> set (folders d)"
  shows "set (folderAncestorsAndSelf d (f_id f)) = set (f_path_ids f)"
proof -
  have anc: "set (folderAncestorsAndSelf d (f_id f)) =
      f_id ` {g \<in> set (folders d). prefix (f_path_ids g) (f_path_ids f)}"
    by (simp add: folderAncestorsAndSelf_def FolderPathIDs_self [OF assms] ltree_ancestor_def)
  show ?thesis
    unfolding anc
  proof (intro equalityI subsetI)
    fix x assume "x \<in> f_id ` {g \<in> set (folders d). prefix (f_path_ids g) (f_path_ids f)}"
    then obtain g where g: "g \<in> set (folders d)" "x = f_id g" "prefix (f_path_ids g) (f_path_ids f)"
      by blast
    then have "x \<in> set (f_path_ids g)"
      using path_not_Nil [OF assms(1) g(1)] last_path [OF assms(1) g(1)] last_in_set by metis
    with g(3) show "x \<in> set (f_path_ids f)"
      by (auto simp: prefix_def)
  next
    fix x assume "x \<in> set (f_path_ids f)"
    then obtain i where i: "i < length (f_path_ids f)" "x = f_path_ids f ! i"
      by (auto simp: in_set_conv_nth)
    with path_element_folder [OF assms i(1)] obtain g
      where "g \<in> set (folders d)" "x = f_id g" "f_path_ids g = take (Suc i) (f_path_ids f)"
      by auto
    then show "x \<in> f_id ` {g \<in> set (folders d). prefix (f_path_ids g) (f_path_ids f)}"
      using take_is_prefix [of "Suc i" "f_path_ids f"] by auto
  qed
qed

section \<open>The triggers keep the invariant\<close>

lemma find_map_key:
  "(\<And>y. key (h y) = key y) \<Longrightarrow>
     find (\<lambda>x. key x = k) (map h xs) = map_option h (find (\<lambda>x. key x = k) xs)"
  by (induction xs) auto

lemma find_append:
  "find P (xs @ ys) = (case find P xs of None \<Rightarrow> find P ys | Some x \<Rightarrow> Some x)"
  by (induction xs) auto

lemma move_path_other: "\<not> prefix old p \<Longrightarrow> move_path old new_self p = p"
  by (simp add: move_path_def ltree_ancestor_def)

lemma move_path_self [simp]: "move_path old new_self old = new_self"
  by (simp add: move_path_def ltree_ancestor_def)

lemma move_path_snoc:
  assumes "old \<noteq> p @ [x]"
  shows "move_path old new_self (p @ [x]) = move_path old new_self p @ [x]"
proof (cases "prefix old p")
  case True
  then have "length old \<le> length p" by (rule prefix_length_le)
  with True assms show ?thesis
    by (auto simp: move_path_def ltree_ancestor_def)
next
  case False
  with assms have "\<not> prefix old (p @ [x])" by simp
  with False show ?thesis by (simp add: move_path_other)
qed

theorem insert_folder_wf:
  assumes "folders_wf d" and "insert_folder d fid name parent = Some d'"
  shows "folders_wf d'"
proof -
  from assms(2) obtain p where new: "fid \<notin> f_id ` set (folders d)" "parent \<noteq> Some fid"
    and p: "child_path d parent fid = Some p"
    and d': "d' = d\<lparr>folders := folders d @
      [\<lparr>f_id = fid, f_name = name, f_parent = parent, f_path_ids = p\<rparr>]\<rparr>"
    by (auto simp: insert_folder_def GetFolder_None [symmetric] split: if_splits)
  have get: "GetFolder d' x = GetFolder d x" if "x \<noteq> fid" for x
    using that by (simp add: d' GetFolder_def find_append split: option.split)
  have same: "child_path d' q x = child_path d q x" if "q \<noteq> Some fid" for q x
    using that get by (cases q) (auto simp: child_path_def FolderPathIDs_def)
  have "f_parent f \<noteq> Some fid" if "f \<in> set (folders d)" for f
    using assms(1) that new(1) by (cases rule: folder_cases) auto
  then have "folder_ok d' f" if "f \<in> set (folders d)" for f
    using that assms(1) by (simp add: folder_ok_def same folders_wf_def list_all_iff)
  moreover have "folder_ok d' \<lparr>f_id = fid, f_name = name, f_parent = parent, f_path_ids = p\<rparr>"
    using p new(2) by (simp add: folder_ok_def same)
  ultimately show ?thesis
    using assms(1) new(1) by (auto simp: folders_wf_def d' list_all_iff)
qed

lemma FolderPathIDs_moved:
  assumes "d' = d\<lparr>folders := map (\<lambda>g. g\<lparr>f_parent := par g, f_path_ids := mv (f_path_ids g)\<rparr>) (folders d)\<rparr>"
  shows "FolderPathIDs d' x = map_option mv (FolderPathIDs d x)"
  using find_map_key [of f_id "\<lambda>g. g\<lparr>f_parent := par g, f_path_ids := mv (f_path_ids g)\<rparr>" x "folders d"]
  by (simp add: assms FolderPathIDs_def GetFolder_def option.map_comp comp_def)

theorem UpdateFolderParent_wf:
  assumes "folders_wf d" and "UpdateFolderParent d fid parent = Some d'"
    and "\<And>p. parent = Some p \<Longrightarrow> p \<notin> set (folderSubtreeIDs d [fid])"
  shows "folders_wf d'"
proof (cases "GetFolder d fid = None \<or> map_option f_parent (GetFolder d fid) = Some parent")
  case True
  with assms(1,2) show ?thesis by (auto simp: UpdateFolderParent_def split: if_splits option.splits)
next
  case False
  then obtain f where f: "f \<in> set (folders d)" "f_id f = fid" "f_parent f \<noteq> parent"
    and getf: "GetFolder d fid = Some f"
    using GetFolder_iff [OF assms(1)] by auto
  let ?old = "f_path_ids f"
  from assms(2) f getf obtain new_self where new: "child_path d parent fid = Some new_self"
    and d': "d' = d\<lparr>folders := map (\<lambda>g. g\<lparr>f_parent := (if f_id g = fid then parent else f_parent g),
        f_path_ids := move_path ?old new_self (f_path_ids g)\<rparr>) (folders d)\<rparr>"
    by (auto simp: UpdateFolderParent_def split: if_splits)
  note paths = FolderPathIDs_moved [OF d']
  have sub: "\<not> prefix ?old (f_path_ids h)" if "parent = Some (f_id h)" "h \<in> set (folders d)" for h
    using assms(3) [OF that(1)] that(2) f(1,2)
    by (auto simp: folderSubtreeIDs_def ltree_ancestor_def list_ex_iff)
  have self: "child_path d' parent fid = Some new_self"
  proof (cases parent)
    case (Some p)
    with new obtain h where "h \<in> set (folders d)" "f_id h = p" "FolderPathIDs d p = Some (f_path_ids h)"
      using GetFolder_iff [OF assms(1)] by (auto simp: child_path_def FolderPathIDs_def)
    with Some sub [of h] new show ?thesis
      by (simp add: child_path_def paths move_path_other)
  qed (use new in \<open>simp add: child_path_def\<close>)
  have other: "child_path d' (f_parent g) (f_id g) = Some (move_path ?old new_self (f_path_ids g))"
    if g: "g \<in> set (folders d)" "f_id g \<noteq> fid" for g
    using assms(1) g(1)
  proof (cases rule: folder_cases)
    case root
    have "?old \<noteq> [f_id g]"
      using last_path [OF assms(1) f(1)] f(2) g(2) by auto
    then have "\<not> prefix ?old [f_id g]"
      using path_not_Nil [OF assms(1) f(1)] by (auto simp: prefix_Cons)
    with root show ?thesis by (simp add: child_path_def move_path_other)
  next
    case (child h)
    have "?old \<noteq> f_path_ids h @ [f_id g]"
      using last_path [OF assms(1) f(1)] f(2) g(2) by auto
    moreover have "FolderPathIDs d (f_id h) = Some (f_path_ids h)"
      using assms(1) child(1) by (rule FolderPathIDs_self)
    ultimately show ?thesis
      using child by (simp add: child_path_def paths move_path_snoc)
  qed
  have "f_path_ids g = ?old" if "g \<in> set (folders d)" "f_id g = fid" for g
    using that f(1,2) assms(1) distinct_key_eq [of f_id "folders d" g f] by (simp add: folders_wf_def)
  then have "list_all (folder_ok d') (folders d')"
    using self other by (auto simp: d' list_all_iff folder_ok_def)
  then show ?thesis
    using assms(1) by (simp add: folders_wf_def d' comp_def)
qed

end
