(* ===== verification/Approvals.thy ===== *)
theory Approvals
  imports Closure Folders
begin

text \<open>
  Request policies and who they admit: the SQL function \<open>authz_effective_request_policy\<close>, the
  resolver of \<open>warden/internal/approvals/resolver.go\<close> (\<open>EffectiveRule\<close>, \<open>IsApprover\<close>,
  \<open>IsEligibleRequester\<close>) and the set-based query behind \<open>requestableRoles\<close>
  (\<open>warden/internal/authz/requestable.go\<close>).

  The effective policy is the most specific one: a reference definition looks up the asset, then
  the folders from the asset's folder to the root, then the role default
  (\<open>effective_is_most_specific\<close>). The set-based query returns exactly the roles the per-role
  resolver admits and that are not held yet.
\<close>

section \<open>The effective policy\<close>

definition ancestors_base :: "db \<Rightarrow> uuid \<Rightarrow> (uuid \<times> nat) list" where
  "ancestors_base d asset = map (\<lambda>a. (a_folder a, 0)) (filter (\<lambda>a. a_id a = asset) (assets d))"

definition ancestors_step :: "db \<Rightarrow> uuid \<times> nat \<Rightarrow> (uuid \<times> nat) list" where
  "ancestors_step d = (\<lambda>(fid, depth). concat (map (\<lambda>f. case f_parent f of
       None \<Rightarrow> [] | Some p \<Rightarrow> [(p, depth + 1)]) (filter (\<lambda>f. f_id f = fid) (folders d))))"

definition ancestors :: "db \<Rightarrow> uuid \<Rightarrow> (uuid \<times> nat) list" where
  "ancestors d asset =
     cte_union_all (Suc (length (folders d))) (ancestors_step d) (ancestors_base d asset)"

definition candidates :: "db \<Rightarrow> uuid \<Rightarrow> uuid \<Rightarrow> (request_policy \<times> int) list" where
  "candidates d role asset =
     map (\<lambda>rp. (rp, 0))
       (filter (\<lambda>rp. rp_role rp = role \<and> sql_eq (rp_scope_asset rp) (Some asset)) (request_policies d)) @
     concat (map (\<lambda>rp. map (\<lambda>(fid, depth). (rp, int depth + 1))
         (filter (\<lambda>(fid, depth). sql_eq (rp_scope_folder rp) (Some fid)) (ancestors d asset)))
       (filter (\<lambda>rp. rp_role rp = role) (request_policies d))) @
     map (\<lambda>rp. (rp, 1000000))
       (filter (\<lambda>rp. rp_role rp = role \<and> rp_scope_folder rp = None \<and> rp_scope_asset rp = None)
         (request_policies d))"

text \<open>\<open>ORDER BY key ASC LIMIT 1\<close>; a tie goes to the earlier row.\<close>

fun order_limit1 :: "('a \<Rightarrow> int) \<Rightarrow> 'a list \<Rightarrow> 'a option" where
  "order_limit1 key [] = None"
| "order_limit1 key (x # xs) = (case order_limit1 key xs of
     None \<Rightarrow> Some x
   | Some y \<Rightarrow> if key x \<le> key y then Some x else Some y)"

definition authz_effective_request_policy :: "db \<Rightarrow> uuid \<Rightarrow> uuid \<Rightarrow> request_policy option" where
  "authz_effective_request_policy d role asset =
     map_option fst (order_limit1 snd (candidates d role asset))"

record Rule =
  rule_ID :: uuid
  rule_RequiredApprovals :: int
  rule_ApproverRoleID :: uuid
  rule_RequesterRoleID :: uuid
  rule_MaxDuration :: "pg_interval option"

definition policy_rule :: "request_policy \<Rightarrow> Rule" where
  "policy_rule rp = \<lparr>
     rule_ID = rp_id rp,
     rule_RequiredApprovals = rp_required_approvals rp,
     rule_ApproverRoleID = (case rp_approver_role rp of Some r \<Rightarrow> r | None \<Rightarrow> uuid_nil),
     rule_RequesterRoleID = (case rp_requester_role rp of Some r \<Rightarrow> r | None \<Rightarrow> uuid_nil),
     rule_MaxDuration = rp_max_duration rp\<rparr>"

definition EffectiveRule :: "db \<Rightarrow> uuid \<Rightarrow> uuid \<Rightarrow> Rule option" where
  "EffectiveRule d role asset = map_option policy_rule (authz_effective_request_policy d role asset)"

section \<open>Approvers and requesters\<close>

definition subject_matches :: "db \<Rightarrow> uuid \<Rightarrow> policy_subject \<Rightarrow> bool" where
  "subject_matches d user rps = (sql_eq (ps_user rps) (Some user) \<or>
     list_ex (\<lambda>g. sql_eq (ps_group rps) (Some g)) (authz_user_groups d user))"

definition SubjectExistsForKind :: "db \<Rightarrow> uuid \<Rightarrow> uuid \<Rightarrow> subject_kind \<Rightarrow> bool" where
  "SubjectExistsForKind d policy user kind =
     list_ex (\<lambda>rps. ps_policy rps = policy \<and> ps_kind rps = kind \<and>
        subject_matches d user rps \<and> authz_user_is_active d user) (policy_subjects d)"

definition IsApprover :: "db \<Rightarrow> uuid \<Rightarrow> uuid \<Rightarrow> uuid \<Rightarrow> bool" where
  "IsApprover d approver role asset = (case EffectiveRule d role asset of
     None \<Rightarrow> False
   | Some rule \<Rightarrow>
       if SubjectExistsForKind d (rule_ID rule) approver Approver then True
       else if rule_ApproverRoleID rule \<noteq> uuid_nil
         then HoldsRoleStanding d approver (rule_ApproverRoleID rule) KAsset asset
         else False)"

definition IsEligibleRequester :: "db \<Rightarrow> uuid \<Rightarrow> uuid \<Rightarrow> uuid \<Rightarrow> bool" where
  "IsEligibleRequester d requester role asset = (case EffectiveRule d role asset of
     None \<Rightarrow> False
   | Some rule \<Rightarrow>
       if SubjectExistsForKind d (rule_ID rule) requester Requester then True
       else if rule_RequesterRoleID rule \<noteq> uuid_nil
         then HoldsRoleStanding d requester (rule_RequesterRoleID rule) KAsset asset
         else False)"

section \<open>Requestable roles\<close>

definition held_on_asset :: "db \<Rightarrow> time \<Rightarrow> uuid \<Rightarrow> uuid \<Rightarrow> uuid list" where
  "held_on_asset d now user asset = map fst
     (filter (\<lambda>(r, k, oid). k = KAsset \<and> sql_eq oid (Some asset)) (authz_held d now user))"

definition held_standing_on_asset :: "db \<Rightarrow> time \<Rightarrow> uuid \<Rightarrow> uuid \<Rightarrow> uuid list" where
  "held_standing_on_asset d now user asset = map fst
     (filter (\<lambda>(r, k, oid). k = KAsset \<and> sql_eq oid (Some asset)) (authz_held_standing d now user))"

definition requestable_by :: "db \<Rightarrow> time \<Rightarrow> uuid \<Rightarrow> uuid \<Rightarrow> request_policy \<Rightarrow> bool" where
  "requestable_by d now user asset ep =
     ((case rp_requester_role ep of
         Some r \<Rightarrow> r \<in> set (held_standing_on_asset d now user asset)
       | None \<Rightarrow> False) \<or>
      list_ex (\<lambda>rps. ps_policy rps = rp_id ep \<and> ps_kind rps = Requester \<and>
        subject_matches d user rps \<and> authz_user_is_active d user) (policy_subjects d))"

definition RequestableRolesOnAsset :: "db \<Rightarrow> time \<Rightarrow> uuid \<Rightarrow> uuid \<Rightarrow> uuid list" where
  "RequestableRolesOnAsset d now user asset =
     filter (\<lambda>role. (case authz_effective_request_policy d role asset of
          None \<Rightarrow> False
        | Some ep \<Rightarrow> requestable_by d now user asset ep) \<and>
          role \<notin> set (held_on_asset d now user asset))
       (remdups (map rp_role (request_policies d)))"

text \<open>The query over all assets: \<open>visibleRequestable\<close>.\<close>

definition asset_ancestors_step :: "db \<Rightarrow> uuid \<times> uuid \<times> nat \<Rightarrow> (uuid \<times> uuid \<times> nat) list" where
  "asset_ancestors_step d = (\<lambda>(a, fid, depth). concat (map (\<lambda>f. case f_parent f of
       None \<Rightarrow> [] | Some p \<Rightarrow> [(a, p, depth + 1)]) (filter (\<lambda>f. f_id f = fid) (folders d))))"

definition asset_ancestors :: "db \<Rightarrow> (uuid \<times> uuid \<times> nat) list" where
  "asset_ancestors d = cte_union_all (Suc (length (folders d))) (asset_ancestors_step d)
     (map (\<lambda>a. (a_id a, a_folder a, 0)) (assets d))"

definition candidate_pairs :: "db \<Rightarrow> (uuid \<times> uuid) list" where
  "candidate_pairs d = remdups
     (concat (map (\<lambda>rp. case rp_scope_asset rp of None \<Rightarrow> [] | Some a \<Rightarrow> [(a, rp_role rp)])
        (request_policies d)) @
      concat (map (\<lambda>rp. map (\<lambda>(a, fid, depth). (a, rp_role rp))
        (filter (\<lambda>(a, fid, depth). sql_eq (rp_scope_folder rp) (Some fid)) (asset_ancestors d)))
        (request_policies d)) @
      concat (map (\<lambda>rp. map (\<lambda>a. (a_id a, rp_role rp)) (assets d))
        (filter (\<lambda>rp. rp_scope_folder rp = None \<and> rp_scope_asset rp = None) (request_policies d))))"

definition visibleRequestable :: "db \<Rightarrow> time \<Rightarrow> uuid \<Rightarrow> (uuid \<times> uuid) list" where
  "visibleRequestable d now user =
     filter (\<lambda>(asset, role). (case authz_effective_request_policy d role asset of
          None \<Rightarrow> False
        | Some ep \<Rightarrow> requestable_by d now user asset ep) \<and>
          role \<notin> set (held_on_asset d now user asset))
       (candidate_pairs d)"

section \<open>The walk to the root\<close>

lemma ancestors_step_self:
  "folders_wf d \<Longrightarrow> f \<in> set (folders d) \<Longrightarrow> ancestors_step d (f_id f, k) =
     (case f_parent f of None \<Rightarrow> [] | Some p \<Rightarrow> [(p, k + 1)])"
  by (simp add: ancestors_step_def folders_wf_def filter_key_distinct)

lemma ancestors_walk:
  assumes "folders_wf d" and "f \<in> set (folders d)" and "length (f_path_ids f) \<le> n"
  shows "cte_union_all n (ancestors_step d) [(f_id f, k)] =
    zip (rev (f_path_ids f)) [k..<k + length (f_path_ids f)]"
  using assms(2,3)
proof (induction n arbitrary: f k)
  case 0
  then show ?case using path_not_Nil [OF assms(1)] by auto
next
  case (Suc n)
  show ?case
    using assms(1) Suc.prems(1)
  proof (cases rule: folder_cases)
    case root
    then show ?thesis
      by (simp add: ancestors_step_self [OF assms(1) Suc.prems(1)])
  next
    case (child g)
    have "cte_union_all n (ancestors_step d) [(f_id g, Suc k)] =
        zip (rev (f_path_ids g)) [Suc k..<Suc k + length (f_path_ids g)]"
      using Suc.prems(2) child by (intro Suc.IH) auto
    moreover have "[k..<k + length (f_path_ids f)] = k # [Suc k..<Suc k + length (f_path_ids g)]"
      using child by (simp add: upt_conv_Cons del: upt_Suc)
    ultimately show ?thesis
      using child by (simp add: ancestors_step_self [OF assms(1) Suc.prems(1)] del: upt_Suc)
  qed
qed

lemma ancestors_path:
  assumes "folders_wf d" and "distinct (map a_id (assets d))" and "a \<in> set (assets d)"
    and "f \<in> set (folders d)" and "a_folder a = f_id f"
  shows "ancestors d (a_id a) = zip (rev (f_path_ids f)) [0..<length (f_path_ids f)]"
proof -
  have "ancestors_base d (a_id a) = [(f_id f, 0)]"
    by (simp add: ancestors_base_def filter_key_distinct [OF assms(2,3)] assms(5))
  then show ?thesis
    using ancestors_walk [OF assms(1,4), of "Suc (length (folders d))" 0]
      length_path [OF assms(1,4)]
    by (simp add: ancestors_def)
qed

section \<open>The most specific policy\<close>

text \<open>
  The reference: look at the asset, then at the folders from the asset's folder up, then at the
  role's default, and take the first policy there is.
\<close>

datatype policy_scope = OnAsset uuid | OnFolder uuid | RoleDefault

fun policy_has_scope :: "request_policy \<Rightarrow> policy_scope \<Rightarrow> bool" where
  "policy_has_scope rp (OnAsset a) = (rp_scope_asset rp = Some a)"
| "policy_has_scope rp (OnFolder f) = (rp_scope_folder rp = Some f)"
| "policy_has_scope rp RoleDefault = (rp_scope_folder rp = None \<and> rp_scope_asset rp = None)"

definition policy_for :: "db \<Rightarrow> uuid \<Rightarrow> policy_scope \<Rightarrow> request_policy option" where
  "policy_for d role sc = find (\<lambda>rp. rp_role rp = role \<and> policy_has_scope rp sc) (request_policies d)"

fun first_policy :: "db \<Rightarrow> uuid \<Rightarrow> policy_scope list \<Rightarrow> request_policy option" where
  "first_policy d role [] = None"
| "first_policy d role (sc # scs) = (case policy_for d role sc of
     Some rp \<Rightarrow> Some rp
   | None \<Rightarrow> first_policy d role scs)"

definition scope_chain :: "uuid \<Rightarrow> uuid list \<Rightarrow> policy_scope list" where
  "scope_chain asset path = OnAsset asset # map OnFolder (rev path) @ [RoleDefault]"

lemma policy_for_unique:
  assumes "schema_checks d" and "policies_unique d"
    and "rp \<in> set (request_policies d)" and "rp_role rp = role" and "policy_has_scope rp sc"
  shows "policy_for d role sc = Some rp"
proof -
  obtain rp' where find: "policy_for d role sc = Some rp'"
    using assms(3-5) by (fastforce simp: policy_for_def find_None_iff dest: not_None_eq [THEN iffD1])
  then have rp': "rp' \<in> set (request_policies d)" "rp_role rp' = role" "policy_has_scope rp' sc"
    by (auto simp: policy_for_def find_Some_iff)
  have "policy_check rp" "policy_check rp'"
    using assms(1,3) rp'(1) by (auto simp: schema_checks_def list_all_iff)
  then have "(rp_role rp, rp_scope_folder rp, rp_scope_asset rp) =
      (rp_role rp', rp_scope_folder rp', rp_scope_asset rp')"
    using assms(4,5) rp'(2,3) by (cases sc) (auto simp: policy_check_def)
  then have "rp = rp'"
    using assms(2,3) rp'(1) by (auto simp: policies_unique_def dest: distinct_key_eq)
  with find show ?thesis by simp
qed

lemma policy_for_SomeD:
  "policy_for d role sc = Some rp \<Longrightarrow>
     rp \<in> set (request_policies d) \<and> rp_role rp = role \<and> policy_has_scope rp sc"
  by (auto simp: policy_for_def find_Some_iff)

text \<open>The specificity of a candidate is the position of its scope in the chain, up to the default.\<close>

lemma candidates_iff:
  "(rp, s) \<in> set (candidates d role asset) \<longleftrightarrow>
     rp \<in> set (request_policies d) \<and> rp_role rp = role \<and>
     (s = 0 \<and> policy_has_scope rp (OnAsset asset) \<or>
      (\<exists>fid depth. (fid, depth) \<in> set (ancestors d asset) \<and> s = int depth + 1 \<and>
         policy_has_scope rp (OnFolder fid)) \<or>
      s = 1000000 \<and> policy_has_scope rp RoleDefault)"
  by (auto simp: candidates_def image_iff)

lemma order_limit1_least:
  "xs \<noteq> [] \<Longrightarrow> \<exists>z. order_limit1 key xs = Some z \<and> z \<in> set xs \<and> (\<forall>y \<in> set xs. key z \<le> key y)"
proof (induction xs)
  case (Cons x xs)
  show ?case
  proof (cases "xs = []")
    case False
    with Cons obtain z where "order_limit1 key xs = Some z" "z \<in> set xs" "\<forall>y \<in> set xs. key z \<le> key y"
      by blast
    then show ?thesis by (cases "key x \<le> key z") auto
  qed simp
qed simp

lemma order_limit1_min:
  assumes "x \<in> set xs" and "\<And>y. y \<in> set xs \<Longrightarrow> y \<noteq> x \<Longrightarrow> key x < key y"
  shows "order_limit1 key xs = Some x"
proof -
  have "xs \<noteq> []" using assms(1) by auto
  then obtain z where "z \<in> set xs" "order_limit1 key xs = Some z" "\<forall>y \<in> set xs. key z \<le> key y"
    using order_limit1_least [of xs key] by blast
  with assms show ?thesis by (metis linorder_not_less)
qed

lemma first_policy_cases:
  obtains (none) "first_policy d role scs = None" "\<forall>sc \<in> set scs. policy_for d role sc = None"
  | (found) i rp where "first_policy d role scs = Some rp" "i < length scs"
      "policy_for d role (scs ! i) = Some rp" "\<forall>j < i. policy_for d role (scs ! j) = None"
proof (induction scs arbitrary: thesis)
  case (Cons sc scs)
  show ?case
  proof (cases "policy_for d role sc")
    case None
    show ?thesis
    proof (rule Cons.IH)
      assume "first_policy d role scs = None" "\<forall>sc \<in> set scs. policy_for d role sc = None"
      with None Cons.prems(1) show thesis by simp
    next
      fix i rp
      assume i: "first_policy d role scs = Some rp" "i < length scs"
        "policy_for d role (scs ! i) = Some rp" "\<forall>j < i. policy_for d role (scs ! j) = None"
      then have "\<forall>j < Suc i. policy_for d role ((sc # scs) ! j) = None"
        using None by (auto simp: less_Suc_eq_0_disj)
      with i None Cons.prems(2) [of rp "Suc i"] show thesis by simp
    qed
  next
    case (Some rp)
    with Cons.prems(2) [of rp 0] show ?thesis by simp
  qed
qed auto

lemma chain_nth:
  assumes "i < length (scope_chain asset path)"
  shows "i = 0 \<and> scope_chain asset path ! i = OnAsset asset \<or>
    0 < i \<and> i \<le> length path \<and> scope_chain asset path ! i = OnFolder (rev path ! (i - 1)) \<or>
    i = Suc (length path) \<and> scope_chain asset path ! i = RoleDefault"
proof (cases i)
  case (Suc j)
  with assms show ?thesis
    by (cases "j < length path") (auto simp: scope_chain_def nth_append)
qed (simp add: scope_chain_def)

definition chain_spec :: "uuid list \<Rightarrow> nat \<Rightarrow> int" where
  "chain_spec path i = (if i \<le> length path then int i else 1000000)"

text \<open>A candidate is a policy at some position of the chain.\<close>

lemma candidate_chain:
  assumes "ancestors d asset = zip (rev path) [0..<length path]"
  shows "(rp, s) \<in> set (candidates d role asset) \<longleftrightarrow>
    rp \<in> set (request_policies d) \<and> rp_role rp = role \<and>
    (\<exists>i < length (scope_chain asset path). s = chain_spec path i \<and>
       policy_has_scope rp (scope_chain asset path ! i))" (is "_ \<longleftrightarrow> _ \<and> _ \<and> ?R")
proof -
  have anc: "(fid, k) \<in> set (ancestors d asset) \<longleftrightarrow> k < length path \<and> fid = rev path ! k" for fid k
    by (auto simp: assms set_zip)
  let ?S = "s = 0 \<and> policy_has_scope rp (OnAsset asset) \<or>
      (\<exists>fid depth. (fid, depth) \<in> set (ancestors d asset) \<and> s = int depth + 1 \<and>
         policy_has_scope rp (OnFolder fid)) \<or>
      s = 1000000 \<and> policy_has_scope rp RoleDefault"
  have len: "length (scope_chain asset path) = Suc (Suc (length path))"
    by (simp add: scope_chain_def)
  have "?S = ?R"
  proof
    assume ?S
    then consider (a) "s = 0" "policy_has_scope rp (OnAsset asset)"
      | (f) k where "k < length path" "s = int k + 1" "policy_has_scope rp (OnFolder (rev path ! k))"
      | (g) "s = 1000000" "policy_has_scope rp RoleDefault"
      unfolding anc by (elim disjE exE conjE) auto
    then show ?R
    proof cases
      case a
      then show ?thesis by (intro exI [of _ 0]) (simp add: chain_spec_def scope_chain_def)
    next
      case f
      then show ?thesis
        by (intro exI [of _ "Suc k"]) (simp add: chain_spec_def scope_chain_def nth_append)
    next
      case g
      then show ?thesis
        by (intro exI [of _ "Suc (length path)"]) (simp add: chain_spec_def scope_chain_def nth_append)
    qed
  next
    assume ?R
    then obtain i where i: "i < length (scope_chain asset path)" "s = chain_spec path i"
      "policy_has_scope rp (scope_chain asset path ! i)" by blast
    from chain_nth [OF i(1)] show ?S
    proof (elim disjE conjE)
      assume f: "0 < i" "i \<le> length path" "scope_chain asset path ! i = OnFolder (rev path ! (i - 1))"
      then have "(rev path ! (i - 1), i - 1) \<in> set (ancestors d asset)" by (simp add: anc)
      with f i show ?S
        by (intro disjI2 disjI1 exI [of _ "rev path ! (i - 1)"] exI [of _ "i - 1"])
          (simp add: chain_spec_def)
    qed (use i in \<open>simp_all add: chain_spec_def\<close>)
  qed
  then show ?thesis unfolding candidates_iff by (simp only:)
qed

theorem effective_most_specific:
  assumes "schema_checks d" and "policies_unique d"
    and "ancestors d asset = zip (rev path) [0..<length path]" and "length path < 1000000"
  shows "authz_effective_request_policy d role asset = first_policy d role (scope_chain asset path)"
proof (cases rule: first_policy_cases [of d role "scope_chain asset path"])
  case none
  have "(rp, s) \<notin> set (candidates d role asset)" for rp s
  proof
    assume "(rp, s) \<in> set (candidates d role asset)"
    then obtain i where "i < length (scope_chain asset path)" "rp \<in> set (request_policies d)"
      "rp_role rp = role" "policy_has_scope rp (scope_chain asset path ! i)"
      using candidate_chain [OF assms(3)] by blast
    with none(2) policy_for_unique [OF assms(1,2)] nth_mem show False by force
  qed
  then have "candidates d role asset = []"
    by (metis ex_in_conv set_empty surj_pair)
  with none show ?thesis by (simp add: authz_effective_request_policy_def)
next
  case (found i rp)
  let ?sc = "scope_chain asset path"
  have len: "length ?sc = Suc (Suc (length path))" by (simp add: scope_chain_def)
  note rp = policy_for_SomeD [OF found(3)]
  have "order_limit1 snd (candidates d role asset) = Some (rp, chain_spec path i)"
  proof (rule order_limit1_min)
    show "(rp, chain_spec path i) \<in> set (candidates d role asset)"
      using rp found(2) candidate_chain [OF assms(3)] by blast
    fix y assume y: "y \<in> set (candidates d role asset)" "y \<noteq> (rp, chain_spec path i)"
    obtain rp' s where ye: "y = (rp', s)" by (cases y)
    with y(1) obtain j where j: "j < length ?sc" "s = chain_spec path j"
      "rp' \<in> set (request_policies d)" "rp_role rp' = role" "policy_has_scope rp' (?sc ! j)"
      using candidate_chain [OF assms(3)] by blast
    from policy_for_unique [OF assms(1,2) j(3-5)] have pj: "policy_for d role (?sc ! j) = Some rp'" .
    then have "i \<le> j" using found(4) by (metis linorder_not_less option.distinct(1))
    moreover have "j \<noteq> i" using pj found(3) y(2) j(2) ye by auto
    ultimately have "i < j" by simp
    then show "snd (rp, chain_spec path i) < snd y"
      using j(1,2) len assms(4) by (auto simp: ye chain_spec_def)
  qed
  then show ?thesis
    using found(1) by (simp add: authz_effective_request_policy_def)
qed

section \<open>Set-based queries and the resolver agree\<close>

lemma held_on_asset_iff:
  "schema_checks d \<Longrightarrow> r \<in> set (held_on_asset d now u a) \<longleftrightarrow> HoldsRole d now u r KAsset a"
  unfolding HoldsRole_held by (force simp: held_on_asset_def)

lemma held_standing_on_asset_iff:
  "schema_checks d \<Longrightarrow> r \<in> set (held_standing_on_asset d now u a) \<longleftrightarrow> HoldsRoleStanding d u r KAsset a"
  unfolding HoldsRoleStanding_held [where now = now] by (force simp: held_standing_on_asset_def)

lemma effective_candidate:
  assumes "authz_effective_request_policy d role asset = Some ep"
  shows "\<exists>s. (ep, s) \<in> set (candidates d role asset)"
proof -
  from assms have "candidates d role asset \<noteq> []"
    by (auto simp: authz_effective_request_policy_def)
  from order_limit1_least [OF this, of snd] assms show ?thesis
    by (force simp: authz_effective_request_policy_def)
qed

lemma effective_policy_mem:
  "authz_effective_request_policy d role asset = Some ep \<Longrightarrow>
     ep \<in> set (request_policies d) \<and> rp_role ep = role"
  using effective_candidate candidates_iff by blast

lemma eligible_requestable_by:
  assumes "schema_checks d" and "no_nil_roles d"
  shows "IsEligibleRequester d u role asset \<longleftrightarrow>
    (case authz_effective_request_policy d role asset of
       None \<Rightarrow> False | Some ep \<Rightarrow> requestable_by d now u asset ep)"
proof (cases "authz_effective_request_policy d role asset")
  case (Some ep)
  then have "rp_requester_role ep \<noteq> Some 0"
    using effective_policy_mem assms(2) by (auto simp: no_nil_roles_def list_all_iff)
  with Some show ?thesis
    by (auto simp: IsEligibleRequester_def EffectiveRule_def policy_rule_def requestable_by_def
        SubjectExistsForKind_def held_standing_on_asset_iff [OF assms(1)] split: option.splits)
qed (simp add: IsEligibleRequester_def EffectiveRule_def)

lemma requestable_iff_eligible:
  assumes "schema_checks d" and "no_nil_roles d"
  shows "role \<in> set (RequestableRolesOnAsset d now u asset) \<longleftrightarrow>
    IsEligibleRequester d u role asset \<and> \<not> HoldsRole d now u role KAsset asset"
proof -
  have "role \<in> rp_role ` set (request_policies d)"
    if "authz_effective_request_policy d role asset = Some ep" for ep
    using effective_policy_mem [OF that] by auto
  then show ?thesis
    unfolding eligible_requestable_by [OF assms, where now = now]
    by (auto simp: RequestableRolesOnAsset_def held_on_asset_iff [OF assms(1)] split: option.splits)
qed

lemma asset_rounds:
  "(b, x) \<in> set (cte_rounds n (asset_ancestors_step d) (map (Pair a) ws)) \<longleftrightarrow>
   b = a \<and> x \<in> set (cte_rounds n (ancestors_step d) ws)"
proof (induction n arbitrary: ws)
  case (Suc n)
  have "asset_ancestors_step d (a, w) = map (Pair a) (ancestors_step d w)" for w
    by (cases w) (auto simp: asset_ancestors_step_def ancestors_step_def map_concat comp_def
        intro!: arg_cong [where f = concat] split: option.split)
  then have "concat (map (asset_ancestors_step d) (map (Pair a) ws)) =
      map (Pair a) (concat (map (ancestors_step d) ws))"
    by (simp add: map_concat comp_def)
  with Suc.IH show ?case by simp
qed auto

lemma asset_ancestors_iff:
  "(a, fid, k) \<in> set (asset_ancestors d) \<longleftrightarrow> a \<in> a_id ` set (assets d) \<and> (fid, k) \<in> set (ancestors d a)"
proof -
  have base: "(a, x) \<in> set (cte_rounds n (asset_ancestors_step d) [(a_id r, a_folder r, 0)]) \<longleftrightarrow>
      a = a_id r \<and> x \<in> set (cte_rounds n (ancestors_step d) [(a_folder r, 0)])" for r n x
    using asset_rounds [of a x n d "a_id r" "[(a_folder r, 0)]"] by simp
  have anc: "x \<in> set (cte_rounds n (ancestors_step d) (ancestors_base d a)) \<longleftrightarrow>
      (\<exists>r \<in> set (assets d). a_id r = a \<and> x \<in> set (cte_rounds n (ancestors_step d) [(a_folder r, 0)]))" for n x
    by (subst cte_rounds_iff) (auto simp: ancestors_base_def)
  have all: "(a, x) \<in> set (cte_rounds n (asset_ancestors_step d) (map (\<lambda>a. (a_id a, a_folder a, 0)) (assets d))) \<longleftrightarrow>
      (\<exists>r \<in> set (assets d). a_id r = a \<and> x \<in> set (cte_rounds n (ancestors_step d) [(a_folder r, 0)]))" for n x
    by (subst cte_rounds_iff) (auto simp: base)
  show ?thesis
    unfolding asset_ancestors_def ancestors_def cte_union_all_iff all anc by auto
qed

lemma candidate_pairs_iff:
  assumes "policy_scope_fk d"
  shows "(a, role) \<in> set (candidate_pairs d) \<longleftrightarrow>
    a \<in> a_id ` set (assets d) \<and> candidates d role a \<noteq> []"
proof -
  have fk: "b \<in> a_id ` set (assets d)" if "rp \<in> set (request_policies d)" "rp_scope_asset rp = Some b" for rp b
    using assms that by (force simp: policy_scope_fk_def list_all_iff list_ex_iff)
  have ne: "candidates d role a \<noteq> [] \<longleftrightarrow> (\<exists>rp s. (rp, s) \<in> set (candidates d role a))"
    by (metis ex_in_conv set_empty surj_pair)
  have ap: "(a, role) \<in> set (candidate_pairs d) \<longleftrightarrow> (\<exists>rp \<in> set (request_policies d). rp_role rp = role \<and>
      (rp_scope_asset rp = Some a \<or>
       (\<exists>fid k. (a, fid, k) \<in> set (asset_ancestors d) \<and> rp_scope_folder rp = Some fid) \<or>
       a \<in> a_id ` set (assets d) \<and> rp_scope_folder rp = None \<and> rp_scope_asset rp = None))"
    unfolding candidate_pairs_def set_remdups set_append Un_iff set_concat set_map UN_iff image_iff
      bex_simps set_case_option set_filter mem_Collect_eq
    by (simp add: split_paired_Ex Bex_def) blast
  show ?thesis
    unfolding ap ne candidates_iff asset_ancestors_iff using fk by (auto 4 4)
qed

lemma visibleRequestable_pointwise:
  assumes "policy_scope_fk d"
  shows "(a, role) \<in> set (visibleRequestable d now u) \<longleftrightarrow>
    a \<in> a_id ` set (assets d) \<and> role \<in> set (RequestableRolesOnAsset d now u a)"
proof -
  have "candidates d role a \<noteq> []" and "role \<in> rp_role ` set (request_policies d)"
    if "authz_effective_request_policy d role a = Some ep" for ep
    using effective_policy_mem [OF that] effective_candidate [OF that] by auto
  then show ?thesis
    by (auto simp: visibleRequestable_def RequestableRolesOnAsset_def candidate_pairs_iff [OF assms]
        split: option.splits)
qed

section \<open>Who can govern\<close>

text \<open>The tables the standing closure reads.\<close>

lemma update_cong_grants [simp]:
  "authz_user_is_active (d\<lparr>access_grants := gs\<rparr>) u = authz_user_is_active d u"
  "authz_user_groups (d\<lparr>access_grants := gs\<rparr>) u = authz_user_groups d u"
  "binding_subject_is (d\<lparr>access_grants := gs\<rparr>) u rb = binding_subject_is d u rb"
  "authz_role_goals (d\<lparr>access_grants := gs\<rparr>) role k oid = authz_role_goals d role k oid"
  by (simp_all add: authz_user_is_active_def authz_user_groups_def user_groups_step_def [abs_def]
      user_groups_base_def binding_subject_is_def authz_role_goals_def goal_fuel_def
      goal_step_def goal_rewrites_def)

lemma standing_ignores_grants [simp]:
  "HoldsRoleStanding (d\<lparr>access_grants := gs\<rparr>) u role k oid = HoldsRoleStanding d u role k oid"
  by (simp add: HoldsRoleStanding_def)

lemma effective_ignores_grants [simp]:
  "EffectiveRule (d\<lparr>access_grants := gs\<rparr>) role asset = EffectiveRule d role asset"
  by (simp add: EffectiveRule_def authz_effective_request_policy_def candidates_def ancestors_def
      ancestors_step_def ancestors_base_def)

lemma SubjectExists_ignores_grants [simp]:
  "SubjectExistsForKind (d\<lparr>access_grants := gs\<rparr>) p u kind = SubjectExistsForKind d p u kind"
  by (simp add: SubjectExistsForKind_def subject_matches_def)

lemma governance_ignores_grants [simp]:
  "IsApprover (d\<lparr>access_grants := gs\<rparr>) u role asset = IsApprover d u role asset"
  "IsEligibleRequester (d\<lparr>access_grants := gs\<rparr>) u role asset = IsEligibleRequester d u role asset"
  by (cases "EffectiveRule d role asset"; simp add: IsApprover_def IsEligibleRequester_def)+

lemma SubjectExists_active: "SubjectExistsForKind d p u kind \<Longrightarrow> authz_user_is_active d u"
  by (auto simp: SubjectExistsForKind_def list_ex_iff)

lemma IsApprover_active: "IsApprover d u role asset \<Longrightarrow> authz_user_is_active d u"
  by (auto simp: IsApprover_def dest: SubjectExists_active resolver.standing_active
      split: option.splits if_splits)

lemma IsEligibleRequester_active: "IsEligibleRequester d u role asset \<Longrightarrow> authz_user_is_active d u"
  by (auto simp: IsEligibleRequester_def dest: SubjectExists_active resolver.standing_active
      split: option.splits if_splits)

section \<open>Properties\<close>

text \<open>
  C4: the effective policy is the most specific one. For an asset in a folder of a well-formed tree
  the rule that governs a role is that of the first policy found at the asset, at its folder, at
  the folders above it, and last at the role's default. The hypothesis on the depth is the gap
  before the specificity 1000000 the query gives the default.
\<close>

theorem effective_rule_most_specific:
  assumes "schema_checks d" and "policies_unique d" and "folders_wf d"
    and "distinct (map a_id (assets d))" and "a \<in> set (assets d)"
    and "f \<in> set (folders d)" and "a_folder a = f_id f" and "length (f_path_ids f) < 1000000"
  shows "EffectiveRule d role (a_id a) =
    map_option policy_rule (first_policy d role (scope_chain (a_id a) (f_path_ids f)))"
  using effective_most_specific [OF assms(1,2) ancestors_path [OF assms(3-7)] assms(8)]
  by (simp add: EffectiveRule_def)

theorem effective_rule_most_specific_witness:
  "map_option rule_ID (EffectiveRule sample_db 30 20) = Some 60"
proof -
  let ?a = "hd (assets sample_db)" and ?f = "folders sample_db ! 1"
  have hyps: "schema_checks sample_db" "policies_unique sample_db" "folders_wf sample_db"
    "distinct (map a_id (assets sample_db))" "?a \<in> set (assets sample_db)"
    "?f \<in> set (folders sample_db)" "a_folder ?a = f_id ?f" "length (f_path_ids ?f) < 1000000"
    "a_id ?a = 20"
    by (code_simp, code_simp, code_simp, code_simp, simp_all add: sample_db_def)
  have "map_option rule_ID (map_option policy_rule
      (first_policy sample_db 30 (scope_chain 20 (f_path_ids ?f)))) = Some 60"
    by code_simp
  with effective_rule_most_specific [OF hyps(1-8), of 30] hyps(9) show ?thesis by simp
qed

text \<open>
  C8: the set-based query and the resolver cannot diverge. The roles \<open>requestableRoles\<close> lists on
  an asset are exactly those \<open>IsEligibleRequester\<close> admits the user for and \<open>HoldsRole\<close> says the
  user does not hold; \<open>visibleRequestable\<close> lists exactly those pairs over all existing assets.
\<close>

theorem requestable_agrees_with_resolver:
  assumes "schema_checks d" and "no_nil_roles d" and "policy_scope_fk d"
  shows "(role \<in> set (RequestableRolesOnAsset d now u asset) \<longleftrightarrow>
      IsEligibleRequester d u role asset \<and> \<not> HoldsRole d now u role KAsset asset) \<and>
    ((asset, role) \<in> set (visibleRequestable d now u) \<longleftrightarrow> asset \<in> a_id ` set (assets d) \<and>
      IsEligibleRequester d u role asset \<and> \<not> HoldsRole d now u role KAsset asset)"
  unfolding visibleRequestable_pointwise [OF assms(3)] requestable_iff_eligible [OF assms(1,2)] by blast

theorem requestable_agrees_with_resolver_witness:
  "IsEligibleRequester sample_db 1 30 20 \<and> \<not> HoldsRole sample_db 0 1 30 KAsset 20"
proof -
  have hyps: "schema_checks sample_db" "no_nil_roles sample_db" "policy_scope_fk sample_db"
    by code_simp+
  have "30 \<in> set (RequestableRolesOnAsset sample_db 0 1 20)" by code_simp
  with requestable_agrees_with_resolver [OF hyps, of 30 0 1 20] show ?thesis by blast
qed

text \<open>
  C9: temporary access never confers governance. Whatever the grants table holds, it changes
  neither who may approve nor who may request; and a deactivated user can do neither.
\<close>

theorem governance_is_standing:
  "IsApprover (d\<lparr>access_grants := gs\<rparr>) u role asset = IsApprover d u role asset \<and>
   IsEligibleRequester (d\<lparr>access_grants := gs\<rparr>) u role asset = IsEligibleRequester d u role asset \<and>
   (IsApprover d u role asset \<or> IsEligibleRequester d u role asset \<longrightarrow> authz_user_is_active d u)"
  using IsApprover_active IsEligibleRequester_active by auto

theorem governance_is_standing_witness:
  "IsApprover (sample_db\<lparr>access_grants := [sample_grant]\<rparr>) 2 30 20 \<and> authz_user_is_active sample_db 2"
proof -
  have "IsApprover sample_db 2 30 20" by code_simp
  with governance_is_standing [where d = sample_db and gs = "[sample_grant]" and u = 2 and role = 30 and asset = 20] show ?thesis by blast
qed

end
