(* ===== verification/Guard.thy ===== *)
theory Guard
  imports Approvals
begin

text \<open>
  Capabilities at a scope and the guards of the management plane
  (\<open>warden/internal/authz/authorizer.go\<close>, \<open>scope.go\<close>, \<open>connect_capabilities.go\<close>, \<open>entitled.go\<close>,
  \<open>k8sgroups.go\<close> and \<open>warden/internal/apiguard\<close>). The queries return rows in an unspecified order
  without duplicates; the model keeps the order of the table, on which no result depends.
\<close>

section \<open>The capability vocabulary\<close>

definition AssetReadCap :: string where "AssetReadCap = ''catalog:asset:read''"
definition RoleReadCap :: string where "RoleReadCap = ''access:role:read''"
definition GroupReadCap :: string where "GroupReadCap = ''identity:group:read''"
definition AssetCreateCap :: string where "AssetCreateCap = ''catalog:asset:create''"
definition AssetUpdateCap :: string where "AssetUpdateCap = ''catalog:asset:update''"
definition AssetDeleteCap :: string where "AssetDeleteCap = ''catalog:asset:delete''"
definition AssetProbeCap :: string where "AssetProbeCap = ''catalog:asset:probe''"
definition AssetIdentityReadCap :: string where "AssetIdentityReadCap = ''catalog:asset:identity:read''"
definition AssetIdentityApproveCap :: string where "AssetIdentityApproveCap = ''catalog:asset:identity:approve''"
definition FolderCreateCap :: string where "FolderCreateCap = ''catalog:folder:create''"
definition FolderUpdateCap :: string where "FolderUpdateCap = ''catalog:folder:update''"
definition FolderDeleteCap :: string where "FolderDeleteCap = ''catalog:folder:delete''"
definition RoleCreateCap :: string where "RoleCreateCap = ''access:role:create''"
definition RoleUpdateCap :: string where "RoleUpdateCap = ''access:role:update''"
definition RoleDeleteCap :: string where "RoleDeleteCap = ''access:role:delete''"
definition PolicyReadCap :: string where "PolicyReadCap = ''access:policy:read''"
definition PolicyCreateCap :: string where "PolicyCreateCap = ''access:policy:create''"
definition PolicyUpdateCap :: string where "PolicyUpdateCap = ''access:policy:update''"
definition PolicyDeleteCap :: string where "PolicyDeleteCap = ''access:policy:delete''"
definition PolicyManageSubjectsCap :: string where "PolicyManageSubjectsCap = ''access:policy:manage-subjects''"
definition BindingReadCap :: string where "BindingReadCap = ''access:binding:read''"
definition BindingCreateCap :: string where "BindingCreateCap = ''access:binding:create''"
definition BindingDeleteCap :: string where "BindingDeleteCap = ''access:binding:delete''"
definition UserReadCap :: string where "UserReadCap = ''identity:user:read''"
definition UserCreateCap :: string where "UserCreateCap = ''identity:user:create''"
definition UserDeleteCap :: string where "UserDeleteCap = ''identity:user:delete''"
definition UserDeactivateCap :: string where "UserDeactivateCap = ''identity:user:deactivate''"
definition UserSetPasswordCap :: string where "UserSetPasswordCap = ''identity:user:set-password''"
definition GroupCreateCap :: string where "GroupCreateCap = ''identity:group:create''"
definition GroupDeleteCap :: string where "GroupDeleteCap = ''identity:group:delete''"
definition GroupSetExternalKeyCap :: string where "GroupSetExternalKeyCap = ''identity:group:set-external-key''"
definition GroupAddMemberCap :: string where "GroupAddMemberCap = ''identity:group:add-member''"
definition GroupRemoveMemberCap :: string where "GroupRemoveMemberCap = ''identity:group:remove-member''"
definition RecordingReadCap :: string where "RecordingReadCap = ''recording:read''"

section \<open>Capability queries\<close>

definition caps_of_roles :: "db \<Rightarrow> uuid list \<Rightarrow> cap_cols list" where
  "caps_of_roles d rs = remdups (map rc_cols (filter (\<lambda>rc. rc_role rc \<in> set rs) (role_capabilities d)))"

definition held_on_object :: "db \<Rightarrow> time \<Rightarrow> uuid \<Rightarrow> object_kind \<Rightarrow> uuid \<Rightarrow> uuid list" where
  "held_on_object d now user kind oid = map fst
     (filter (\<lambda>(r, k, o'). k = kind \<and> sql_eq o' (Some oid)) (authz_held d now user))"

definition GlobalHeldCapabilities :: "db \<Rightarrow> uuid \<Rightarrow> cap_cols list" where
  "GlobalHeldCapabilities d user = caps_of_roles d (authz_global_held d user)"

definition HeldCapabilitiesOnObject :: "db \<Rightarrow> time \<Rightarrow> uuid \<Rightarrow> object_kind \<Rightarrow> uuid \<Rightarrow> cap_cols list" where
  "HeldCapabilitiesOnObject d now user kind oid = caps_of_roles d (held_on_object d now user kind oid)"

definition HeldCheckAssetCapability :: "db \<Rightarrow> time \<Rightarrow> uuid \<Rightarrow> uuid \<Rightarrow> cap_cols \<Rightarrow> bool" where
  "HeldCheckAssetCapability d now user asset cols = list_ex (\<lambda>rc.
     rc_role rc \<in> set (held_on_object d now user KAsset asset) \<and> sql_cap_match (rc_cols rc) cols)
     (role_capabilities d)"

definition HeldRolesOnAsset :: "db \<Rightarrow> time \<Rightarrow> uuid \<Rightarrow> uuid \<Rightarrow> uuid list" where
  "HeldRolesOnAsset d now user asset = remdups (held_on_object d now user KAsset asset)"

definition HeldAssets :: "db \<Rightarrow> time \<Rightarrow> uuid \<Rightarrow> (uuid \<times> uuid) list" where
  "HeldAssets d now user = remdups (concat (map (\<lambda>(r, k, o').
     case o' of Some a \<Rightarrow> if k = KAsset then [(a, r)] else [] | None \<Rightarrow> []) (authz_held d now user)))"

text \<open>Roles held on a folder that is an ancestor of the scope folder, or the scope folder itself.\<close>

definition ScopeCapabilitiesFolder :: "db \<Rightarrow> time \<Rightarrow> uuid \<Rightarrow> uuid \<Rightarrow> cap_cols list" where
  "ScopeCapabilitiesFolder d now user scope_id = caps_of_roles d
     (authz_global_held d user @
      map fst (filter (\<lambda>(r, k, o'). k = KFolder \<and>
        list_ex (\<lambda>f. sql_eq o' (Some f)) (folderAncestorsAndSelf d scope_id)) (authz_held d now user)))"

definition ScopeCapabilitiesAsset :: "db \<Rightarrow> time \<Rightarrow> uuid \<Rightarrow> uuid \<Rightarrow> cap_cols list" where
  "ScopeCapabilitiesAsset d now user scope_id = caps_of_roles d
     (authz_global_held d user @
      map fst (filter (\<lambda>(r, k, o'). k = KAsset \<and> sql_eq o' (Some scope_id) \<or> k = KFolder \<and>
        list_ex (\<lambda>a. a_id a = scope_id \<and>
          list_ex (\<lambda>f. sql_eq o' (Some f)) (folderAncestorsAndSelf d (a_folder a))) (assets d))
        (authz_held d now user)))"

section \<open>Scopes\<close>

datatype ScopeKind = ScopeGlobal | ScopeFolder | ScopeAsset

record Scope =
  sc_Kind :: ScopeKind
  sc_ID :: uuid

definition GlobalScope :: Scope where "GlobalScope = \<lparr>sc_Kind = ScopeGlobal, sc_ID = uuid_nil\<rparr>"
definition FolderScope :: "uuid \<Rightarrow> Scope" where "FolderScope i = \<lparr>sc_Kind = ScopeFolder, sc_ID = i\<rparr>"
definition AssetScope :: "uuid \<Rightarrow> Scope" where "AssetScope i = \<lparr>sc_Kind = ScopeAsset, sc_ID = i\<rparr>"

definition globalHeldCapabilities :: "db \<Rightarrow> uuid \<Rightarrow> string list" where
  "globalHeldCapabilities d user = map ReconstructCap (GlobalHeldCapabilities d user)"

definition CapabilitiesOnScope :: "db \<Rightarrow> time \<Rightarrow> uuid \<Rightarrow> Scope \<Rightarrow> string list" where
  "CapabilitiesOnScope d now user scope = (case sc_Kind scope of
     ScopeGlobal \<Rightarrow> globalHeldCapabilities d user
   | ScopeFolder \<Rightarrow> map ReconstructCap (ScopeCapabilitiesFolder d now user (sc_ID scope))
   | ScopeAsset \<Rightarrow> map ReconstructCap (ScopeCapabilitiesAsset d now user (sc_ID scope)))"

definition CapabilitiesOnObject :: "db \<Rightarrow> time \<Rightarrow> uuid \<Rightarrow> uuid \<Rightarrow> object_kind \<Rightarrow> string list" where
  "CapabilitiesOnObject d now user oid kind =
     map ReconstructCap (HeldCapabilitiesOnObject d now user kind oid)"

definition CapabilitiesOnAsset :: "db \<Rightarrow> time \<Rightarrow> uuid \<Rightarrow> uuid \<Rightarrow> string list" where
  "CapabilitiesOnAsset d now user asset = CapabilitiesOnObject d now user asset KAsset"

definition Check :: "db \<Rightarrow> time \<Rightarrow> uuid \<Rightarrow> uuid \<Rightarrow> string \<Rightarrow> bool" where
  "Check d now user asset capability =
     HeldCheckAssetCapability d now user asset (NormalizeCap capability)"

section \<open>The data plane\<close>

definition ConnectCapabilities :: "db \<Rightarrow> time \<Rightarrow> uuid \<Rightarrow> uuid \<Rightarrow> string list" where
  "ConnectCapabilities d now user asset =
     drop_super_cap (CapabilitiesOnScope d now user (AssetScope asset))"

definition EntitledLoginsFor_asset ::
  "db \<Rightarrow> time \<Rightarrow> uuid \<Rightarrow> uuid \<Rightarrow> string \<Rightarrow> string list \<Rightarrow> string list" where
  "EntitledLoginsFor_asset d now user asset pfx allowed =
     EntitledLoginsFor (ConnectCapabilities d now user asset) pfx allowed"

definition EntitledLogins :: "db \<Rightarrow> time \<Rightarrow> uuid \<Rightarrow> uuid \<Rightarrow> string list \<Rightarrow> string list" where
  "EntitledLogins d now user asset allowed =
     EntitledLoginsFor_asset d now user asset SSHLoginPrefix allowed"

definition EntitledK8sGroups :: "db \<Rightarrow> time \<Rightarrow> uuid \<Rightarrow> uuid \<Rightarrow> string list" where
  "EntitledK8sGroups d now user asset =
     ConcreteQualifiers (ConnectCapabilities d now user asset) K8sGroupPrefix"

section \<open>Visible assets\<close>

record AssetVisibility =
  av_AssetID :: uuid
  av_Active :: bool
  av_RoleIDs :: "uuid list"

record AssetRoles =
  aro_Active :: "uuid list"
  aro_Requestable :: "uuid list"

text \<open>
  The accumulator of \<open>VisibleAssets\<close>: one entry per asset in the order of first appearance.
  \<open>vis_add\<close> is \<open>get\<close> followed by \<open>addRole\<close>, and by setting \<open>active\<close> on the active tier.
\<close>

fun vis_add :: "bool \<Rightarrow> uuid \<times> uuid \<Rightarrow> AssetVisibility list \<Rightarrow> AssetVisibility list" where
  "vis_add active (asset, role) [] =
     [\<lparr>av_AssetID = asset, av_Active = active, av_RoleIDs = [role]\<rparr>]"
| "vis_add active (asset, role) (v # vs) =
     (if av_AssetID v = asset then
        v\<lparr>av_Active := (active \<or> av_Active v),
          av_RoleIDs := (if role \<in> set (av_RoleIDs v) then av_RoleIDs v else av_RoleIDs v @ [role])\<rparr> # vs
      else v # vis_add active (asset, role) vs)"

definition VisibleAssets :: "db \<Rightarrow> time \<Rightarrow> uuid \<Rightarrow> AssetVisibility list" where
  "VisibleAssets d now user =
     (let active = fold (vis_add True) (HeldAssets d now user) []
      in fold (vis_add False) (visibleRequestable d now user) active)"

definition RolesOnAsset :: "db \<Rightarrow> time \<Rightarrow> uuid \<Rightarrow> uuid \<Rightarrow> AssetRoles" where
  "RolesOnAsset d now user asset = \<lparr>
     aro_Active = remdups (HeldRolesOnAsset d now user asset),
     aro_Requestable = RequestableRolesOnAsset d now user asset\<rparr>"

section \<open>Guards\<close>

definition RequireCap :: "db \<Rightarrow> time \<Rightarrow> uuid \<Rightarrow> string \<Rightarrow> Scope \<Rightarrow> connect_code + unit" where
  "RequireCap d now caller capability scope =
     (if \<not> Allows (CapabilitiesOnScope d now caller scope) capability then Inl CodePermissionDenied
      else Inr ())"

definition RequireReadCap :: "db \<Rightarrow> time \<Rightarrow> uuid \<Rightarrow> string \<Rightarrow> Scope \<Rightarrow> connect_code + unit" where
  "RequireReadCap d now caller objectReadCap scope =
     (if \<not> ReadAllowed (CapabilitiesOnScope d now caller scope) objectReadCap then Inl CodePermissionDenied
      else Inr ())"

definition HasReadCap :: "db \<Rightarrow> time \<Rightarrow> uuid \<Rightarrow> string \<Rightarrow> Scope \<Rightarrow> bool" where
  "HasReadCap d now caller objectReadCap scope =
     ReadAllowed (CapabilitiesOnScope d now caller scope) objectReadCap"

fun all_covered :: "string list \<Rightarrow> string list \<Rightarrow> connect_code + unit" where
  "all_covered held [] = Inr ()"
| "all_covered held (c # cs) = (if \<not> Covers held c then Inl CodePermissionDenied else all_covered held cs)"

definition RequireGrantable :: "db \<Rightarrow> time \<Rightarrow> uuid \<Rightarrow> string list \<Rightarrow> Scope \<Rightarrow> connect_code + unit" where
  "RequireGrantable d now caller roleCaps scope =
     all_covered (CapabilitiesOnScope d now caller scope) roleCaps"

definition ScopeOfFolderID :: "uuid option \<Rightarrow> Scope" where
  "ScopeOfFolderID fid = (case fid of Some i \<Rightarrow> FolderScope i | None \<Rightarrow> GlobalScope)"

definition ScopeOfObject :: "uuid option \<Rightarrow> uuid option \<Rightarrow> Scope" where
  "ScopeOfObject scopeFolder scopeAsset = (case scopeAsset of
     Some i \<Rightarrow> AssetScope i | None \<Rightarrow> ScopeOfFolderID scopeFolder)"

definition GetRole_q :: "db \<Rightarrow> uuid \<Rightarrow> role_row option" where
  "GetRole_q d rid = find (\<lambda>r. r_id r = rid) (roles d)"

definition GetGroup_q :: "db \<Rightarrow> uuid \<Rightarrow> group_row option" where
  "GetGroup_q d gid = find (\<lambda>g. g_id g = gid) (groups d)"

definition GetRoleBinding :: "db \<Rightarrow> uuid \<Rightarrow> role_binding option" where
  "GetRoleBinding d bid = find (\<lambda>b. rb_id b = bid) (role_bindings d)"

definition GetRequestPolicy :: "db \<Rightarrow> uuid \<Rightarrow> request_policy option" where
  "GetRequestPolicy d pid = find (\<lambda>p. rp_id p = pid) (request_policies d)"

definition RoleCapabilityRows :: "db \<Rightarrow> uuid \<Rightarrow> cap_cols list" where
  "RoleCapabilityRows d rid = map rc_cols (filter (\<lambda>rc. rc_role rc = rid) (role_capabilities d))"

definition RoleCapabilitiesByRoleIDs :: "db \<Rightarrow> uuid list \<Rightarrow> (uuid \<times> cap_cols) list" where
  "RoleCapabilitiesByRoleIDs d ids =
     map (\<lambda>rc. (rc_role rc, rc_cols rc)) (filter (\<lambda>rc. rc_role rc \<in> set ids) (role_capabilities d))"

definition ScopeOfRole :: "db \<Rightarrow> uuid \<Rightarrow> connect_code + Scope" where
  "ScopeOfRole d rid = (case GetRole_q d rid of
     None \<Rightarrow> Inl CodeNotFound | Some r \<Rightarrow> Inr (ScopeOfFolderID (r_folder r)))"

definition ScopeOfGroup :: "db \<Rightarrow> uuid \<Rightarrow> connect_code + Scope" where
  "ScopeOfGroup d gid = (case GetGroup_q d gid of
     None \<Rightarrow> Inl CodeNotFound | Some g \<Rightarrow> Inr (ScopeOfFolderID (g_folder g)))"

definition ScopeOfBinding :: "db \<Rightarrow> uuid \<Rightarrow> connect_code + Scope" where
  "ScopeOfBinding d bid = (case GetRoleBinding d bid of
     None \<Rightarrow> Inl CodeNotFound | Some b \<Rightarrow> Inr (ScopeOfObject (rb_scope_folder b) (rb_scope_asset b)))"

definition ScopeOfPolicy :: "db \<Rightarrow> uuid \<Rightarrow> connect_code + Scope" where
  "ScopeOfPolicy d pid = (case GetRequestPolicy d pid of
     None \<Rightarrow> Inl CodeNotFound | Some p \<Rightarrow> Inr (ScopeOfObject (rp_scope_folder p) (rp_scope_asset p)))"

definition RoleCapsStrings :: "db \<Rightarrow> uuid \<Rightarrow> string list" where
  "RoleCapsStrings d rid = map ReconstructCap (RoleCapabilityRows d rid)"

definition RoleCaps :: "db \<Rightarrow> uuid \<Rightarrow> connect_code + string list" where
  "RoleCaps d rid = (case GetRole_q d rid of
     None \<Rightarrow> Inl CodeNotFound | Some _ \<Rightarrow> Inr (RoleCapsStrings d rid))"

text \<open>The map of the batched lookup: a role without capabilities has no entry.\<close>

definition RoleCapsByRoleIDs :: "db \<Rightarrow> uuid list \<Rightarrow> uuid \<rightharpoonup> string list" where
  "RoleCapsByRoleIDs d ids = fold (\<lambda>(r, cols) m. m(r \<mapsto>
     (case m r of None \<Rightarrow> [] | Some cs \<Rightarrow> cs) @ [ReconstructCap cols]))
     (RoleCapabilitiesByRoleIDs d ids) Map.empty"

section \<open>Roles at a scope\<close>

definition roles_at_scope :: "db \<Rightarrow> time \<Rightarrow> uuid \<Rightarrow> Scope \<Rightarrow> uuid set" where
  "roles_at_scope d now user scope = set (authz_global_held d user) \<union>
     (case sc_Kind scope of
        ScopeGlobal \<Rightarrow> {}
      | ScopeFolder \<Rightarrow> {r. \<exists>f \<in> set (folderAncestorsAndSelf d (sc_ID scope)).
          (r, KFolder, Some f) \<in> set (authz_held d now user)}
      | ScopeAsset \<Rightarrow> {r. (r, KAsset, Some (sc_ID scope)) \<in> set (authz_held d now user)} \<union>
          {r. \<exists>a \<in> set (assets d). a_id a = sc_ID scope \<and>
            (\<exists>f \<in> set (folderAncestorsAndSelf d (a_folder a)). (r, KFolder, Some f) \<in> set (authz_held d now user))})"

lemma set_caps_of_roles [simp]:
  "set (caps_of_roles d rs) = rc_cols ` {rc \<in> set (role_capabilities d). rc_role rc \<in> set rs}"
  by (auto simp: caps_of_roles_def)

lemma CapabilitiesOnScope_set:
  "set (CapabilitiesOnScope d now u scope) =
     (\<lambda>rc. ReconstructCap (rc_cols rc)) ` {rc \<in> set (role_capabilities d). rc_role rc \<in> roles_at_scope d now u scope}"
proof (cases "sc_Kind scope")
  case ScopeGlobal
  then show ?thesis
    by (simp add: CapabilitiesOnScope_def globalHeldCapabilities_def GlobalHeldCapabilities_def
        roles_at_scope_def image_image)
next
  case ScopeFolder
  have "{rc \<in> set (role_capabilities d). rc_role rc \<in> set (authz_global_held d u @
      map fst (filter (\<lambda>(r, k, o'). k = KFolder \<and> list_ex (\<lambda>f. sql_eq o' (Some f))
        (folderAncestorsAndSelf d (sc_ID scope))) (authz_held d now u)))} =
      {rc \<in> set (role_capabilities d). rc_role rc \<in> roles_at_scope d now u scope}"
    by (force simp: roles_at_scope_def ScopeFolder list_ex_iff)
  then show ?thesis
    by (simp only: CapabilitiesOnScope_def ScopeFolder ScopeKind.case ScopeCapabilitiesFolder_def
        set_map set_caps_of_roles image_image)
next
  case ScopeAsset
  have "{rc \<in> set (role_capabilities d). rc_role rc \<in> set (authz_global_held d u @
      map fst (filter (\<lambda>(r, k, o'). k = KAsset \<and> sql_eq o' (Some (sc_ID scope)) \<or> k = KFolder \<and>
        list_ex (\<lambda>a. a_id a = sc_ID scope \<and>
          list_ex (\<lambda>f. sql_eq o' (Some f)) (folderAncestorsAndSelf d (a_folder a))) (assets d))
        (authz_held d now u)))} =
      {rc \<in> set (role_capabilities d). rc_role rc \<in> roles_at_scope d now u scope}"
    by (force simp: roles_at_scope_def ScopeAsset list_ex_iff)
  then show ?thesis
    by (simp only: CapabilitiesOnScope_def ScopeAsset ScopeKind.case ScopeCapabilitiesAsset_def
        set_map set_caps_of_roles image_image)
qed

lemma ancestors_iff:
  "x \<in> set (folderAncestorsAndSelf d y) \<longleftrightarrow>
     (\<exists>p f. FolderPathIDs d y = Some p \<and> f \<in> set (folders d) \<and> f_id f = x \<and> prefix (f_path_ids f) p)"
  by (cases "FolderPathIDs d y") (auto simp: folderAncestorsAndSelf_def ltree_ancestor_def)

lemma ancestors_trans:
  assumes "folders_wf d" and "x \<in> set (folderAncestorsAndSelf d y)" and "y \<in> set (folderAncestorsAndSelf d z)"
  shows "x \<in> set (folderAncestorsAndSelf d z)"
proof -
  from assms(3) obtain p g where g: "FolderPathIDs d z = Some p" "g \<in> set (folders d)" "f_id g = y"
    "prefix (f_path_ids g) p" unfolding ancestors_iff by blast
  from assms(2) obtain q f where f: "FolderPathIDs d y = Some q" "f \<in> set (folders d)" "f_id f = x"
    "prefix (f_path_ids f) q" unfolding ancestors_iff by blast
  have "q = f_path_ids g" using FolderPathIDs_self [OF assms(1) g(2)] f(1) g(3) by simp
  then have "prefix (f_path_ids f) p" using f(4) g(4) by (metis prefix_order.order_trans)
  then show ?thesis unfolding ancestors_iff using g(1) f(2,3) by blast
qed

text \<open>The scopes below a scope: everything below the global one, the subtree below a folder.\<close>

definition scope_below :: "db \<Rightarrow> Scope \<Rightarrow> Scope \<Rightarrow> bool" where
  "scope_below d s s' \<longleftrightarrow> s = GlobalScope \<or> s = s' \<or>
     (\<exists>f g. s = FolderScope f \<and> s' = FolderScope g \<and> f \<in> set (folderAncestorsAndSelf d g)) \<or>
     (\<exists>f a. s = FolderScope f \<and> s' = AssetScope (a_id a) \<and> a \<in> set (assets d) \<and>
        f \<in> set (folderAncestorsAndSelf d (a_folder a)))"

lemma roles_at_scope_mono:
  assumes "folders_wf d" and "scope_below d s s'"
  shows "roles_at_scope d now u s \<subseteq> roles_at_scope d now u s'"
  using assms(2) ancestors_trans [OF assms(1)] unfolding scope_below_def
  by (auto simp: roles_at_scope_def GlobalScope_def FolderScope_def AssetScope_def)

lemma CapabilitiesOnScope_mono:
  "folders_wf d \<Longrightarrow> scope_below d s s' \<Longrightarrow>
     set (CapabilitiesOnScope d now u s) \<subseteq> set (CapabilitiesOnScope d now u s')"
  unfolding CapabilitiesOnScope_set using roles_at_scope_mono by blast

section \<open>Properties of the guards\<close>

text \<open>
  C23: management authority cascades down the folder tree. A capability a caller holds globally is
  held at every scope, and one held on a folder is held on every folder and asset below it.
\<close>

theorem management_cascades:
  assumes "folders_wf d" and "scope_below d s s'" and "RequireCap d now caller capability s = Inr ()"
  shows "RequireCap d now caller capability s' = Inr ()"
  using assms(3) CapabilitiesOnScope_mono [OF assms(1,2), of now caller]
  by (auto simp: RequireCap_def Allows_iff split: if_splits)

theorem management_cascades_witness:
  "RequireCap sample_db 0 2 ''access:request:read'' (AssetScope 20) = Inr () \<and>
   RequireCap sample_db 0 1 ''access:request:read'' (AssetScope 20) = Inl CodePermissionDenied"
proof
  have wf: "folders_wf sample_db" by code_simp
  have "hd (assets sample_db) \<in> set (assets sample_db)" "a_id (hd (assets sample_db)) = 20"
    "10 \<in> set (folderAncestorsAndSelf sample_db (a_folder (hd (assets sample_db))))"
    by code_simp+
  then have below: "scope_below sample_db (FolderScope 10) (AssetScope 20)"
    unfolding scope_below_def by metis
  have "RequireCap sample_db 0 2 ''access:request:read'' (FolderScope 10) = Inr ()" by code_simp
  then show "RequireCap sample_db 0 2 ''access:request:read'' (AssetScope 20) = Inr ()"
    by (rule management_cascades [OF wf below])
  show "RequireCap sample_db 0 1 ''access:request:read'' (AssetScope 20) = Inl CodePermissionDenied"
    by code_simp
qed

lemma all_covered_iff: "all_covered held cs = Inr () \<longleftrightarrow> (\<forall>c \<in> set cs. Covers held c)"
  by (induction cs) auto

text \<open>
  C24: the subset rule prevents escalation by a role's own capabilities. When \<open>RequireGrantable\<close>
  admits a role, every concrete capability the role's patterns allow is one the caller already
  holds at the scope; a caller who holds nothing there can only grant roles without capabilities.
\<close>

theorem grantable_no_escalation:
  assumes "RoleCaps d role = Inr roleCaps" and "RequireGrantable d now caller roleCaps scope = Inr ()"
    and "Allows roleCaps c"
  shows "RequireCap d now caller c scope = Inr ()"
proof -
  have "\<forall>p \<in> set roleCaps. Covers (CapabilitiesOnScope d now caller scope) p"
    using assms(2) by (simp add: RequireGrantable_def all_covered_iff)
  moreover from assms(3) obtain p where "p \<in> set roleCaps" "CapMatch p c"
    by (auto simp: Allows_iff)
  ultimately have "\<exists>h \<in> set (CapabilitiesOnScope d now caller scope). CapMatch h c"
    by (rule cap_engine.all_covered_no_escalation)
  then show ?thesis by (simp add: RequireCap_def Allows_iff)
qed

theorem grantable_no_escalation_witness:
  "RequireGrantable sample_db 0 5 [''ssh:login:root''] GlobalScope = Inr () \<and>
   RequireCap sample_db 0 5 ''ssh:login:root'' GlobalScope = Inr () \<and>
   RequireGrantable sample_db 0 2 [''ssh:login:root''] (FolderScope 10) = Inl CodePermissionDenied"
proof (intro conjI)
  have r: "RoleCaps sample_db 30 = Inr [''ssh:login:root'']" by code_simp
  show g: "RequireGrantable sample_db 0 5 [''ssh:login:root''] GlobalScope = Inr ()" by code_simp
  have "Allows [''ssh:login:root''] ''ssh:login:root''" by code_simp
  then show "RequireCap sample_db 0 5 ''ssh:login:root'' GlobalScope = Inr ()"
    by (rule grantable_no_escalation [OF r g])
  show "RequireGrantable sample_db 0 2 [''ssh:login:root''] (FolderScope 10) = Inl CodePermissionDenied"
    by code_simp
qed

text \<open>Rows whose columns are the storage form of a valid capability.\<close>

definition stored_caps_ok :: "db \<Rightarrow> bool" where
  "stored_caps_ok d = list_all (\<lambda>rc. valid_cap (ReconstructCap (rc_cols rc)) \<and>
     NormalizeCap (ReconstructCap (rc_cols rc)) = rc_cols rc) (role_capabilities d)"

text \<open>A concrete capability of three segments, for which the column predicate is the glob match.\<close>

definition plain_cap :: "string \<Rightarrow> bool" where
  "plain_cap capability = (case go_split CHR '':'' capability of
     [x, y, z] \<Rightarrow> concrete [x, y, z] \<and> z \<noteq> '''' | _ \<Rightarrow> False)"

lemma plain_cap_segs:
  assumes "plain_cap capability"
  obtains x y z where "go_split CHR '':'' capability = [x, y, z]" "concrete [x, y, z]" "z \<noteq> ''''"
  using assms by (auto simp: plain_cap_def split: list.splits)

lemma stored_cap_match:
  assumes "stored_caps_ok d" and "plain_cap capability" and "rc \<in> set (role_capabilities d)"
  shows "sql_cap_match (rc_cols rc) (NormalizeCap capability) = CapMatch (ReconstructCap (rc_cols rc)) capability"
proof -
  from assms(2) obtain x y z where "go_split CHR '':'' capability = [x, y, z]" "concrete [x, y, z]" "z \<noteq> ''''"
    by (rule plain_cap_segs)
  from sql_cap_match_iff [OF _ this, of "ReconstructCap (rc_cols rc)"] assms(1,3) show ?thesis
    by (simp add: stored_caps_ok_def list_all_iff)
qed



section \<open>Visible assets are the held and the requestable ones\<close>

definition vis_roles :: "AssetVisibility list \<Rightarrow> (uuid \<times> uuid) set" where
  "vis_roles vs = (\<Union>v \<in> set vs. {av_AssetID v} \<times> set (av_RoleIDs v))"

primrec vis_active :: "AssetVisibility list \<Rightarrow> uuid set" where
  "vis_active [] = {}"
| "vis_active (v # vs) = (if av_Active v then {av_AssetID v} else {}) \<union> vis_active vs"

lemma vis_active_iff: "a \<in> vis_active vs \<longleftrightarrow> (\<exists>v \<in> set vs. av_AssetID v = a \<and> av_Active v)"
  by (induction vs) auto

lemma vis_add_roles: "vis_roles (vis_add b (a, r) vs) = insert (a, r) (vis_roles vs)"
  unfolding vis_roles_def by (induction vs) auto

lemma vis_add_active:
  "vis_active (vis_add b (a, r) vs) = (if b then insert a (vis_active vs) else vis_active vs)"
  by (induction vs) auto

lemma vis_add_ids:
  "av_AssetID ` set (vis_add b (a, r) vs) = insert a (av_AssetID ` set vs)"
  by (induction vs) auto

lemma vis_add_distinct:
  "distinct (map av_AssetID vs) \<Longrightarrow> distinct (map av_AssetID (vis_add b (a, r) vs))"
proof (induction vs)
  case (Cons v vs)
  then show ?case using vis_add_ids [of b a r vs] by auto
qed simp

lemma vis_fold:
  "distinct (map av_AssetID vs) \<Longrightarrow> distinct (map av_AssetID (fold (vis_add b) ps vs))"
  "vis_roles (fold (vis_add b) ps vs) = set ps \<union> vis_roles vs"
  "vis_active (fold (vis_add b) ps vs) = (if b then fst ` set ps else {}) \<union> vis_active vs"
proof (induction ps arbitrary: vs)
  case (Cons p ps)
  obtain a r where p: "p = (a, r)" by (cases p)
  { case 1 then show ?case using Cons.IH(1) vis_add_distinct by (simp add: p) }
  { case 2 show ?case using Cons.IH(2) by (simp add: p vis_add_roles) }
  { case 3 show ?case using Cons.IH(3) by (simp add: p vis_add_active) }
qed simp_all

lemma HeldAssets_iff:
  "schema_checks d \<Longrightarrow> (a, r) \<in> set (HeldAssets d now u) \<longleftrightarrow> HoldsRole d now u r KAsset a"
  unfolding HoldsRole_held by (force simp: HeldAssets_def split: option.splits)



section \<open>Databases that agree on authorization\<close>

text \<open>The tables the authorizer reads; the others, such as the live sessions, do not decide access.\<close>

definition same_authz :: "db \<Rightarrow> db \<Rightarrow> bool" where
  "same_authz d d' = (users d = users d' \<and> group_memberships d = group_memberships d' \<and> folders d = folders d' \<and>
     assets d = assets d' \<and> role_capabilities d = role_capabilities d' \<and> role_grants d = role_grants d' \<and>
     role_bindings d = role_bindings d' \<and> access_grants d = access_grants d')"

lemma same_authz_closure:
  assumes "same_authz d d'"
  shows "authz_user_is_active d = authz_user_is_active d'" and "authz_user_groups d = authz_user_groups d'"
    and "authz_held d = authz_held d'" and "authz_global_held d = authz_global_held d'"
    and "folderAncestorsAndSelf d = folderAncestorsAndSelf d'"
proof -
  note eq = assms [unfolded same_authz_def]
  show act: "authz_user_is_active d = authz_user_is_active d'"
    using eq by (simp add: authz_user_is_active_def fun_eq_iff)
  show grp: "authz_user_groups d = authz_user_groups d'"
    using eq by (simp add: authz_user_groups_def user_groups_base_def user_groups_step_def [abs_def] fun_eq_iff)
  have base: "held_base d = held_base d'"
    using eq act grp by (simp add: held_base_def binding_subject_is_def active_access_grants_def fun_eq_iff)
  have step: "held_step d = held_step d'"
    using eq by (simp add: held_step_def rewrite_rules_def fun_eq_iff)
  show "authz_held d = authz_held d'"
    using eq by (simp add: authz_held_def authz_held_impl_def held_fuel_def base step fun_eq_iff)
  show "authz_global_held d = authz_global_held d'"
    using eq act grp by (simp add: authz_global_held_def global_held_base_def global_held_step_def [abs_def]
        binding_subject_is_def fun_eq_iff)
  show "folderAncestorsAndSelf d = folderAncestorsAndSelf d'"
    using eq by (simp add: folderAncestorsAndSelf_def FolderPathIDs_def GetFolder_def fun_eq_iff comp_def split: option.splits)
qed

lemma same_authz_capabilities:
  assumes "same_authz d d'"
  shows "CapabilitiesOnScope d = CapabilitiesOnScope d'" and "ConnectCapabilities d = ConnectCapabilities d'"
    and "EntitledLoginsFor_asset d = EntitledLoginsFor_asset d'" and "EntitledLogins d = EntitledLogins d'"
proof -
  note eq = assms [unfolded same_authz_def] same_authz_closure [OF assms]
  have caps: "caps_of_roles d = caps_of_roles d'" using eq by (simp add: caps_of_roles_def fun_eq_iff)
  have scopes: "globalHeldCapabilities d = globalHeldCapabilities d'" "ScopeCapabilitiesFolder d = ScopeCapabilitiesFolder d'"
    "ScopeCapabilitiesAsset d = ScopeCapabilitiesAsset d'"
    using eq caps by (simp_all add: globalHeldCapabilities_def GlobalHeldCapabilities_def ScopeCapabilitiesFolder_def
        ScopeCapabilitiesAsset_def fun_eq_iff)
  show cap: "CapabilitiesOnScope d = CapabilitiesOnScope d'"
    by (intro ext) (simp only: CapabilitiesOnScope_def scopes split: ScopeKind.splits)
  then show con: "ConnectCapabilities d = ConnectCapabilities d'" by (simp add: ConnectCapabilities_def fun_eq_iff)
  then show ent: "EntitledLoginsFor_asset d = EntitledLoginsFor_asset d'" by (simp add: EntitledLoginsFor_asset_def fun_eq_iff)
  then show "EntitledLogins d = EntitledLogins d'" by (simp add: EntitledLogins_def fun_eq_iff)
qed

end
