(* ===== verification/Paging.thy ===== *)
theory Paging
  imports Prelude "HOL-Library.Product_Lexorder"
begin

text \<open>
  Keyset pagination (\<open>warden/internal/apipage/page.go\<close> and the paged queries): the page size
  clamp, the order \<open>t DESC, id\<close> of the time-ordered lists, the keyset predicate of their queries
  and the cursor of the next page. The locale \<open>keyset_table\<close> is the contract of a table that is
  paged this way; in it the pages a client walks through are, put together, the whole ordered
  list. It is interpreted for the tables of requests and of grants where these are defined.
\<close>

definition ClampPageSize :: "int \<Rightarrow> int" where
  "ClampPageSize n = (if n \<le> 0 \<or> n > 100 then 50 else n)"

definition desc_key :: "time \<times> uuid \<Rightarrow> int \<times> uuid" where
  "desc_key k = (- fst k, snd k)"

text \<open>\<open>ORDER BY t DESC, id\<close>: newest first, ties by id.\<close>

definition order_desc :: "('a \<Rightarrow> time \<times> uuid) \<Rightarrow> 'a list \<Rightarrow> 'a list" where
  "order_desc key xs = sort_key (\<lambda>x. desc_key (key x)) xs"

record PageParams =
  pp_After :: "(time \<times> uuid) option"
  pp_Limit :: nat

type_synonym PageCursor = "time \<times> uuid"

text \<open>The keyset predicate: strictly older than the cursor, or the same instant and a later id.\<close>

definition after_cursor :: "(time \<times> uuid) option \<Rightarrow> time \<times> uuid \<Rightarrow> bool" where
  "after_cursor c k = (case c of
     None \<Rightarrow> True
   | Some (t, i) \<Rightarrow> fst k < t \<or> fst k = t \<and> snd k > i)"

definition sql_page :: "('a \<Rightarrow> time \<times> uuid) \<Rightarrow> PageParams \<Rightarrow> 'a list \<Rightarrow> 'a list" where
  "sql_page key page rows =
     take (pp_Limit page) (order_desc key (filter (\<lambda>x. after_cursor (pp_After page) (key x)) rows))"

text \<open>A token for the next page is given out when the page is full.\<close>

definition next_cursor :: "('a \<Rightarrow> time \<times> uuid) \<Rightarrow> PageParams \<Rightarrow> 'a list \<Rightarrow> PageCursor option" where
  "next_cursor key page rows =
     (if length rows = pp_Limit page then Some (key (last rows)) else None)"

text \<open>
  Page tokens. A token is the base64 form of a JSON object; \<open>page_token\<close> is what decoding makes of
  the string: nothing for the empty one, garbage, or the key. \<open>EncodeNameToken\<close> leaves the time
  out, \<open>EncodeTimeToken\<close> the name.
\<close>

record PageKey =
  pk_Name :: string
  pk_Time :: "time option"
  pk_ID :: uuid

datatype page_token = EmptyToken | GarbageToken | KeyToken PageKey

definition EncodeNameToken :: "string \<Rightarrow> uuid \<Rightarrow> page_token" where
  "EncodeNameToken name i = KeyToken \<lparr>pk_Name = name, pk_Time = None, pk_ID = i\<rparr>"

definition EncodeTimeToken :: "time \<Rightarrow> uuid \<Rightarrow> page_token" where
  "EncodeTimeToken ts i = KeyToken \<lparr>pk_Name = [], pk_Time = Some ts, pk_ID = i\<rparr>"

definition DecodePageToken :: "page_token \<Rightarrow> connect_code + PageKey option" where
  "DecodePageToken tok = (case tok of
     EmptyToken \<Rightarrow> Inr None
   | GarbageToken \<Rightarrow> Inl CodeInvalidArgument
   | KeyToken k \<Rightarrow> if pk_ID k = uuid_nil then Inl CodeInvalidArgument else Inr (Some k))"

text \<open>A client that follows the tokens, starting with the cursor \<open>c\<close>.\<close>

fun walk_pages :: "nat \<Rightarrow> ('a \<Rightarrow> time \<times> uuid) \<Rightarrow> nat \<Rightarrow> PageCursor option \<Rightarrow> 'a list \<Rightarrow> 'a list" where
  "walk_pages 0 key limit c rows = []"
| "walk_pages (Suc fuel) key limit c rows =
     (let page = \<lparr>pp_After = c, pp_Limit = limit\<rparr>; ps = sql_page key page rows
      in case next_cursor key page ps of
           None \<Rightarrow> ps
         | Some c' \<Rightarrow> ps @ walk_pages fuel key limit (Some c') rows)"

text \<open>
  The same client against an endpoint: \<open>fetch\<close> is the call with a cursor, which answers with the
  items of the page and the next cursor.
\<close>

fun walk_client :: "nat \<Rightarrow> (PageCursor option \<Rightarrow> 'b list \<times> PageCursor option) \<Rightarrow> PageCursor option \<Rightarrow> 'b list" where
  "walk_client 0 fetch c = []"
| "walk_client (Suc fuel) fetch c = (case fetch c of
     (items, None) \<Rightarrow> items
   | (items, Some c') \<Rightarrow> items @ walk_client fuel fetch (Some c'))"

lemma after_cursor_desc: "after_cursor (Some c) k \<longleftrightarrow> desc_key c < desc_key k"
  by (cases c; cases k) (auto simp: after_cursor_def desc_key_def)

lemma after_cursor_None [simp]: "after_cursor None k"
  by (simp add: after_cursor_def)

lemma after_cursor_trans:
  "after_cursor c k \<Longrightarrow> after_cursor (Some k) k' \<Longrightarrow> after_cursor c k'"
  by (cases c) (auto simp: after_cursor_desc)

lemma desc_key_inj: "desc_key k = desc_key k' \<Longrightarrow> k = k'"
  by (cases k; cases k') (simp add: desc_key_def)

lemma set_order_desc [simp]: "set (order_desc key xs) = set xs"
  by (simp add: order_desc_def)

lemma filter_order_desc: "order_desc key (filter P xs) = filter P (order_desc key xs)"
  by (simp add: order_desc_def filter_sort)

lemma sorted_order_desc: "sorted (map (\<lambda>x. desc_key (key x)) (order_desc key xs))"
  by (simp add: order_desc_def)

lemma insort_key_map_eq:
  "(\<And>x. key' (h x) = key x) \<Longrightarrow>
     insort_key key' (h x) (map h xs) = map h (insort_key key x xs)"
  by (induction xs) auto

lemma sort_key_map_eq:
  "(\<And>x. key' (h x) = key x) \<Longrightarrow> sort_key key' (map h xs) = map h (sort_key key xs)"
  by (induction xs) (auto simp: insort_key_map_eq sort_key_def)

lemma order_desc_map:
  "(\<And>x. key' (h x) = key x) \<Longrightarrow> order_desc key' (map h xs) = map h (order_desc key xs)"
  by (simp add: order_desc_def sort_key_map_eq)

lemma distinct_order_desc: "distinct (map key xs) \<Longrightarrow> distinct (map key (order_desc key xs))"
  by (metis distinct_map distinct_sort order_desc_def set_sort)

text \<open>In a strictly ordered list the rows after a row are the rest of the list.\<close>

lemma filter_after_sorted:
  assumes "sorted (map (\<lambda>x. desc_key (key x)) (xs @ y # ys))"
    and "distinct (map key (xs @ y # ys))"
  shows "filter (\<lambda>x. after_cursor (Some (key y)) (key x)) (xs @ y # ys) = ys"
proof -
  have "\<not> after_cursor (Some (key y)) (key x)" if "x \<in> set xs" for x
    using assms(1) that by (auto simp: after_cursor_desc sorted_append)
  moreover have "after_cursor (Some (key y)) (key x)" if "x \<in> set ys" for x
  proof -
    have "desc_key (key y) \<le> desc_key (key x)"
      using assms(1) that by (auto simp: sorted_append)
    moreover have "key x \<noteq> key y" using assms(2) that by (auto simp: image_iff)
    ultimately show ?thesis
      using desc_key_inj by (fastforce simp: after_cursor_desc order.strict_iff_order)
  qed
  moreover have "\<not> after_cursor (Some (key y)) (key y)"
    by (simp add: after_cursor_desc)
  ultimately show ?thesis by (simp add: filter_empty_conv)
qed

lemma filter_take_distinct: "distinct xs \<Longrightarrow> filter (\<lambda>x. x \<in> set (take n xs)) xs = take n xs"
proof -
  assume "distinct xs"
  then have "set (take n xs) \<inter> set (drop n xs) = {}"
    by (simp add: set_take_disj_set_drop_if_distinct)
  then have "filter (\<lambda>x. x \<in> set (take n xs)) (take n xs @ drop n xs) = take n xs"
    unfolding filter_append by (auto simp: filter_empty_conv intro!: filter_True)
  then show ?thesis by simp
qed

locale keyset_table =
  fixes key :: "'a \<Rightarrow> time \<times> uuid" and ident :: "'a \<Rightarrow> uuid"
  assumes key_ident: "snd (key x) = ident x"
begin

lemma keys_distinct: "distinct (map ident rows) \<Longrightarrow> distinct (map key rows)"
  using key_ident by (metis (mono_tags, lifting) distinct_map inj_onCI inj_onD)

lemma walk_from:
  assumes "distinct (map ident rows)" and "0 < limit"
    and "length (filter (\<lambda>x. after_cursor c (key x)) rows) < fuel"
  shows "walk_pages fuel key limit c rows =
    order_desc key (filter (\<lambda>x. after_cursor c (key x)) rows)"
  using assms(3)
proof (induction fuel arbitrary: c)
  case (Suc fuel)
  let ?L = "order_desc key (filter (\<lambda>x. after_cursor c (key x)) rows)"
  let ?page = "\<lparr>pp_After = c, pp_Limit = limit\<rparr>"
  have sorted: "sorted (map (\<lambda>x. desc_key (key x)) ?L)" by (rule sorted_order_desc)
  have dist: "distinct (map key ?L)"
    using keys_distinct [OF assms(1)] by (intro distinct_order_desc) (simp add: distinct_map_filter)
  show ?case
  proof (cases "limit \<le> length ?L")
    case False
    then show ?thesis by (simp add: Let_def sql_page_def next_cursor_def)
  next
    case True
    let ?y = "?L ! (limit - 1)"
    have split: "?L = take (limit - 1) ?L @ ?y # drop limit ?L"
      using True assms(2) by (metis Suc_diff_1 Suc_le_lessD id_take_nth_drop)
    have last: "last (take limit ?L) = ?y"
      using True assms(2) by (cases limit) (simp_all add: take_Suc_conv_app_nth)
    have "?y \<in> set ?L" using True assms(2) by (intro nth_mem) simp
    then have y: "after_cursor c (key ?y)" by simp
    have rest: "order_desc key (filter (\<lambda>x. after_cursor (Some (key ?y)) (key x)) rows) = drop limit ?L"
    proof -
      have "filter (\<lambda>x. after_cursor (Some (key ?y)) (key x)) rows =
          filter (\<lambda>x. after_cursor (Some (key ?y)) (key x)) (filter (\<lambda>x. after_cursor c (key x)) rows)"
        unfolding filter_filter using after_cursor_trans [OF y] by (intro filter_cong refl) blast
      then have "order_desc key (filter (\<lambda>x. after_cursor (Some (key ?y)) (key x)) rows) =
          filter (\<lambda>x. after_cursor (Some (key ?y)) (key x)) ?L"
        by (simp only: filter_order_desc)
      also have "\<dots> = drop limit ?L"
        using filter_after_sorted [of key "take (limit - 1) ?L" ?y "drop limit ?L"] sorted dist split
        by metis
      finally show ?thesis .
    qed
    have "length (filter (\<lambda>x. after_cursor (Some (key ?y)) (key x)) rows) = length ?L - limit"
      using arg_cong [OF rest, of length] by (simp add: order_desc_def)
    then have "length (filter (\<lambda>x. after_cursor (Some (key ?y)) (key x)) rows) < fuel"
      using Suc.prems True assms(2) by (simp add: order_desc_def)
    note IH = Suc.IH [OF this]
    have "walk_pages (Suc fuel) key limit c rows =
        take limit ?L @ walk_pages fuel key limit (Some (key ?y)) rows"
      using True by (simp add: Let_def sql_page_def next_cursor_def last)
    also have "\<dots> = take limit ?L @ drop limit ?L"
      by (simp only: IH rest)
    finally show ?thesis by simp
  qed
qed simp

lemma filter_page:
  assumes "distinct (map ident rows)"
  shows "filter (\<lambda>x. ident x \<in> ident ` set (sql_page key page rows)) (order_desc key rows) =
    sql_page key page rows"
proof -
  let ?Q = "\<lambda>x. after_cursor (pp_After page) (key x)"
  let ?M = "filter ?Q (order_desc key rows)"
  have page: "sql_page key page rows = take (pp_Limit page) ?M"
    by (simp add: sql_page_def filter_order_desc)
  have inj: "inj_on ident (set rows)" using assms by (simp add: distinct_map)
  have sub: "set (take (pp_Limit page) ?M) \<subseteq> set rows"
    using set_take_subset [of "pp_Limit page" ?M] by auto
  have "filter (\<lambda>x. ident x \<in> ident ` set (take (pp_Limit page) ?M)) (order_desc key rows) =
      filter (\<lambda>x. x \<in> set (take (pp_Limit page) ?M)) (order_desc key rows)"
    by (intro filter_cong refl inj_on_image_mem_iff [OF inj _ sub]) simp
  also have "\<dots> = filter (\<lambda>x. x \<in> set (take (pp_Limit page) ?M)) ?M"
    unfolding filter_filter using set_take_subset [of "pp_Limit page" ?M] by (intro filter_cong refl) auto
  also have "\<dots> = take (pp_Limit page) ?M"
    using distinct_order_desc [OF keys_distinct [OF assms]]
    by (intro filter_take_distinct distinct_filter) (simp add: distinct_map)
  finally show ?thesis by (simp only: page)
qed

lemma walk_filtered:
  assumes "\<And>c. fetch c = (let page = \<lparr>pp_After = c, pp_Limit = limit\<rparr>; ps = sql_page key page rows
      in (map F (filter P ps), next_cursor key page ps))"
  shows "walk_client fuel fetch c = map F (filter P (walk_pages fuel key limit c rows))"
  by (induction fuel arbitrary: c) (auto simp: assms Let_def split: option.splits)

theorem walk_complete:
  assumes "distinct (map ident rows)" and "0 < limit" and "length rows < fuel"
  shows "walk_pages fuel key limit None rows = order_desc key rows"
  using walk_from [OF assms(1,2), of None fuel] assms(3) by simp

end

end
