(* ===== verification/AccessRequest.thy ===== *)
theory AccessRequest
  imports Approvals Paging
begin

text \<open>
  The just-in-time access workflow (\<open>warden/internal/accessrequest\<close>): opening a request, voting,
  cancelling, revoking, the deletion of a role, the reaper. The state is the database, the audit
  outbox and the list of grants whose sessions the terminator was told to end. An operation is one
  transaction: it returns an error and leaves the state alone, or returns its result with the new
  state. The fresh ids of inserted rows and the clocks (of the queries before the transaction, of
  the transaction, and of the process) are arguments.
\<close>

section \<open>State, results and errors\<close>

datatype detail = DId uuid | DText string

record event =
  ev_type :: string
  ev_actor :: uuid
  ev_subject_kind :: string
  ev_subject_id :: uuid
  ev_details :: "(string \<times> detail) list"

record world =
  w_db :: db
  w_outbox :: "event list"
  w_terminated :: "uuid list"

record Service =
  sv_audit :: bool
  sv_maxTTL :: duration

record clocks =
  at_query :: time
  at_tx :: time
  at_go :: time

datatype svc_error =
    ErrNotEligible | ErrNotRequestable | ErrAlreadyActive | ErrDuplicatePending | ErrNotPending
  | ErrNotApprover | ErrRequesterIneligible | ErrSelfApprove | ErrAlreadyVoted | ErrNotRequester
  | ErrGrantNotFound | ErrRevokeForbidden | ErrGrantInactive | ErrDatabase

datatype db_error = UniqueViolation | OtherViolation

record Request =
  rq_ID :: uuid
  rq_RequesterID :: uuid
  rq_RoleID :: uuid
  rq_AssetID :: uuid
  rq_Status :: request_status
  rq_RequiredApprovals :: int
  rq_ApprovalsSoFar :: int
  rq_Reason :: string
  rq_CreatedAt :: time
  rq_ResolvedAt :: "time option"
  rq_GrantID :: uuid

record Grant =
  gr_ID :: uuid
  gr_RoleID :: uuid
  gr_AssetID :: uuid
  gr_SubjectUserID :: uuid
  gr_GrantedAt :: time
  gr_ExpiresAt :: time
  gr_RevokedAt :: "time option"
  gr_RevokedReason :: string
  gr_Active :: bool

definition EventRequestCreated :: string where "EventRequestCreated = ''access_request.created''"
definition EventRequestApproved :: string where "EventRequestApproved = ''access_request.approved''"
definition EventRequestDenied :: string where "EventRequestDenied = ''access_request.denied''"
definition EventRequestCancelled :: string where "EventRequestCancelled = ''access_request.cancelled''"
definition EventGrantActivated :: string where "EventGrantActivated = ''access_grant.activated''"
definition EventGrantRevoked :: string where "EventGrantRevoked = ''access_grant.revoked''"
definition EventGrantExpired :: string where "EventGrantExpired = ''access_grant.expired''"

section \<open>Durations\<close>

definition go_microsecond :: duration where "go_microsecond = 1000"
definition go_second :: duration where "go_second = 1000000000"
definition go_minute :: duration where "go_minute = 60 * go_second"
definition go_hour :: duration where "go_hour = 60 * go_minute"

definition NewService :: "bool \<Rightarrow> duration \<Rightarrow> Service" where
  "NewService audit maxTTL =
     \<lparr>sv_audit = audit, sv_maxTTL = (if maxTTL \<le> 0 then 8 * go_hour else maxTTL)\<rparr>"

definition intervalToDuration :: "pg_interval option \<Rightarrow> duration option" where
  "intervalToDuration iv = (case iv of
     None \<Rightarrow> None
   | Some v \<Rightarrow>
       (let day = 24 * go_hour;
            d = i64 (i64 (i64 (i64 (iv_months v * 30) * day) + i64 (iv_days v * day)) +
                     i64 (iv_microseconds v * go_microsecond))
        in if d \<le> 0 then None else Some d))"

definition clamp :: "Service \<Rightarrow> duration \<Rightarrow> pg_interval option \<Rightarrow> duration" where
  "clamp s dur ruleMax =
     (let granted = dur;
          granted = (case intervalToDuration ruleMax of
             Some ceiling \<Rightarrow> if granted > ceiling then ceiling else granted
           | None \<Rightarrow> granted)
      in if granted > sv_maxTTL s then sv_maxTTL s else granted)"

text \<open>Go's integer division truncates toward zero.\<close>

definition go_div :: "int \<Rightarrow> int \<Rightarrow> int" where
  "go_div a b = (if a < 0 then - ((- a) div b) else a div b)"

definition durationToInterval :: "duration \<Rightarrow> pg_interval" where
  "durationToInterval d =
     \<lparr>iv_months = 0, iv_days = 0, iv_microseconds = go_div d go_microsecond\<rparr>"

definition mustDuration :: "pg_interval \<Rightarrow> duration" where
  "mustDuration iv = (case intervalToDuration (Some iv) of Some d \<Rightarrow> d | None \<Rightarrow> go_minute)"

text \<open>A timestamp column keeps microseconds.\<close>

definition pg_timestamp :: "time \<Rightarrow> time" where
  "pg_timestamp t = (t div 1000) * 1000"

section \<open>Results\<close>

definition toRequest :: "access_request \<Rightarrow> int \<Rightarrow> uuid \<Rightarrow> Request" where
  "toRequest r approvals grantID = \<lparr>
     rq_ID = ar_id r, rq_RequesterID = ar_requester r, rq_RoleID = ar_role r,
     rq_AssetID = ar_asset r, rq_Status = ar_status r,
     rq_RequiredApprovals = ar_required_approvals r, rq_ApprovalsSoFar = approvals,
     rq_Reason = ar_reason r, rq_CreatedAt = ar_created_at r,
     rq_ResolvedAt = ar_resolved_at r, rq_GrantID = grantID\<rparr>"

definition toGrant :: "time \<Rightarrow> access_grant \<Rightarrow> Grant" where
  "toGrant go_now g = \<lparr>
     gr_ID = ag_id g, gr_RoleID = ag_role g, gr_AssetID = ag_asset g,
     gr_SubjectUserID = ag_subject g, gr_GrantedAt = ag_granted_at g,
     gr_ExpiresAt = ag_expires_at g, gr_RevokedAt = ag_revoked_at g,
     gr_RevokedReason = (case ag_revoked_reason g of Some s \<Rightarrow> s | None \<Rightarrow> []),
     gr_Active = (ag_revoked_at g = None \<and> ag_expires_at g > go_now)\<rparr>"

definition toGrants :: "time \<Rightarrow> access_grant list \<Rightarrow> Grant list" where
  "toGrants go_now rows = map (toGrant go_now) rows"

section \<open>Audit\<close>

fun status_text :: "request_status \<Rightarrow> string" where
  "status_text Pending = ''pending''"
| "status_text Granted = ''granted''"
| "status_text Denied = ''denied''"
| "status_text Cancelled = ''cancelled''"

definition audit_enqueue :: "Service \<Rightarrow> event \<Rightarrow> world \<Rightarrow> world" where
  "audit_enqueue s e w = (if sv_audit s then w\<lparr>w_outbox := w_outbox w @ [e]\<rparr> else w)"

definition enqueue :: "Service \<Rightarrow> string \<Rightarrow> uuid \<Rightarrow> access_request \<Rightarrow> world \<Rightarrow> world" where
  "enqueue s eventType actor req = audit_enqueue s \<lparr>
     ev_type = eventType, ev_actor = actor,
     ev_subject_kind = ''access_request'', ev_subject_id = ar_id req,
     ev_details = [(''request_id'', DId (ar_id req)), (''role_id'', DId (ar_role req)),
       (''asset_id'', DId (ar_asset req)), (''requester'', DId (ar_requester req)),
       (''status'', DText (status_text (ar_status req)))]\<rparr>"

definition enqueueGrant :: "Service \<Rightarrow> uuid \<Rightarrow> access_request \<Rightarrow> uuid \<Rightarrow> world \<Rightarrow> world" where
  "enqueueGrant s actor req grantID = audit_enqueue s \<lparr>
     ev_type = EventGrantActivated, ev_actor = actor,
     ev_subject_kind = ''access_grant'', ev_subject_id = grantID,
     ev_details = [(''request_id'', DId (ar_id req)), (''grant_id'', DId grantID),
       (''role_id'', DId (ar_role req)), (''asset_id'', DId (ar_asset req)),
       (''subject'', DId (ar_requester req))]\<rparr>"

definition enqueueRevoked :: "Service \<Rightarrow> uuid \<Rightarrow> access_grant \<Rightarrow> world \<Rightarrow> world" where
  "enqueueRevoked s actor g = audit_enqueue s \<lparr>
     ev_type = EventGrantRevoked, ev_actor = actor,
     ev_subject_kind = ''access_grant'', ev_subject_id = ag_id g,
     ev_details = [(''grant_id'', DId (ag_id g)), (''request_id'', DId (ag_request g)),
       (''role_id'', DId (ag_role g)), (''asset_id'', DId (ag_asset g)),
       (''subject'', DId (ag_subject g)),
       (''reason'', DText (case ag_revoked_reason g of Some r \<Rightarrow> r | None \<Rightarrow> []))]\<rparr>"

definition enqueueExpired :: "Service \<Rightarrow> access_grant \<Rightarrow> world \<Rightarrow> world" where
  "enqueueExpired s g = audit_enqueue s \<lparr>
     ev_type = EventGrantExpired, ev_actor = uuid_nil,
     ev_subject_kind = ''access_grant'', ev_subject_id = ag_id g,
     ev_details = [(''grant_id'', DId (ag_id g)), (''request_id'', DId (ag_request g)),
       (''role_id'', DId (ag_role g)), (''asset_id'', DId (ag_asset g)),
       (''subject'', DId (ag_subject g))]\<rparr>"

definition terminate :: "uuid \<Rightarrow> world \<Rightarrow> world" where
  "terminate grantID w = w\<lparr>w_terminated := w_terminated w @ [grantID]\<rparr>"

section \<open>Queries\<close>

definition GetAccessRequest :: "db \<Rightarrow> uuid \<Rightarrow> access_request option" where
  "GetAccessRequest d rid = find (\<lambda>r. ar_id r = rid) (access_requests d)"

definition pending_duplicate :: "access_request \<Rightarrow> access_request \<Rightarrow> bool" where
  "pending_duplicate r r' = (ar_status r = Pending \<and> ar_status r' = Pending \<and>
     ar_requester r = ar_requester r' \<and> ar_role r = ar_role r' \<and> ar_asset r = ar_asset r')"

text \<open>Insert: primary key and \<open>uq_pending_request\<close>, then the foreign keys.\<close>

definition CreateAccessRequest :: "db \<Rightarrow> access_request \<Rightarrow> db_error + db" where
  "CreateAccessRequest d r =
     (if list_ex (\<lambda>r'. ar_id r' = ar_id r \<or> pending_duplicate r r') (access_requests d)
        then Inl UniqueViolation
      else if \<not> (list_ex (\<lambda>u. u_id u = ar_requester r) (users d) \<and>
                 list_ex (\<lambda>x. r_id x = ar_role r) (roles d) \<and>
                 list_ex (\<lambda>a. a_id a = ar_asset r) (assets d))
        then Inl OtherViolation
      else Inr (d\<lparr>access_requests := access_requests d @ [r]\<rparr>))"

definition SetAccessRequestStatus :: "db \<Rightarrow> request_status \<Rightarrow> time \<Rightarrow> uuid \<Rightarrow> db" where
  "SetAccessRequestStatus d st resolved rid =
     d\<lparr>access_requests := map (\<lambda>r. if ar_id r = rid
         then r\<lparr>ar_status := st, ar_resolved_at := Some (pg_timestamp resolved)\<rparr> else r)
       (access_requests d)\<rparr>"

definition AddApproval :: "db \<Rightarrow> uuid \<Rightarrow> uuid \<Rightarrow> vote_decision \<Rightarrow> db_error + db" where
  "AddApproval d rid approver decision =
     (if list_ex (\<lambda>a. ap_request a = rid \<and> ap_approver a = approver) (request_approvals d)
        then Inl UniqueViolation
      else if \<not> (list_ex (\<lambda>r. ar_id r = rid) (access_requests d) \<and>
                 list_ex (\<lambda>u. u_id u = approver) (users d))
        then Inl OtherViolation
      else Inr (d\<lparr>request_approvals := request_approvals d @
             [\<lparr>ap_request = rid, ap_approver = approver, ap_decision = decision\<rparr>]\<rparr>))"

definition CountApprovals :: "db \<Rightarrow> uuid \<Rightarrow> int" where
  "CountApprovals d rid = int (length
     (filter (\<lambda>a. ap_request a = rid \<and> ap_decision a = Approve) (request_approvals d)))"

definition CreateAccessGrant :: "db \<Rightarrow> access_grant \<Rightarrow> db_error + db" where
  "CreateAccessGrant d g =
     (if list_ex (\<lambda>g'. ag_id g' = ag_id g \<or> ag_request g' = ag_request g) (access_grants d)
        then Inl UniqueViolation
      else if \<not> (list_ex (\<lambda>r. ar_id r = ag_request g) (access_requests d) \<and>
                 list_ex (\<lambda>u. u_id u = ag_subject g) (users d) \<and>
                 list_ex (\<lambda>x. r_id x = ag_role g) (roles d) \<and>
                 list_ex (\<lambda>a. a_id a = ag_asset g) (assets d))
        then Inl OtherViolation
      else Inr (d\<lparr>access_grants := access_grants d @ [g]\<rparr>))"

definition GetGrant :: "db \<Rightarrow> uuid \<Rightarrow> access_grant option" where
  "GetGrant d gid = find (\<lambda>g. ag_id g = gid) (access_grants d)"

definition GetGrantByRequest :: "db \<Rightarrow> uuid \<Rightarrow> access_grant option" where
  "GetGrantByRequest d rid = find (\<lambda>g. ag_request g = rid) (access_grants d)"

text \<open>
  \<open>UPDATE access_grants SET revoked_at = now(), ... WHERE cond RETURNING *\<close>: the changed rows and
  the new table. \<open>ExpireGrants\<close> leaves \<open>revoked_by\<close> as it is.
\<close>

definition stamp_revoked :: "time \<Rightarrow> uuid option \<Rightarrow> string \<Rightarrow> access_grant \<Rightarrow> access_grant" where
  "stamp_revoked now by reason g =
     g\<lparr>ag_revoked_at := Some now,
       ag_revoked_by := (case by of Some a \<Rightarrow> Some a | None \<Rightarrow> ag_revoked_by g),
       ag_revoked_reason := Some reason\<rparr>"

definition update_grants ::
  "(access_grant \<Rightarrow> bool) \<Rightarrow> (access_grant \<Rightarrow> access_grant) \<Rightarrow> db \<Rightarrow> access_grant list \<times> db" where
  "update_grants cond f d =
     (map f (filter cond (access_grants d)),
      d\<lparr>access_grants := map (\<lambda>g. if cond g then f g else g) (access_grants d)\<rparr>)"

definition RevokeGrant_q :: "db \<Rightarrow> time \<Rightarrow> uuid \<Rightarrow> uuid \<Rightarrow> string \<Rightarrow> access_grant list \<times> db" where
  "RevokeGrant_q d now gid by reason =
     update_grants (\<lambda>g. ag_id g = gid \<and> ag_revoked_at g = None) (stamp_revoked now (Some by) reason) d"

definition RevokeActiveGrantsForUser ::
  "db \<Rightarrow> time \<Rightarrow> uuid \<Rightarrow> uuid \<Rightarrow> string \<Rightarrow> access_grant list \<times> db" where
  "RevokeActiveGrantsForUser d now user by reason =
     update_grants (\<lambda>g. ag_subject g = user \<and> ag_revoked_at g = None)
       (stamp_revoked now (Some by) reason) d"

definition RevokeActiveGrantsForRole ::
  "db \<Rightarrow> time \<Rightarrow> uuid \<Rightarrow> uuid \<Rightarrow> string \<Rightarrow> access_grant list \<times> db" where
  "RevokeActiveGrantsForRole d now role by reason =
     update_grants (\<lambda>g. ag_role g = role \<and> ag_revoked_at g = None \<and> ag_expires_at g > now)
       (stamp_revoked now (Some by) reason) d"

definition ExpireGrants :: "db \<Rightarrow> time \<Rightarrow> access_grant list \<times> db" where
  "ExpireGrants d now =
     update_grants (\<lambda>g. ag_revoked_at g = None \<and> ag_expires_at g \<le> now)
       (stamp_revoked now None ''expired'') d"

section \<open>Requests\<close>

definition mintGrant ::
  "clocks \<Rightarrow> uuid \<Rightarrow> db \<Rightarrow> access_request \<Rightarrow> duration \<Rightarrow> db_error + (access_grant \<times> db)" where
  "mintGrant ck gid d req granted =
     (let g = \<lparr>ag_id = gid, ag_request = ar_id req, ag_role = ar_role req, ag_asset = ar_asset req,
               ag_subject = ar_requester req, ag_granted_at = at_tx ck,
               ag_expires_at = pg_timestamp (at_go ck + granted), ag_revoked_at = None,
               ag_revoked_by = None, ag_revoked_reason = None\<rparr>
      in case CreateAccessGrant d g of Inl e \<Rightarrow> Inl e | Inr d' \<Rightarrow> Inr (g, d'))"

definition RequestAccess ::
  "Service \<Rightarrow> clocks \<Rightarrow> uuid \<Rightarrow> uuid \<Rightarrow> world \<Rightarrow> uuid \<Rightarrow> uuid \<Rightarrow> uuid \<Rightarrow> duration \<Rightarrow> string \<Rightarrow>
     svc_error + (Request \<times> world)" where
  "RequestAccess s ck req_id grant_id w requester roleID assetID dur reason =
     (if \<not> IsEligibleRequester (w_db w) requester roleID assetID then Inl ErrNotEligible
      else case EffectiveRule (w_db w) roleID assetID of
        None \<Rightarrow> Inl ErrNotRequestable
      | Some rule \<Rightarrow>
          if HoldsRole (w_db w) (at_query ck) requester roleID KAsset assetID then Inl ErrAlreadyActive
          else
            let granted = clamp s dur (rule_MaxDuration rule) in
            if granted \<le> 0 then Inl ErrNotRequestable
            else
              let selfService = (rule_RequiredApprovals rule = 0);
                  req = \<lparr>ar_id = req_id, ar_requester = requester, ar_role = roleID,
                         ar_asset = assetID, ar_reason = reason,
                         ar_requested_duration = durationToInterval dur,
                         ar_required_approvals = rule_RequiredApprovals rule,
                         ar_granted_duration = durationToInterval granted,
                         ar_status = (if selfService then Granted else Pending),
                         ar_created_at = at_tx ck, ar_resolved_at = None\<rparr>
              in case CreateAccessRequest (w_db w) req of
                   Inl UniqueViolation \<Rightarrow> Inl ErrDuplicatePending
                 | Inl OtherViolation \<Rightarrow> Inl ErrDatabase
                 | Inr d1 \<Rightarrow>
                     if selfService then
                       (case mintGrant ck grant_id d1 req granted of
                          Inl _ \<Rightarrow> Inl ErrDatabase
                        | Inr (grant, d2) \<Rightarrow>
                            let d3 = SetAccessRequestStatus d2 Granted (at_go ck) (ar_id req);
                                w1 = enqueue s EventRequestCreated requester req (w\<lparr>w_db := d3\<rparr>);
                                w2 = enqueueGrant s requester req (ag_id grant) w1
                            in Inr (toRequest req 0 (ag_id grant), w2))
                     else
                       let w1 = enqueue s EventRequestCreated requester req (w\<lparr>w_db := d1\<rparr>)
                       in Inr (toRequest req 0 uuid_nil, w1))"

text \<open>The steps of \<open>vote\<close> after the vote is recorded: denial, or the threshold check.\<close>

definition vote_deny ::
  "Service \<Rightarrow> clocks \<Rightarrow> world \<Rightarrow> db \<Rightarrow> access_request \<Rightarrow> uuid \<Rightarrow> svc_error + (Request \<times> world)" where
  "vote_deny s ck w d1 req approver =
     (let d2 = SetAccessRequestStatus d1 Denied (at_go ck) (ar_id req);
          req' = req\<lparr>ar_status := Denied\<rparr>;
          approvalsSoFar = CountApprovals d2 (ar_id req);
          w1 = enqueue s EventRequestDenied approver req' (w\<lparr>w_db := d2\<rparr>)
      in Inr (toRequest req' approvalsSoFar uuid_nil, w1))"

definition vote_approve ::
  "Service \<Rightarrow> clocks \<Rightarrow> uuid \<Rightarrow> world \<Rightarrow> db \<Rightarrow> access_request \<Rightarrow> uuid \<Rightarrow>
     svc_error + (Request \<times> world)" where
  "vote_approve s ck grant_id w d1 req approver =
     (if CountApprovals d1 (ar_id req) \<ge> ar_required_approvals req then
        (case mintGrant ck grant_id d1 req (mustDuration (ar_granted_duration req)) of
           Inl _ \<Rightarrow> Inl ErrDatabase
         | Inr (gr, d2) \<Rightarrow>
             let d3 = SetAccessRequestStatus d2 Granted (at_go ck) (ar_id req);
                 req' = req\<lparr>ar_status := Granted\<rparr>;
                 approvalsSoFar = CountApprovals d3 (ar_id req);
                 w1 = enqueue s EventRequestApproved approver req' (w\<lparr>w_db := d3\<rparr>);
                 w2 = enqueueGrant s approver req' (ag_id gr) w1
             in Inr (toRequest req' approvalsSoFar (ag_id gr), w2))
      else
        let approvalsSoFar = CountApprovals d1 (ar_id req);
            w1 = enqueue s EventRequestApproved approver req (w\<lparr>w_db := d1\<rparr>)
        in Inr (toRequest req approvalsSoFar uuid_nil, w1))"

definition vote ::
  "Service \<Rightarrow> clocks \<Rightarrow> uuid \<Rightarrow> world \<Rightarrow> uuid \<Rightarrow> uuid \<Rightarrow> vote_decision \<Rightarrow>
     svc_error + (Request \<times> world)" where
  "vote s ck grant_id w approver requestID decision =
     (case GetAccessRequest (w_db w) requestID of
        None \<Rightarrow> Inl ErrNotPending
      | Some req \<Rightarrow>
          if ar_status req \<noteq> Pending then Inl ErrNotPending
          else if \<not> IsApprover (w_db w) approver (ar_role req) (ar_asset req) then Inl ErrNotApprover
          else if approver = ar_requester req then Inl ErrSelfApprove
          else if decision = Approve \<and>
                  \<not> IsEligibleRequester (w_db w) (ar_requester req) (ar_role req) (ar_asset req)
            then Inl ErrRequesterIneligible
          else (case AddApproval (w_db w) requestID approver decision of
             Inl UniqueViolation \<Rightarrow> Inl ErrAlreadyVoted
           | Inl OtherViolation \<Rightarrow> Inl ErrDatabase
           | Inr d1 \<Rightarrow> (case decision of
               Deny \<Rightarrow> vote_deny s ck w d1 req approver
             | Approve \<Rightarrow> vote_approve s ck grant_id w d1 req approver)))"

definition Approve_op ::
  "Service \<Rightarrow> clocks \<Rightarrow> uuid \<Rightarrow> world \<Rightarrow> uuid \<Rightarrow> uuid \<Rightarrow> svc_error + (Request \<times> world)" where
  "Approve_op s ck grant_id w approver requestID = vote s ck grant_id w approver requestID Approve"

definition Deny_op ::
  "Service \<Rightarrow> clocks \<Rightarrow> world \<Rightarrow> uuid \<Rightarrow> uuid \<Rightarrow> svc_error + (Request \<times> world)" where
  "Deny_op s ck w approver requestID = vote s ck uuid_nil w approver requestID Deny"

definition Cancel :: "Service \<Rightarrow> clocks \<Rightarrow> world \<Rightarrow> uuid \<Rightarrow> uuid \<Rightarrow> svc_error + world" where
  "Cancel s ck w requester requestID =
     (case GetAccessRequest (w_db w) requestID of
        None \<Rightarrow> Inl ErrNotPending
      | Some req \<Rightarrow>
          if ar_requester req \<noteq> requester then Inl ErrNotRequester
          else if ar_status req \<noteq> Pending then Inl ErrNotPending
          else
            let d1 = SetAccessRequestStatus (w_db w) Cancelled (at_go ck) requestID;
                req' = req\<lparr>ar_status := Cancelled\<rparr>
            in Inr (enqueue s EventRequestCancelled requester req' (w\<lparr>w_db := d1\<rparr>)))"

section \<open>Grants\<close>

definition RevokeGrant ::
  "Service \<Rightarrow> clocks \<Rightarrow> world \<Rightarrow> uuid \<Rightarrow> bool \<Rightarrow> uuid \<Rightarrow> string \<Rightarrow> svc_error + (access_grant \<times> world)" where
  "RevokeGrant s ck w caller mgmtAuthorized grantID reason =
     (case GetGrant (w_db w) grantID of
        None \<Rightarrow> Inl ErrGrantNotFound
      | Some g \<Rightarrow>
          let authorized = (mgmtAuthorized \<or> ag_subject g = caller);
              authorized = (if authorized then True
                else IsApprover (w_db w) caller (ag_role g) (ag_asset g))
          in if \<not> authorized then Inl ErrRevokeForbidden
             else (case RevokeGrant_q (w_db w) (at_tx ck) grantID caller reason of
                 ([], _) \<Rightarrow> Inl ErrGrantInactive
               | (revoked # _, d1) \<Rightarrow>
                   let w1 = enqueueRevoked s caller revoked (w\<lparr>w_db := d1\<rparr>)
                   in Inr (revoked, terminate (ag_id revoked) w1)))"

definition terminate_all :: "access_grant list \<Rightarrow> world \<Rightarrow> world" where
  "terminate_all gs w = fold (\<lambda>g. terminate (ag_id g)) gs w"

definition RevokeGrantsForUser ::
  "Service \<Rightarrow> clocks \<Rightarrow> world \<Rightarrow> uuid \<Rightarrow> uuid \<Rightarrow> string \<Rightarrow> int \<times> world" where
  "RevokeGrantsForUser s ck w actor userID reason =
     (let (revoked, d1) = RevokeActiveGrantsForUser (w_db w) (at_tx ck) userID actor reason;
          w1 = fold (enqueueRevoked s actor) revoked (w\<lparr>w_db := d1\<rparr>)
      in (int (length revoked), terminate_all revoked w1))"

definition ReapExpired :: "Service \<Rightarrow> clocks \<Rightarrow> world \<Rightarrow> int \<times> world" where
  "ReapExpired s ck w =
     (let (expired, d1) = ExpireGrants (w_db w) (at_tx ck);
          w1 = fold (enqueueExpired s) expired (w\<lparr>w_db := d1\<rparr>)
      in (int (length expired), terminate_all expired w1))"

text \<open>The statements of the role deletion, in their order.\<close>

definition DeleteRoleBindingsForRole :: "db \<Rightarrow> uuid \<Rightarrow> db" where
  "DeleteRoleBindingsForRole d role =
     d\<lparr>role_bindings := filter (\<lambda>rb. rb_role rb \<noteq> role) (role_bindings d)\<rparr>"

definition DeleteRoleGrantsForRole :: "db \<Rightarrow> uuid \<Rightarrow> db" where
  "DeleteRoleGrantsForRole d role =
     d\<lparr>role_grants := filter (\<lambda>rg. \<not> (rg_role rg = role \<or> rg_source rg = role)) (role_grants d)\<rparr>"

definition DeletePolicySubjectsForRole :: "db \<Rightarrow> uuid \<Rightarrow> db" where
  "DeletePolicySubjectsForRole d role =
     d\<lparr>policy_subjects := filter (\<lambda>ps. \<not> list_ex (\<lambda>rp. rp_role rp = role \<and> rp_id rp = ps_policy ps)
         (request_policies d)) (policy_subjects d)\<rparr>"

definition DeletePoliciesForRole :: "db \<Rightarrow> uuid \<Rightarrow> db" where
  "DeletePoliciesForRole d role =
     d\<lparr>request_policies := filter (\<lambda>rp. rp_role rp \<noteq> role) (request_policies d),
       policy_subjects := filter (\<lambda>ps. \<not> list_ex (\<lambda>rp. rp_role rp = role \<and> rp_id rp = ps_policy ps)
         (request_policies d)) (policy_subjects d)\<rparr>"

definition NullRequesterRoleForRole :: "db \<Rightarrow> uuid \<Rightarrow> db" where
  "NullRequesterRoleForRole d role =
     d\<lparr>request_policies := map (\<lambda>rp. if sql_eq (rp_requester_role rp) (Some role)
         then rp\<lparr>rp_requester_role := None\<rparr> else rp) (request_policies d)\<rparr>"

definition NullApproverRoleForRole :: "db \<Rightarrow> uuid \<Rightarrow> db" where
  "NullApproverRoleForRole d role =
     d\<lparr>request_policies := map (\<lambda>rp. if sql_eq (rp_approver_role rp) (Some role)
         then rp\<lparr>rp_approver_role := None\<rparr> else rp) (request_policies d)\<rparr>"

text \<open>
  \<open>DELETE FROM roles\<close> with its foreign keys: refused while a policy names the role as requester or
  approver role (RESTRICT); otherwise every row that references the role goes, and the votes and
  grants of a deleted request with it (CASCADE).
\<close>

definition DeleteRole_q :: "db \<Rightarrow> uuid \<Rightarrow> db option" where
  "DeleteRole_q d role =
     (if list_ex (\<lambda>rp. rp_role rp \<noteq> role \<and> (rp_requester_role rp = Some role \<or>
           rp_approver_role rp = Some role)) (request_policies d) then None
      else
        let gone = map ar_id (filter (\<lambda>r. ar_role r = role) (access_requests d));
            d1 = DeleteRoleGrantsForRole (DeleteRoleBindingsForRole (DeletePoliciesForRole d role) role) role
        in Some (d1\<lparr>
             roles := filter (\<lambda>r. r_id r \<noteq> role) (roles d),
             role_capabilities := filter (\<lambda>rc. rc_role rc \<noteq> role) (role_capabilities d),
             access_requests := filter (\<lambda>r. ar_role r \<noteq> role) (access_requests d),
             request_approvals := filter (\<lambda>a. ap_request a \<notin> set gone) (request_approvals d),
             access_grants := filter (\<lambda>g. ag_role g \<noteq> role \<and> ag_request g \<notin> set gone)
               (access_grants d)\<rparr>))"

definition DeleteRoleCascade ::
  "Service \<Rightarrow> clocks \<Rightarrow> world \<Rightarrow> uuid \<Rightarrow> uuid \<Rightarrow> svc_error + world" where
  "DeleteRoleCascade s ck w actor roleID =
     (let (revoked, d1) = RevokeActiveGrantsForRole (w_db w) (at_tx ck) roleID actor ''role_deleted'';
          w1 = fold (enqueueRevoked s actor) revoked w;
          d2 = DeleteRoleBindingsForRole d1 roleID;
          d3 = DeleteRoleGrantsForRole d2 roleID;
          d4 = DeletePolicySubjectsForRole d3 roleID;
          d5 = DeletePoliciesForRole d4 roleID;
          d6 = NullRequesterRoleForRole d5 roleID;
          d7 = NullApproverRoleForRole d6 roleID
      in case DeleteRole_q d7 roleID of
           None \<Rightarrow> Inl ErrDatabase
         | Some d8 \<Rightarrow> Inr (terminate_all revoked (w1\<lparr>w_db := d8\<rparr>)))"

section \<open>Review\<close>

definition request_key :: "access_request \<Rightarrow> time \<times> uuid" where
  "request_key r = (ar_created_at r, ar_id r)"

definition grant_key :: "access_grant \<Rightarrow> time \<times> uuid" where
  "grant_key g = (ag_granted_at g, ag_id g)"

definition ListAccessRequestsByRequester :: "db \<Rightarrow> uuid \<Rightarrow> access_request list" where
  "ListAccessRequestsByRequester d requester =
     order_desc request_key (filter (\<lambda>r. ar_requester r = requester) (access_requests d))"

definition ListAccessRequestsByRequesterPaged :: "db \<Rightarrow> uuid \<Rightarrow> PageParams \<Rightarrow> access_request list" where
  "ListAccessRequestsByRequesterPaged d requester page =
     sql_page request_key page (filter (\<lambda>r. ar_requester r = requester) (access_requests d))"

definition ListPendingRequestsPaged :: "db \<Rightarrow> PageParams \<Rightarrow> access_request list" where
  "ListPendingRequestsPaged d page =
     sql_page request_key page (filter (\<lambda>r. ar_status r = Pending) (access_requests d))"

definition grantIDFor :: "db \<Rightarrow> access_request \<Rightarrow> uuid" where
  "grantIDFor d r =
     (if ar_status r \<noteq> Granted then uuid_nil
      else case GetGrantByRequest d (ar_id r) of None \<Rightarrow> uuid_nil | Some g \<Rightarrow> ag_id g)"

definition ListMyRequests :: "db \<Rightarrow> uuid \<Rightarrow> Request list" where
  "ListMyRequests d requester =
     map (\<lambda>r. toRequest r (CountApprovals d (ar_id r)) (grantIDFor d r))
       (ListAccessRequestsByRequester d requester)"

definition ListMyRequestsPaged :: "db \<Rightarrow> uuid \<Rightarrow> PageParams \<Rightarrow> Request list" where
  "ListMyRequestsPaged d requester page =
     map (\<lambda>r. toRequest r (CountApprovals d (ar_id r)) (grantIDFor d r))
       (ListAccessRequestsByRequesterPaged d requester page)"

text \<open>
  The query behind the approval inbox. \<open>restrict\<close> is NULL for all pending requests. The inner join
  with the effective policies drops a request whose role has none on its asset; the count of
  approvals comes from a grouped subquery, 0 when there is no group.
\<close>

definition approver_by :: "db \<Rightarrow> time \<Rightarrow> uuid \<Rightarrow> uuid \<Rightarrow> request_policy \<Rightarrow> bool" where
  "approver_by d now caller asset e =
     (list_ex (\<lambda>sub. ps_policy sub = rp_id e \<and> ps_kind sub = Approver \<and> subject_matches d caller sub)
        (policy_subjects d) \<or>
      (case rp_approver_role e of
         Some r \<Rightarrow> list_ex (\<lambda>(hr, k, oid). hr = r \<and> k = KAsset \<and> sql_eq oid (Some asset))
           (authz_held_standing d now caller)
       | None \<Rightarrow> False))"

definition ApprovablePending ::
  "db \<Rightarrow> time \<Rightarrow> uuid \<Rightarrow> uuid list option \<Rightarrow> (access_request \<times> int) list" where
  "ApprovablePending d now caller restrict =
     order_desc (\<lambda>(r, n). request_key r)
       (map (\<lambda>r. (r, CountApprovals d (ar_id r)))
         (filter (\<lambda>r. authz_user_is_active d caller \<and>
             (case authz_effective_request_policy d (ar_role r) (ar_asset r) of
                None \<Rightarrow> False
              | Some e \<Rightarrow> approver_by d now caller (ar_asset r) e))
           (filter (\<lambda>r. ar_status r = Pending \<and> ar_requester r \<noteq> caller \<and>
               (case restrict of None \<Rightarrow> True | Some ids \<Rightarrow> ar_id r \<in> set ids))
             (access_requests d))))"

definition approvablePending :: "db \<Rightarrow> time \<Rightarrow> uuid \<Rightarrow> uuid list option \<Rightarrow> Request list" where
  "approvablePending d now caller restrict =
     map (\<lambda>(r, n). toRequest r n uuid_nil) (ApprovablePending d now caller restrict)"

definition ListPendingApprovals :: "db \<Rightarrow> time \<Rightarrow> uuid \<Rightarrow> Request list" where
  "ListPendingApprovals d now caller = approvablePending d now caller None"

definition ListPendingApprovalsPaged ::
  "db \<Rightarrow> time \<Rightarrow> uuid \<Rightarrow> PageParams \<Rightarrow> Request list \<times> PageCursor option" where
  "ListPendingApprovalsPaged d now caller page =
     (let rows = ListPendingRequestsPaged d page;
          next = next_cursor request_key page rows
      in if rows = [] then ([], next)
         else (approvablePending d now caller (Some (map ar_id rows)), next))"

datatype ReqEntityKind = ReqEntityAsset | ReqEntityRole

definition ListPendingRequestsByAsset :: "db \<Rightarrow> uuid \<Rightarrow> access_request list" where
  "ListPendingRequestsByAsset d asset =
     filter (\<lambda>r. ar_status r = Pending \<and> ar_asset r = asset) (access_requests d)"

definition ListPendingRequestsByRole :: "db \<Rightarrow> uuid \<Rightarrow> access_request list" where
  "ListPendingRequestsByRole d role =
     filter (\<lambda>r. ar_status r = Pending \<and> ar_role r = role) (access_requests d)"

definition pending_parties :: "db \<Rightarrow> ReqEntityKind \<Rightarrow> uuid \<Rightarrow> access_request list" where
  "pending_parties d kind eid = (case kind of
     ReqEntityAsset \<Rightarrow> ListPendingRequestsByAsset d eid
   | ReqEntityRole \<Rightarrow> ListPendingRequestsByRole d eid)"

fun party_loop :: "db \<Rightarrow> uuid \<Rightarrow> access_request list \<Rightarrow> bool" where
  "party_loop d caller [] = False"
| "party_loop d caller (p # ps) =
     (if ar_requester p = caller then
        (if authz_user_is_active d caller then True else party_loop d caller ps)
      else if IsApprover d caller (ar_role p) (ar_asset p) then True
      else party_loop d caller ps)"

definition CanReadForRequest :: "db \<Rightarrow> uuid \<Rightarrow> ReqEntityKind \<Rightarrow> uuid \<Rightarrow> bool" where
  "CanReadForRequest d caller kind eid = party_loop d caller (pending_parties d kind eid)"

definition CanReviewGrant :: "db \<Rightarrow> uuid \<Rightarrow> uuid \<Rightarrow> bool" where
  "CanReviewGrant d caller grantID = (case GetGrant d grantID of
     None \<Rightarrow> False
   | Some g \<Rightarrow> if ag_subject g = caller then True
       else IsApprover d caller (ag_role g) (ag_asset g))"

definition ReviewableGrants :: "db \<Rightarrow> time \<Rightarrow> uuid \<Rightarrow> uuid list option \<Rightarrow> access_grant list" where
  "ReviewableGrants d now caller restrict =
     order_desc grant_key
       (filter (\<lambda>g. ag_subject g = caller \<or>
           authz_user_is_active d caller \<and>
           (case authz_effective_request_policy d (ag_role g) (ag_asset g) of
              None \<Rightarrow> False
            | Some e \<Rightarrow> approver_by d now caller (ag_asset g) e))
         (filter (\<lambda>g. case restrict of None \<Rightarrow> True | Some ids \<Rightarrow> ag_id g \<in> set ids)
           (access_grants d)))"

definition reviewableGrants :: "db \<Rightarrow> time \<Rightarrow> time \<Rightarrow> uuid \<Rightarrow> uuid list option \<Rightarrow> Grant list" where
  "reviewableGrants d now go_now caller restrict =
     map (toGrant go_now) (ReviewableGrants d now caller restrict)"

definition grants_filtered :: "db \<Rightarrow> time \<Rightarrow> uuid option \<Rightarrow> bool \<Rightarrow> access_grant list" where
  "grants_filtered d now subject active_only = filter (\<lambda>g.
     (case subject of None \<Rightarrow> True | Some u \<Rightarrow> ag_subject g = u) \<and>
     (\<not> active_only \<or> ag_revoked_at g = None \<and> ag_expires_at g > now)) (access_grants d)"

definition ListGrantsFiltered :: "db \<Rightarrow> time \<Rightarrow> uuid option \<Rightarrow> bool \<Rightarrow> access_grant list" where
  "ListGrantsFiltered d now subject active_only =
     order_desc grant_key (grants_filtered d now subject active_only)"

definition ListGrantsFilteredPaged ::
  "db \<Rightarrow> time \<Rightarrow> uuid option \<Rightarrow> bool \<Rightarrow> PageParams \<Rightarrow> access_grant list" where
  "ListGrantsFilteredPaged d now subject active_only page =
     sql_page grant_key page (grants_filtered d now subject active_only)"

definition ListGrantsBySubject :: "db \<Rightarrow> uuid \<Rightarrow> access_grant list" where
  "ListGrantsBySubject d subject =
     order_desc grant_key (filter (\<lambda>g. ag_subject g = subject) (access_grants d))"

definition ListGrantsBySubjectPaged :: "db \<Rightarrow> uuid \<Rightarrow> PageParams \<Rightarrow> access_grant list" where
  "ListGrantsBySubjectPaged d subject page =
     sql_page grant_key page (filter (\<lambda>g. ag_subject g = subject) (access_grants d))"

definition ListReviewableGrantsPaged ::
  "db \<Rightarrow> time \<Rightarrow> time \<Rightarrow> uuid \<Rightarrow> PageParams \<Rightarrow> Grant list \<times> PageCursor option" where
  "ListReviewableGrantsPaged d now go_now caller page =
     (let rows = ListGrantsFilteredPaged d now None False page;
          next = next_cursor grant_key page rows
      in if rows = [] then ([], next)
         else (reviewableGrants d now go_now caller (Some (map ag_id rows)), next))"

definition ListMyGrants :: "db \<Rightarrow> time \<Rightarrow> uuid \<Rightarrow> Grant list" where
  "ListMyGrants d go_now subject = toGrants go_now (ListGrantsBySubject d subject)"

definition ListMyGrantsPaged :: "db \<Rightarrow> time \<Rightarrow> uuid \<Rightarrow> PageParams \<Rightarrow> Grant list" where
  "ListMyGrantsPaged d go_now subject page = toGrants go_now
     (ListGrantsBySubjectPaged d subject page)"

record GrantFilter =
  gf_Subject :: uuid
  gf_ActiveOnly :: bool

definition filter_subject :: "GrantFilter \<Rightarrow> uuid option" where
  "filter_subject f = (if gf_Subject f \<noteq> uuid_nil then Some (gf_Subject f) else None)"

definition ListGrantsPaged :: "db \<Rightarrow> time \<Rightarrow> time \<Rightarrow> GrantFilter \<Rightarrow> PageParams \<Rightarrow> Grant list" where
  "ListGrantsPaged d now go_now f page = toGrants go_now
     (ListGrantsFilteredPaged d now (filter_subject f) (gf_ActiveOnly f) page)"

definition ListGrants :: "db \<Rightarrow> time \<Rightarrow> time \<Rightarrow> GrantFilter \<Rightarrow> Grant list" where
  "ListGrants d now go_now f = toGrants go_now
     (ListGrantsFiltered d now (filter_subject f) (gf_ActiveOnly f))"

section \<open>Both tables are paged by their key\<close>

interpretation request_pages: keyset_table request_key ar_id
  by unfold_locales (simp add: request_key_def)

interpretation grant_pages: keyset_table grant_key ag_id
  by unfold_locales (simp add: grant_key_def)

end
