(* ===== verification/Access.thy ===== *)
theory Access
  imports Guard AccessRequest
begin

text \<open>
  The configuration of the access model (\<open>warden/internal/access\<close>): roles and their capabilities,
  rewrite rules, bindings, request policies with their subjects, and the roster of a policy. A
  write either fails with the code \<open>MapWrite\<close> gives the violated constraint or returns the new
  database. The parser of uuid strings belongs to a library and is a parameter.
\<close>

section \<open>Writes\<close>

datatype pg_write_error = WUnique | WForeignKey | WCheck | WNotNull

definition MapWrite :: "pg_write_error \<Rightarrow> connect_code" where
  "MapWrite e = (case e of
     WUnique \<Rightarrow> CodeAlreadyExists
   | WForeignKey \<Rightarrow> CodeInvalidArgument
   | WCheck \<Rightarrow> CodeInvalidArgument
   | WNotNull \<Rightarrow> CodeInternal)"

definition canon_char :: "char \<Rightarrow> bool" where
  "canon_char c = (c \<in> set ''abcdefghijklmnopqrstuvwxyz0123456789_-'')"

text \<open>The name CHECKs: \<open>^[a-z0-9_-]+$\<close>.\<close>

definition canon_name :: "string \<Rightarrow> bool" where
  "canon_name s = (s \<noteq> [] \<and> list_all canon_char s)"

definition folder_fk :: "db \<Rightarrow> uuid option \<Rightarrow> bool" where
  "folder_fk d fid = (case fid of None \<Rightarrow> True | Some i \<Rightarrow> list_ex (\<lambda>f. f_id f = i) (folders d))"

definition asset_fk :: "db \<Rightarrow> uuid option \<Rightarrow> bool" where
  "asset_fk d aid = (case aid of None \<Rightarrow> True | Some i \<Rightarrow> list_ex (\<lambda>a. a_id a = i) (assets d))"

definition role_fk :: "db \<Rightarrow> uuid option \<Rightarrow> bool" where
  "role_fk d rid = (case rid of None \<Rightarrow> True | Some i \<Rightarrow> list_ex (\<lambda>r. r_id r = i) (roles d))"

definition user_fk :: "db \<Rightarrow> uuid option \<Rightarrow> bool" where
  "user_fk d uid = (case uid of None \<Rightarrow> True | Some i \<Rightarrow> list_ex (\<lambda>u. u_id u = i) (users d))"

definition group_fk :: "db \<Rightarrow> uuid option \<Rightarrow> bool" where
  "group_fk d gid = (case gid of None \<Rightarrow> True | Some i \<Rightarrow> list_ex (\<lambda>g. g_id g = i) (groups d))"

text \<open>
  The inserts, with the checks, the unique indexes (names are unique among the global roles and
  within a folder) and then the foreign keys.
\<close>

definition CreateRole_q :: "db \<Rightarrow> role_row \<Rightarrow> pg_write_error + db" where
  "CreateRole_q d r =
     (if \<not> canon_name (r_name r) then Inl WCheck
      else if list_ex (\<lambda>r'. r_id r' = r_id r \<or> r_name r' = r_name r \<and> r_folder r' = r_folder r) (roles d)
        then Inl WUnique
      else if \<not> folder_fk d (r_folder r) then Inl WForeignKey
      else Inr (d\<lparr>roles := roles d @ [r]\<rparr>))"

text \<open>\<open>ON CONFLICT DO NOTHING\<close> on the primary key, which is the whole row.\<close>

definition InsertRoleCapability :: "db \<Rightarrow> uuid \<Rightarrow> cap_cols \<Rightarrow> db" where
  "InsertRoleCapability d rid cols =
     (if list_ex (\<lambda>rc. rc_role rc = rid \<and> rc_cols rc = cols) (role_capabilities d) then d
      else d\<lparr>role_capabilities := role_capabilities d @ [\<lparr>rc_role = rid, rc_cols = cols\<rparr>]\<rparr>)"

definition CreateRoleGrant :: "db \<Rightarrow> role_grant \<Rightarrow> pg_write_error + db" where
  "CreateRoleGrant d g =
     (if rg_role g = rg_source g \<and> rg_via g = ViaSameObject then Inl WCheck
      else if list_ex (\<lambda>g'. rg_id g' = rg_id g \<or> rg_role g' = rg_role g \<and>
          rg_source g' = rg_source g \<and> rg_via g' = rg_via g) (role_grants d) then Inl WUnique
      else if \<not> (role_fk d (Some (rg_role g)) \<and> role_fk d (Some (rg_source g))) then Inl WForeignKey
      else Inr (d\<lparr>role_grants := role_grants d @ [g]\<rparr>))"

definition one_subject :: "uuid option \<Rightarrow> uuid option \<Rightarrow> bool" where
  "one_subject user grp = ((user \<noteq> None) \<noteq> (grp \<noteq> None))"

definition CreateRoleBinding_q :: "db \<Rightarrow> role_binding \<Rightarrow> pg_write_error + db" where
  "CreateRoleBinding_q d b =
     (if \<not> (binding_check b \<and> one_subject (rb_subject_user b) (rb_subject_group b)) then Inl WCheck
      else if list_ex (\<lambda>b'. rb_id b' = rb_id b) (role_bindings d) then Inl WUnique
      else if \<not> (role_fk d (Some (rb_role b)) \<and> folder_fk d (rb_scope_folder b) \<and>
          asset_fk d (rb_scope_asset b) \<and> user_fk d (rb_subject_user b) \<and>
          group_fk d (rb_subject_group b)) then Inl WForeignKey
      else Inr (d\<lparr>role_bindings := role_bindings d @ [b]\<rparr>))"

text \<open>The unique indexes of the policies, on the role and scope and on the name and scope.\<close>

definition policy_conflict :: "request_policy \<Rightarrow> request_policy \<Rightarrow> bool" where
  "policy_conflict p p' = (rp_id p = rp_id p' \<or>
     rp_role p = rp_role p' \<and> rp_scope_folder p = rp_scope_folder p' \<and> rp_scope_asset p = rp_scope_asset p' \<or>
     rp_name p \<noteq> None \<and> rp_name p = rp_name p' \<and>
       (rp_scope_asset p \<noteq> None \<and> rp_scope_asset p = rp_scope_asset p' \<or>
        rp_scope_folder p \<noteq> None \<and> rp_scope_folder p = rp_scope_folder p'))"

definition CreateRequestPolicy_q :: "db \<Rightarrow> request_policy \<Rightarrow> pg_write_error + db" where
  "CreateRequestPolicy_q d p =
     (if \<not> (policy_check p \<and> (case rp_name p of None \<Rightarrow> True | Some n \<Rightarrow> canon_name n)) then Inl WCheck
      else if list_ex (policy_conflict p) (request_policies d) then Inl WUnique
      else if \<not> (role_fk d (Some (rp_role p)) \<and> folder_fk d (rp_scope_folder p) \<and>
          asset_fk d (rp_scope_asset p) \<and> role_fk d (rp_approver_role p) \<and>
          role_fk d (rp_requester_role p)) then Inl WForeignKey
      else Inr (d\<lparr>request_policies := request_policies d @ [p]\<rparr>))"

text \<open>\<open>UPDATE ... RETURNING\<close>: no row is \<open>pgx.ErrNoRows\<close>, which \<open>MapWrite\<close> does not know.\<close>

definition UpdateRequestPolicy_q ::
  "db \<Rightarrow> uuid \<Rightarrow> int \<Rightarrow> uuid option \<Rightarrow> uuid option \<Rightarrow> pg_interval option \<Rightarrow>
     connect_code + (request_policy \<times> db)" where
  "UpdateRequestPolicy_q d pid approvals approver requester dur =
     (case GetRequestPolicy d pid of
        None \<Rightarrow> Inl CodeInternal
      | Some p \<Rightarrow>
          if approvals < 0 then Inl (MapWrite WCheck)
          else if \<not> (role_fk d approver \<and> role_fk d requester) then Inl (MapWrite WForeignKey)
          else
            let f = (\<lambda>p. p\<lparr>rp_required_approvals := approvals, rp_approver_role := approver,
                  rp_requester_role := requester, rp_max_duration := dur\<rparr>)
            in Inr (f p, d\<lparr>request_policies := map (\<lambda>p'. if rp_id p' = pid then f p' else p')
                 (request_policies d)\<rparr>))"

definition AddPolicySubject_q :: "db \<Rightarrow> policy_subject \<Rightarrow> pg_write_error + db" where
  "AddPolicySubject_q d s =
     (if \<not> one_subject (ps_user s) (ps_group s) then Inl WCheck
      else if list_ex (\<lambda>s'. ps_id s' = ps_id s) (policy_subjects d) then Inl WUnique
      else if \<not> (list_ex (\<lambda>p. rp_id p = ps_policy s) (request_policies d) \<and> user_fk d (ps_user s) \<and>
          group_fk d (ps_group s)) then Inl WForeignKey
      else Inr (d\<lparr>policy_subjects := policy_subjects d @ [s]\<rparr>))"

text \<open>The deletes; the subjects of a deleted policy go with it.\<close>

definition DeleteRoleGrant :: "db \<Rightarrow> uuid \<Rightarrow> db" where
  "DeleteRoleGrant d i = d\<lparr>role_grants := filter (\<lambda>g. rg_id g \<noteq> i) (role_grants d)\<rparr>"

definition DeleteRoleBinding_q :: "db \<Rightarrow> uuid \<Rightarrow> db" where
  "DeleteRoleBinding_q d i = d\<lparr>role_bindings := filter (\<lambda>b. rb_id b \<noteq> i) (role_bindings d)\<rparr>"

definition DeleteRequestPolicy_q :: "db \<Rightarrow> uuid \<Rightarrow> db" where
  "DeleteRequestPolicy_q d i =
     d\<lparr>request_policies := filter (\<lambda>p. rp_id p \<noteq> i) (request_policies d),
       policy_subjects := filter (\<lambda>s. ps_policy s \<noteq> i) (policy_subjects d)\<rparr>"

definition RemovePolicySubject_q :: "db \<Rightarrow> uuid \<Rightarrow> db" where
  "RemovePolicySubject_q d i = d\<lparr>policy_subjects := filter (\<lambda>s. ps_id s \<noteq> i) (policy_subjects d)\<rparr>"

section \<open>Helpers of the service\<close>

text \<open>\<open>parent_id IS NOT DISTINCT FROM\<close>: a NULL parent matches the top level.\<close>

definition FolderByParentName :: "db \<Rightarrow> uuid option \<Rightarrow> string \<Rightarrow> folder_row option" where
  "FolderByParentName d parent name = find (\<lambda>f. f_parent f = parent \<and> f_name f = name) (folders d)"

text \<open>The loop over the segments from the root, which is the last one, to the leaf.\<close>

fun resolve_segs :: "db \<Rightarrow> uuid option \<Rightarrow> uuid \<Rightarrow> string list \<Rightarrow> uuid option" where
  "resolve_segs d parent fid [] = Some fid"
| "resolve_segs d parent fid (s # segs) = (case FolderByParentName d parent s of
     None \<Rightarrow> None
   | Some f \<Rightarrow> resolve_segs d (Some (f_id f)) (f_id f) segs)"

definition resolveFolderIDByPath :: "db \<Rightarrow> string \<Rightarrow> uuid option" where
  "resolveFolderIDByPath d path = resolve_segs d None uuid_nil (rev (go_split CHR ''.'' path))"

definition resolveParentFolderRef :: "(string \<Rightarrow> uuid option) \<Rightarrow> db \<Rightarrow> string \<Rightarrow> connect_code + uuid" where
  "resolveParentFolderRef parse d ref =
     (if ref = [] then Inr uuid_nil
      else case parse ref of
        Some i \<Rightarrow> (case GetFolder d i of None \<Rightarrow> Inl CodeNotFound | Some _ \<Rightarrow> Inr i)
      | None \<Rightarrow> (case resolveFolderIDByPath d ref of None \<Rightarrow> Inl CodeNotFound | Some i \<Rightarrow> Inr i))"

definition secondsToInterval :: "int \<Rightarrow> pg_interval option" where
  "secondsToInterval seconds =
     (if seconds \<le> 0 then None
      else Some \<lparr>iv_months = 0, iv_days = 0, iv_microseconds = i64 (seconds * 1000000)\<rparr>)"

definition intervalToSeconds :: "pg_interval option \<Rightarrow> int" where
  "intervalToSeconds iv = (case iv of
     None \<Rightarrow> 0
   | Some v \<Rightarrow> i64 (iv_months v * 30 * 86400 + iv_days v * 86400 + go_div (iv_microseconds v) 1000000))"

record RoleResult =
  rr_Role :: role_row
  rr_Caps :: "string list"
  rr_FolderPath :: string

definition roleResult :: "db \<Rightarrow> role_row \<Rightarrow> RoleResult" where
  "roleResult d r = \<lparr>rr_Role = r, rr_Caps = RoleCapsStrings d (r_id r),
     rr_FolderPath = (case r_folder r of None \<Rightarrow> [] | Some f \<Rightarrow> folder_path d (Some f))\<rparr>"

definition GetAsset_q :: "db \<Rightarrow> uuid \<Rightarrow> asset_row option" where
  "GetAsset_q d aid = find (\<lambda>a. a_id a = aid) (assets d)"

text \<open>
  \<open>FolderAncestorsAndSelf\<close> of the catalog queries: a recursive query along \<open>parent_id\<close>, unlike
  \<open>folderAncestorsAndSelf\<close> of the authorizer.
\<close>

definition FolderAncestorsAndSelf :: "db \<Rightarrow> uuid \<Rightarrow> uuid list" where
  "FolderAncestorsAndSelf d fid = map f_id (cte_union_all (Suc (length (folders d))) (chain_step d)
     (filter (\<lambda>f. f_id f = fid) (folders d)))"

definition containedInRoleSubtree ::
  "db \<Rightarrow> uuid \<Rightarrow> uuid option \<Rightarrow> uuid option \<Rightarrow> connect_code + unit" where
  "containedInRoleSubtree d roleID scopeFolder scopeAsset = (case GetRole_q d roleID of
     None \<Rightarrow> Inl CodeInvalidArgument
   | Some role \<Rightarrow> (case r_folder role of
       None \<Rightarrow> Inr ()
     | Some roleFolder \<Rightarrow>
         (case (case scopeFolder of
                  Some f \<Rightarrow> Inr f
                | None \<Rightarrow> (case scopeAsset of
                    Some a \<Rightarrow> (case GetAsset_q d a of
                      None \<Rightarrow> Inl CodeInvalidArgument | Some r \<Rightarrow> Inr (a_folder r))
                  | None \<Rightarrow> Inl CodeFailedPrecondition)) of
            Inl e \<Rightarrow> Inl e
          | Inr target \<Rightarrow>
              if roleFolder \<in> set (FolderAncestorsAndSelf d target) then Inr ()
              else Inl CodeFailedPrecondition)))"

section \<open>Roles\<close>

definition CreateRole ::
  "db \<Rightarrow> uuid \<Rightarrow> string \<Rightarrow> uuid option \<Rightarrow> string list \<Rightarrow> connect_code + (RoleResult \<times> db)" where
  "CreateRole d new_id name folder caps =
     (let r = \<lparr>r_id = new_id, r_name = name, r_folder = folder\<rparr>
      in case CreateRole_q d r of
           Inl e \<Rightarrow> Inl (MapWrite e)
         | Inr d1 \<Rightarrow>
             let d2 = fold (\<lambda>cap d. InsertRoleCapability d new_id (NormalizeCap cap)) caps d1
             in Inr (roleResult d2 r, d2))"

definition GetRoleByNameGlobal :: "db \<Rightarrow> string \<Rightarrow> role_row option" where
  "GetRoleByNameGlobal d name = find (\<lambda>r. r_name r = name \<and> r_folder r = None) (roles d)"

definition GetRoleByFolderAndName :: "db \<Rightarrow> uuid \<Rightarrow> string \<Rightarrow> role_row option" where
  "GetRoleByFolderAndName d fid name = find (\<lambda>r. r_folder r = Some fid \<and> r_name r = name) (roles d)"

definition resolve_role_row :: "(string \<Rightarrow> uuid option) \<Rightarrow> db \<Rightarrow> string \<Rightarrow> role_row option" where
  "resolve_role_row parse d ref = (case parse ref of
     Some i \<Rightarrow> GetRole_q d i
   | None \<Rightarrow>
       if CHR ''.'' \<in> set ref then
         let name = takeWhile (\<lambda>c. c \<noteq> CHR ''.'') ref;
             folderPath = tl (dropWhile (\<lambda>c. c \<noteq> CHR ''.'') ref)
         in (case resolveFolderIDByPath d folderPath of
               None \<Rightarrow> None
             | Some fid \<Rightarrow> GetRoleByFolderAndName d fid name)
       else GetRoleByNameGlobal d ref)"

definition read_role :: "db \<Rightarrow> time \<Rightarrow> uuid \<Rightarrow> role_row option \<Rightarrow> connect_code + RoleResult" where
  "read_role d now caller row = (case row of
     None \<Rightarrow> Inl CodeNotFound
   | Some r \<Rightarrow> (case RequireReadCap d now caller RoleReadCap (ScopeOfFolderID (r_folder r)) of
       Inl e \<Rightarrow> Inl e
     | Inr _ \<Rightarrow> Inr (roleResult d r)))"

definition ResolveRole :: "(string \<Rightarrow> uuid option) \<Rightarrow> db \<Rightarrow> time \<Rightarrow> uuid \<Rightarrow> string \<Rightarrow> connect_code + RoleResult" where
  "ResolveRole parse d now caller ref = read_role d now caller (resolve_role_row parse d ref)"

definition GetRole :: "db \<Rightarrow> time \<Rightarrow> uuid \<Rightarrow> uuid \<Rightarrow> connect_code + RoleResult" where
  "GetRole d now caller i = read_role d now caller (GetRole_q d i)"

definition DeleteRole :: "Service \<Rightarrow> clocks \<Rightarrow> world \<Rightarrow> uuid \<Rightarrow> uuid \<Rightarrow> connect_code + world" where
  "DeleteRole s ck w actor roleID = (case DeleteRoleCascade s ck w actor roleID of
     Inl _ \<Rightarrow> Inl CodeInternal | Inr w' \<Rightarrow> Inr w')"

definition GetRoleDisplay :: "db \<Rightarrow> time \<Rightarrow> uuid \<Rightarrow> uuid \<Rightarrow> connect_code + RoleResult" where
  "GetRoleDisplay d now caller i = (case GetRole_q d i of
     None \<Rightarrow> Inl CodeNotFound
   | Some r \<Rightarrow> (case RequireReadCap d now caller RoleReadCap (ScopeOfFolderID (r_folder r)) of
       Inl capErr \<Rightarrow>
         if \<not> CanReadForRequest d caller ReqEntityRole i then Inl capErr else Inr (roleResult d r)
     | Inr _ \<Rightarrow> Inr (roleResult d r)))"

definition GetRoleAccess :: "db \<Rightarrow> time \<Rightarrow> uuid \<Rightarrow> uuid \<Rightarrow> connect_code + string list" where
  "GetRoleAccess d now caller i = (case GetRole_q d i of
     None \<Rightarrow> Inl CodeNotFound
   | Some r \<Rightarrow>
       let caps = CapabilitiesOnScope d now caller (ScopeOfFolderID (r_folder r))
       in if caps = [] then Inl CodePermissionDenied else Inr caps)"

section \<open>Time-ordered lists\<close>

text \<open>
  The body shared by the paged lists: the page size, the token, the query and the next token. The
  code dereferences the time of a decoded key without a check, so a key without a time panics.
\<close>

definition list_page :: "('a \<Rightarrow> time \<times> uuid) \<Rightarrow> (PageParams \<Rightarrow> 'a list) \<Rightarrow> int \<Rightarrow> (time \<times> uuid) option \<Rightarrow> 'a list \<times> page_token" where
  "list_page key query pageSize after =
     (let limit = nat (ClampPageSize pageSize);
          rows = query \<lparr>pp_After = after, pp_Limit = limit\<rparr>
      in (rows, if length rows = limit then EncodeTimeToken (fst (key (last rows))) (snd (key (last rows)))
                else EmptyToken))"

definition time_list ::
  "('a \<Rightarrow> time \<times> uuid) \<Rightarrow> (PageParams \<Rightarrow> 'a list) \<Rightarrow> int \<Rightarrow> page_token \<Rightarrow> (connect_code + ('a list \<times> page_token)) outcome" where
  "time_list key query pageSize pageToken = (case DecodePageToken pageToken of
     Inl e \<Rightarrow> Returned (Inl e)
   | Inr None \<Rightarrow> Returned (Inr (list_page key query pageSize None))
   | Inr (Some k) \<Rightarrow> (case pk_Time k of
       None \<Rightarrow> Panicked
     | Some t \<Rightarrow> Returned (Inr (list_page key query pageSize (Some (t, pk_ID k))))))"

section \<open>Rewrite rules\<close>

definition AddRoleGrant ::
  "db \<Rightarrow> time \<Rightarrow> uuid \<Rightarrow> uuid \<Rightarrow> uuid \<Rightarrow> uuid \<Rightarrow> rewrite_via \<Rightarrow> Scope \<Rightarrow> connect_code + (role_grant \<times> db)" where
  "AddRoleGrant d now new_id caller roleID sourceRoleID via scope =
     (case RoleCaps d roleID of
        Inl e \<Rightarrow> Inl e
      | Inr caps \<Rightarrow> (case RequireGrantable d now caller caps scope of
          Inl e \<Rightarrow> Inl e
        | Inr _ \<Rightarrow>
            if via = ViaSameObject \<and> roleID = sourceRoleID then Inl CodeInvalidArgument
            else
              let g = \<lparr>rg_id = new_id, rg_role = roleID, rg_source = sourceRoleID, rg_via = via,
                       rg_created_at = now\<rparr>
              in (case CreateRoleGrant d g of Inl e \<Rightarrow> Inl (MapWrite e) | Inr d' \<Rightarrow> Inr (g, d'))))"

definition RemoveRoleGrant :: "db \<Rightarrow> uuid \<Rightarrow> db" where
  "RemoveRoleGrant d i = DeleteRoleGrant d i"

definition role_grant_key :: "role_grant \<Rightarrow> time \<times> uuid" where
  "role_grant_key g = (rg_created_at g, rg_id g)"

definition ListRoleGrants_q :: "db \<Rightarrow> uuid \<Rightarrow> PageParams \<Rightarrow> role_grant list" where
  "ListRoleGrants_q d roleID pp =
     sql_page role_grant_key pp (filter (\<lambda>g. rg_role g = roleID) (role_grants d))"

definition ListRoleGrants ::
  "db \<Rightarrow> uuid \<Rightarrow> int \<Rightarrow> page_token \<Rightarrow> (connect_code + (role_grant list \<times> page_token)) outcome" where
  "ListRoleGrants d roleID pageSize pageToken =
     time_list role_grant_key (ListRoleGrants_q d roleID) pageSize pageToken"

section \<open>Bindings\<close>

definition CreateRoleBinding ::
  "db \<Rightarrow> time \<Rightarrow> uuid \<Rightarrow> uuid \<Rightarrow> uuid \<Rightarrow> uuid option \<Rightarrow> uuid option \<Rightarrow> uuid option \<Rightarrow> uuid option \<Rightarrow> Scope \<Rightarrow>
     connect_code + (role_binding \<times> db)" where
  "CreateRoleBinding d now new_id caller roleID scopeFolder scopeAsset subjUser subjGroup bindScope =
     (case RoleCaps d roleID of
        Inl e \<Rightarrow> Inl e
      | Inr caps \<Rightarrow> (case RequireGrantable d now caller caps bindScope of
          Inl e \<Rightarrow> Inl e
        | Inr _ \<Rightarrow> (case containedInRoleSubtree d roleID scopeFolder scopeAsset of
            Inl e \<Rightarrow> Inl e
          | Inr _ \<Rightarrow>
              let b = \<lparr>rb_id = new_id, rb_role = roleID, rb_scope_folder = scopeFolder,
                       rb_scope_asset = scopeAsset, rb_subject_user = subjUser,
                       rb_subject_group = subjGroup, rb_created_at = now\<rparr>
              in (case CreateRoleBinding_q d b of Inl e \<Rightarrow> Inl (MapWrite e) | Inr d' \<Rightarrow> Inr (b, d')))))"

definition DeleteRoleBinding :: "db \<Rightarrow> uuid \<Rightarrow> db" where
  "DeleteRoleBinding d i = DeleteRoleBinding_q d i"

definition binding_key :: "role_binding \<Rightarrow> time \<times> uuid" where
  "binding_key b = (rb_created_at b, rb_id b)"

text \<open>A NULL filter admits every row; the display columns of the rows are left out.\<close>

definition opt_filter :: "'a option \<Rightarrow> 'a option \<Rightarrow> bool" where
  "opt_filter want have = (case want of None \<Rightarrow> True | Some _ \<Rightarrow> sql_eq have want)"

definition ListRoleBindings_q ::
  "db \<Rightarrow> uuid option \<Rightarrow> uuid option \<Rightarrow> uuid option \<Rightarrow> uuid option \<Rightarrow> uuid option \<Rightarrow> PageParams \<Rightarrow> role_binding list" where
  "ListRoleBindings_q d roleID scopeFolder scopeAsset subjUser subjGroup pp = sql_page binding_key pp (filter (\<lambda>b.
     opt_filter roleID (Some (rb_role b)) \<and> opt_filter scopeFolder (rb_scope_folder b) \<and>
     opt_filter scopeAsset (rb_scope_asset b) \<and> opt_filter subjUser (rb_subject_user b) \<and>
     opt_filter subjGroup (rb_subject_group b) \<and> list_ex (\<lambda>r. r_id r = rb_role b) (roles d))
     (role_bindings d))"

definition ListRoleBindings ::
  "db \<Rightarrow> uuid option \<Rightarrow> uuid option \<Rightarrow> uuid option \<Rightarrow> uuid option \<Rightarrow> uuid option \<Rightarrow> int \<Rightarrow> page_token \<Rightarrow>
     (connect_code + (role_binding list \<times> page_token)) outcome" where
  "ListRoleBindings d roleID scopeFolder scopeAsset subjUser subjGroup pageSize pageToken =
     time_list binding_key (ListRoleBindings_q d roleID scopeFolder scopeAsset subjUser subjGroup)
       pageSize pageToken"

section \<open>Request policies\<close>

record CreateRequestPolicyInput =
  ci_RoleID :: uuid
  ci_ScopeFolder :: "uuid option"
  ci_ScopeAsset :: "uuid option"
  ci_RequiredApprovals :: int
  ci_ApproverRole :: "uuid option"
  ci_RequesterRole :: "uuid option"
  ci_MaxDurationSeconds :: int
  ci_Name :: string

definition pgconv_Text :: "string \<Rightarrow> string option" where
  "pgconv_Text s = (if s = [] then None else Some s)"

definition CreateRequestPolicy ::
  "db \<Rightarrow> time \<Rightarrow> uuid \<Rightarrow> uuid \<Rightarrow> CreateRequestPolicyInput \<Rightarrow> Scope \<Rightarrow> connect_code + (request_policy \<times> db)" where
  "CreateRequestPolicy d now new_id caller inp policyScope =
     (case RoleCaps d (ci_RoleID inp) of
        Inl e \<Rightarrow> Inl e
      | Inr caps \<Rightarrow> (case RequireGrantable d now caller caps policyScope of
          Inl e \<Rightarrow> Inl e
        | Inr _ \<Rightarrow> (case containedInRoleSubtree d (ci_RoleID inp) (ci_ScopeFolder inp) (ci_ScopeAsset inp) of
            Inl e \<Rightarrow> Inl e
          | Inr _ \<Rightarrow>
              let p = \<lparr>rp_id = new_id, rp_role = ci_RoleID inp, rp_scope_folder = ci_ScopeFolder inp,
                       rp_scope_asset = ci_ScopeAsset inp, rp_required_approvals = ci_RequiredApprovals inp,
                       rp_approver_role = ci_ApproverRole inp, rp_requester_role = ci_RequesterRole inp,
                       rp_max_duration = secondsToInterval (ci_MaxDurationSeconds inp),
                       rp_name = pgconv_Text (ci_Name inp), rp_created_at = now\<rparr>
              in (case CreateRequestPolicy_q d p of Inl e \<Rightarrow> Inl (MapWrite e) | Inr d' \<Rightarrow> Inr (p, d')))))"

definition UpdateRequestPolicy ::
  "db \<Rightarrow> uuid \<Rightarrow> int \<Rightarrow> uuid option \<Rightarrow> uuid option \<Rightarrow> int \<Rightarrow> connect_code + (request_policy \<times> db)" where
  "UpdateRequestPolicy d i requiredApprovals approverRole requesterRole maxDurationSeconds =
     UpdateRequestPolicy_q d i requiredApprovals approverRole requesterRole (secondsToInterval maxDurationSeconds)"

definition DeleteRequestPolicy :: "db \<Rightarrow> uuid \<Rightarrow> db" where
  "DeleteRequestPolicy d i = DeleteRequestPolicy_q d i"

definition policy_key :: "request_policy \<Rightarrow> time \<times> uuid" where
  "policy_key p = (rp_created_at p, rp_id p)"

definition ListRequestPolicies_q :: "db \<Rightarrow> uuid \<Rightarrow> PageParams \<Rightarrow> request_policy list" where
  "ListRequestPolicies_q d roleID pp =
     sql_page policy_key pp (filter (\<lambda>p. rp_role p = roleID) (request_policies d))"

definition ListRequestPolicies ::
  "db \<Rightarrow> uuid \<Rightarrow> int \<Rightarrow> page_token \<Rightarrow> (connect_code + (request_policy list \<times> page_token)) outcome" where
  "ListRequestPolicies d roleID pageSize pageToken =
     time_list policy_key (ListRequestPolicies_q d roleID) pageSize pageToken"

definition ListPoliciesForAsset_q :: "db \<Rightarrow> uuid \<Rightarrow> PageParams \<Rightarrow> request_policy list" where
  "ListPoliciesForAsset_q d assetID pp =
     sql_page policy_key pp (filter (\<lambda>p. sql_eq (rp_scope_asset p) (Some assetID)) (request_policies d))"

definition ListPoliciesForAsset ::
  "db \<Rightarrow> uuid \<Rightarrow> int \<Rightarrow> page_token \<Rightarrow> (connect_code + (request_policy list \<times> page_token)) outcome" where
  "ListPoliciesForAsset d assetID pageSize pageToken =
     time_list policy_key (ListPoliciesForAsset_q d assetID) pageSize pageToken"

definition ListPoliciesForSubjectGroup :: "db \<Rightarrow> uuid \<Rightarrow> PageParams \<Rightarrow> request_policy list" where
  "ListPoliciesForSubjectGroup d groupID pp =
     sql_page policy_key pp (filter (\<lambda>p. list_ex (\<lambda>s. ps_policy s = rp_id p \<and> sql_eq (ps_group s) (Some groupID))
       (policy_subjects d)) (request_policies d))"

definition ListPoliciesForGroup ::
  "db \<Rightarrow> uuid \<Rightarrow> int \<Rightarrow> page_token \<Rightarrow> (connect_code + (request_policy list \<times> page_token)) outcome" where
  "ListPoliciesForGroup d groupID pageSize pageToken =
     time_list policy_key (ListPoliciesForSubjectGroup d groupID) pageSize pageToken"

definition GetPolicyByNameAndAsset :: "db \<Rightarrow> string option \<Rightarrow> uuid \<Rightarrow> request_policy option" where
  "GetPolicyByNameAndAsset d name assetID =
     find (\<lambda>p. sql_eq (rp_name p) name \<and> sql_eq (rp_scope_asset p) (Some assetID)) (request_policies d)"

definition ResolvePolicy :: "db \<Rightarrow> string \<Rightarrow> uuid \<Rightarrow> connect_code + request_policy" where
  "ResolvePolicy d name assetID =
     (case GetPolicyByNameAndAsset d (pgconv_Text name) assetID of
        None \<Rightarrow> Inl CodeNotFound | Some p \<Rightarrow> Inr p)"

definition AddPolicySubject ::
  "db \<Rightarrow> time \<Rightarrow> uuid \<Rightarrow> uuid \<Rightarrow> subject_kind \<Rightarrow> uuid option \<Rightarrow> uuid option \<Rightarrow> connect_code + (policy_subject \<times> db)" where
  "AddPolicySubject d now new_id policyID kind subjUser subjGroup =
     (let s = \<lparr>ps_id = new_id, ps_policy = policyID, ps_kind = kind, ps_user = subjUser,
               ps_group = subjGroup, ps_created_at = now\<rparr>
      in case AddPolicySubject_q d s of Inl e \<Rightarrow> Inl (MapWrite e) | Inr d' \<Rightarrow> Inr (s, d'))"

definition RemovePolicySubject :: "db \<Rightarrow> uuid \<Rightarrow> db" where
  "RemovePolicySubject d i = RemovePolicySubject_q d i"

definition subject_key :: "policy_subject \<Rightarrow> time \<times> uuid" where
  "subject_key s = (ps_created_at s, ps_id s)"

definition ListPolicySubjects_q :: "db \<Rightarrow> uuid \<Rightarrow> PageParams \<Rightarrow> policy_subject list" where
  "ListPolicySubjects_q d policyID pp =
     sql_page subject_key pp (filter (\<lambda>s. ps_policy s = policyID) (policy_subjects d))"

definition ListPolicySubjects ::
  "db \<Rightarrow> uuid \<Rightarrow> int \<Rightarrow> page_token \<Rightarrow> (connect_code + (policy_subject list \<times> page_token)) outcome" where
  "ListPolicySubjects d policyID pageSize pageToken =
     time_list subject_key (ListPolicySubjects_q d policyID) pageSize pageToken"

datatype policy_usage = UsageApproverSource | UsageRequestable | UsageRequesterSource

text \<open>The usages in the order of their names, each by \<open>created_at DESC, id\<close>, at most 500 rows.\<close>

definition ListPoliciesUsingRole :: "db \<Rightarrow> uuid \<Rightarrow> (request_policy \<times> policy_usage) list" where
  "ListPoliciesUsingRole d roleID = take 500
     (map (\<lambda>p. (p, UsageApproverSource)) (order_desc policy_key
        (filter (\<lambda>p. sql_eq (rp_approver_role p) (Some roleID)) (request_policies d))) @
      map (\<lambda>p. (p, UsageRequestable)) (order_desc policy_key
        (filter (\<lambda>p. rp_role p = roleID) (request_policies d))) @
      map (\<lambda>p. (p, UsageRequesterSource)) (order_desc policy_key
        (filter (\<lambda>p. sql_eq (rp_requester_role p) (Some roleID)) (request_policies d))))"

section \<open>Rosters\<close>

datatype roster_source = Explicit | ViaRole uuid string

record RosterNodeView =
  rn_IsGroup :: bool
  rn_DisplayName :: string
  rn_FolderPath :: string
  rn_MemberCount :: int
  rn_Active :: bool
  rn_SubjectID :: uuid
  rn_Source :: roster_source

text \<open>The display columns of a subject: \<open>COALESCE(u.display_name, g.name, '')\<close> and the rest.\<close>

definition subject_user_row :: "db \<Rightarrow> uuid option \<Rightarrow> user_row option" where
  "subject_user_row d u = find (\<lambda>x. sql_eq (Some (u_id x)) u) (users d)"

definition subject_group_row :: "db \<Rightarrow> uuid option \<Rightarrow> group_row option" where
  "subject_group_row d g = find (\<lambda>x. sql_eq (Some (g_id x)) g) (groups d)"

definition pgUUIDStr :: "uuid option \<Rightarrow> uuid option \<Rightarrow> uuid" where
  "pgUUIDStr user grp = (case grp of Some g \<Rightarrow> g | None \<Rightarrow> (case user of Some u \<Rightarrow> u | None \<Rightarrow> uuid_nil))"

definition roster_node :: "db \<Rightarrow> uuid option \<Rightarrow> uuid option \<Rightarrow> roster_source \<Rightarrow> RosterNodeView" where
  "roster_node d user grp source = \<lparr>
     rn_IsGroup = (grp \<noteq> None),
     rn_DisplayName = (case subject_user_row d user of
        Some u \<Rightarrow> u_display_name u
      | None \<Rightarrow> (case subject_group_row d grp of Some g \<Rightarrow> g_name g | None \<Rightarrow> [])),
     rn_FolderPath = folder_path d (Option.bind (subject_group_row d grp) g_folder),
     rn_MemberCount = (case grp of None \<Rightarrow> 0
       | Some g \<Rightarrow> int (length (filter (\<lambda>m. gm_group m = g) (group_memberships d)))),
     rn_Active = (case subject_user_row d user of Some u \<Rightarrow> u_deactivated_at u = None | None \<Rightarrow> True),
     rn_SubjectID = pgUUIDStr user grp,
     rn_Source = source\<rparr>"

definition ListPolicyRosterSubjects :: "db \<Rightarrow> uuid \<Rightarrow> subject_kind \<Rightarrow> RosterNodeView list" where
  "ListPolicyRosterSubjects d policyID kind =
     map (\<lambda>s. roster_node d (ps_user s) (ps_group s) Explicit)
       (filter (\<lambda>s. ps_policy s = policyID \<and> ps_kind s = kind) (policy_subjects d))"

definition RoleStandingHolders :: "db \<Rightarrow> uuid \<Rightarrow> object_kind \<Rightarrow> uuid \<Rightarrow> RosterNodeView list" where
  "RoleStandingHolders d role kind oid = remdups (concat (map (\<lambda>rb.
     concat (map (\<lambda>vr. map (\<lambda>gl. roster_node d (rb_subject_user rb) (rb_subject_group rb)
           (ViaRole (rb_role rb) (r_name vr)))
         (filter (binding_on_goal rb) (authz_role_goals d role kind oid)))
       (filter (\<lambda>vr. r_id vr = rb_role rb) (roles d))))
     (filter (\<lambda>rb. rb_subject_group rb \<noteq> None \<or>
        (case rb_subject_user rb of Some u \<Rightarrow> authz_user_is_active d u | None \<Rightarrow> False)) (role_bindings d))))"

definition policyScopeObject :: "request_policy \<Rightarrow> (object_kind \<times> uuid) option" where
  "policyScopeObject p = (case rp_scope_asset p of
     Some a \<Rightarrow> Some (KAsset, a)
   | None \<Rightarrow> (case rp_scope_folder p of Some f \<Rightarrow> Some (KFolder, f) | None \<Rightarrow> None))"

text \<open>\<open>add\<close>: the first node of a subject stays.\<close>

fun roster_add :: "RosterNodeView list \<Rightarrow> RosterNodeView list \<Rightarrow> RosterNodeView list" where
  "roster_add nodes [] = nodes"
| "roster_add nodes (v # vs) =
     (if rn_SubjectID v \<in> rn_SubjectID ` set nodes then roster_add nodes vs else roster_add (nodes @ [v]) vs)"

definition roster_build ::
  "db \<Rightarrow> request_policy \<Rightarrow> bool \<Rightarrow> subject_kind \<Rightarrow> uuid option \<Rightarrow> RosterNodeView list" where
  "roster_build d p includeViaRole kind roleID =
     (let nodes = roster_add [] (ListPolicyRosterSubjects d (rp_id p) kind)
      in if includeViaRole then
           (case (roleID, policyScopeObject p) of
              (Some role, Some (objKind, objID)) \<Rightarrow> roster_add nodes (RoleStandingHolders d role objKind objID)
            | _ \<Rightarrow> nodes)
         else nodes)"

definition PolicyRoster :: "db \<Rightarrow> uuid \<Rightarrow> bool \<Rightarrow> connect_code + (RosterNodeView list \<times> RosterNodeView list)" where
  "PolicyRoster d policyID includeViaRole = (case GetRequestPolicy d policyID of
     None \<Rightarrow> Inl CodeNotFound
   | Some p \<Rightarrow> Inr (roster_build d p includeViaRole Requester (rp_requester_role p),
       roster_build d p includeViaRole Approver (rp_approver_role p)))"

end
