(* ===== verification/Workflow.thy ===== *)
theory Workflow
  imports AccessRequest
begin

text \<open>
  The access workflow as a transition system and its correctness. The steps are the operations of
  \<open>AccessRequest\<close> and environment steps, in which administrators change anything but the three
  tables of the workflow and other code may append to the audit outbox, which stands for
  everything enqueued so far. \<open>tables_ok\<close> is the invariant of those tables. The properties: every
  reachable state satisfies it; a grant is only minted for an eligible requester and with enough
  distinct approvals; a resolved request never changes; revocation, expiry and role deletion take
  the access away; the set-based review queries agree with the per-row resolver.
\<close>

section \<open>The invariant\<close>

definition n_votes :: "request_approval list \<Rightarrow> uuid \<Rightarrow> vote_decision \<Rightarrow> nat" where
  "n_votes votes rid dec = length (filter (\<lambda>a. ap_request a = rid \<and> ap_decision a = dec) votes)"

definition has_grant :: "access_grant list \<Rightarrow> uuid \<Rightarrow> bool" where
  "has_grant grants rid = list_ex (\<lambda>g. ag_request g = rid) grants"

text \<open>
  A pending request lacks approvals and has no denial; a granted one has enough, no denial, and its
  grant; a denied one has a denial; only a granted request has a grant; exactly the pending
  requests are unresolved.
\<close>

definition request_ok :: "request_approval list \<Rightarrow> access_grant list \<Rightarrow> access_request \<Rightarrow> bool" where
  "request_ok votes grants r =
     ((ar_status r = Pending \<longleftrightarrow> ar_resolved_at r = None) \<and>
      (ar_status r = Granted \<longleftrightarrow> has_grant grants (ar_id r)) \<and>
      (ar_status r = Denied \<longleftrightarrow> 0 < n_votes votes (ar_id r) Deny) \<and>
      (ar_status r = Pending \<longrightarrow> int (n_votes votes (ar_id r) Approve) < ar_required_approvals r) \<and>
      (ar_status r = Granted \<longrightarrow> ar_required_approvals r \<le> int (n_votes votes (ar_id r) Approve)))"

definition grant_ok :: "access_request list \<Rightarrow> access_grant \<Rightarrow> bool" where
  "grant_ok reqs g = list_ex (\<lambda>r. ar_id r = ag_request g \<and> ar_role r = ag_role g \<and>
     ar_asset r = ag_asset g \<and> ar_requester r = ag_subject g) reqs"

definition vote_ok :: "access_request list \<Rightarrow> request_approval \<Rightarrow> bool" where
  "vote_ok reqs a = list_ex (\<lambda>r. ar_id r = ap_request a \<and> ap_approver a \<noteq> ar_requester r) reqs"

definition vote_key :: "request_approval \<Rightarrow> uuid \<times> uuid" where
  "vote_key a = (ap_request a, ap_approver a)"

definition tables_ok ::
  "access_request list \<Rightarrow> request_approval list \<Rightarrow> access_grant list \<Rightarrow> bool" where
  "tables_ok reqs votes grants =
     (distinct (map ar_id reqs) \<and> distinct (map ag_id grants) \<and> distinct (map ag_request grants) \<and>
      distinct (map vote_key votes) \<and>
      list_all (request_ok votes grants) reqs \<and> list_all (grant_ok reqs) grants \<and>
      list_all (vote_ok reqs) votes \<and>
      list_all (\<lambda>r. list_all (\<lambda>r'. pending_duplicate r r' \<longrightarrow> r = r') reqs) reqs)"

definition workflow_ok :: "db \<Rightarrow> bool" where
  "workflow_ok d = (schema_checks d \<and>
     tables_ok (access_requests d) (request_approvals d) (access_grants d))"

section \<open>The transition system\<close>

inductive ar_step :: "Service \<Rightarrow> world \<Rightarrow> world \<Rightarrow> bool" for s :: Service where
  request: "RequestAccess s ck req_id grant_id w requester roleID assetID dur reason = Inr (res, w') \<Longrightarrow>
    ar_step s w w'"
| vote: "vote s ck grant_id w approver requestID decision = Inr (res, w') \<Longrightarrow> ar_step s w w'"
| cancel: "Cancel s ck w requester requestID = Inr w' \<Longrightarrow> ar_step s w w'"
| revoke: "RevokeGrant s ck w caller mgmt grantID reason = Inr (g, w') \<Longrightarrow> ar_step s w w'"
| revoke_user: "RevokeGrantsForUser s ck w actor userID reason = (n, w') \<Longrightarrow> ar_step s w w'"
| reap: "ReapExpired s ck w = (n, w') \<Longrightarrow> ar_step s w w'"
| delete_role: "DeleteRoleCascade s ck w actor roleID = Inr w' \<Longrightarrow> ar_step s w w'"
| environment: "access_requests (w_db w') = access_requests (w_db w) \<Longrightarrow>
    request_approvals (w_db w') = request_approvals (w_db w) \<Longrightarrow>
    access_grants (w_db w') = access_grants (w_db w) \<Longrightarrow> schema_checks (w_db w') \<Longrightarrow>
    set (w_outbox w) \<subseteq> set (w_outbox w') \<Longrightarrow> ar_step s w w'"

definition ar_init :: "world \<Rightarrow> bool" where
  "ar_init w = (schema_checks (w_db w) \<and> access_requests (w_db w) = [] \<and>
     request_approvals (w_db w) = [] \<and> access_grants (w_db w) = [])"

section \<open>Tables\<close>

lemma n_votes_append [simp]:
  "n_votes (votes @ [v]) rid dec = n_votes votes rid dec +
     (if ap_request v = rid \<and> ap_decision v = dec then 1 else 0)"
  by (simp add: n_votes_def)

lemma CountApprovals_n_votes: "CountApprovals d rid = int (n_votes (request_approvals d) rid Approve)"
  by (simp add: CountApprovals_def n_votes_def)

lemma has_grant_append [simp]: "has_grant (gs @ [g]) rid \<longleftrightarrow> has_grant gs rid \<or> ag_request g = rid"
  by (simp add: has_grant_def)

lemma has_grant_iff: "has_grant gs rid \<longleftrightarrow> rid \<in> ag_request ` set gs"
  by (auto simp: has_grant_def list_ex_iff)

lemma vote_ok_append: "vote_ok (reqs @ [r]) a \<longleftrightarrow> vote_ok reqs a \<or> vote_ok [r] a"
  by (simp add: vote_ok_def)

lemma grant_ok_append: "grant_ok (reqs @ [r]) g \<longleftrightarrow> grant_ok reqs g \<or> grant_ok [r] g"
  by (simp add: grant_ok_def)

lemma vote_okD: "vote_ok reqs a \<Longrightarrow> ap_request a \<in> ar_id ` set reqs"
  unfolding vote_ok_def list_ex_iff by (metis imageI)

lemma grant_okD: "grant_ok reqs g \<Longrightarrow> ag_request g \<in> ar_id ` set reqs"
  unfolding grant_ok_def list_ex_iff by (metis imageI)

lemma fresh_request_no_votes:
  assumes "tables_ok reqs votes grants" and "rid \<notin> ar_id ` set reqs"
  shows "n_votes votes rid dec = 0" and "\<not> has_grant grants rid"
proof -
  have "ap_request a \<noteq> rid" if "a \<in> set votes" for a
    using assms vote_okD that by (metis list_all_iff tables_ok_def)
  then show "n_votes votes rid dec = 0" by (simp add: n_votes_def filter_empty_conv)
  have "ag_request g \<noteq> rid" if "g \<in> set grants" for g
    using assms grant_okD that by (metis list_all_iff tables_ok_def)
  then show "\<not> has_grant grants rid" by (auto simp: has_grant_def list_ex_iff)
qed

lemma tables_ok_insert:
  assumes "tables_ok reqs votes grants" and "ar_id r \<notin> ar_id ` set reqs"
    and "\<And>r'. r' \<in> set reqs \<Longrightarrow> \<not> pending_duplicate r r'"
    and "grants' = grants \<or> (\<exists>g. grants' = grants @ [g] \<and> ag_request g = ar_id r \<and>
      ag_id g \<notin> ag_id ` set grants \<and> grant_ok [r] g)"
    and "request_ok votes grants' r"
  shows "tables_ok (reqs @ [r]) votes grants'"
proof -
  have other: "request_ok votes grants' x" if "x \<in> set reqs" for x
  proof -
    have "ar_id x \<noteq> ar_id r" using that assms(2) by (metis imageI)
    moreover have "request_ok votes grants x"
      using assms(1) that by (simp add: tables_ok_def list_all_iff)
    ultimately show ?thesis using assms(4) by (auto simp: request_ok_def)
  qed
  have nog: "ar_id r \<notin> ag_request ` set grants"
    using fresh_request_no_votes(2) [OF assms(1,2)] by (auto simp: has_grant_def list_ex_iff)
  have sym: "pending_duplicate x y \<Longrightarrow> pending_duplicate y x" for x y
    by (simp add: pending_duplicate_def)
  have "list_all (grant_ok (reqs @ [r])) grants'"
    using assms(1,4) by (elim disjE exE conjE) (simp_all add: tables_ok_def list_all_iff grant_ok_append)
  moreover have "distinct (map ag_id grants')" "distinct (map ag_request grants')"
    using assms(1,4) nog by (auto simp: tables_ok_def)
  moreover have "list_all (vote_ok (reqs @ [r])) votes"
    using assms(1) by (simp add: tables_ok_def list_all_iff vote_ok_append)
  moreover have "list_all (request_ok votes grants') (reqs @ [r])"
    using other assms(5) by (simp add: list_all_iff)
  moreover have "list_all (\<lambda>x. list_all (\<lambda>y. pending_duplicate x y \<longrightarrow> x = y) (reqs @ [r])) (reqs @ [r])"
    using assms(1,3) sym by (simp add: tables_ok_def list_all_iff) blast
  ultimately show ?thesis
    using assms(1,2) by (simp add: tables_ok_def)
qed

definition resolve_row :: "uuid \<Rightarrow> request_status \<Rightarrow> time \<Rightarrow> access_request \<Rightarrow> access_request" where
  "resolve_row rid st t r = (if ar_id r = rid
     then r\<lparr>ar_status := st, ar_resolved_at := Some (pg_timestamp t)\<rparr> else r)"

lemma resolve_row_simps [simp]:
  "ar_id (resolve_row rid st t r) = ar_id r"
  "ar_requester (resolve_row rid st t r) = ar_requester r"
  "ar_role (resolve_row rid st t r) = ar_role r"
  "ar_asset (resolve_row rid st t r) = ar_asset r"
  "ar_required_approvals (resolve_row rid st t r) = ar_required_approvals r"
  by (simp_all add: resolve_row_def)

lemma resolve_row_other: "ar_id r \<noteq> rid \<Longrightarrow> resolve_row rid st t r = r"
  by (simp add: resolve_row_def)

lemma SetAccessRequestStatus_rows:
  "SetAccessRequestStatus d st t rid =
     d\<lparr>access_requests := map (resolve_row rid st t) (access_requests d)\<rparr>"
  by (simp add: SetAccessRequestStatus_def resolve_row_def [abs_def])

lemma vote_ok_resolve [simp]: "vote_ok (map (resolve_row rid st t) reqs) a = vote_ok reqs a"
  by (simp add: vote_ok_def list_ex_iff)

lemma grant_ok_resolve [simp]: "grant_ok (map (resolve_row rid st t) reqs) g = grant_ok reqs g"
  by (simp add: grant_ok_def list_ex_iff)

lemma tables_ok_resolve:
  assumes ok: "tables_ok reqs votes grants" and r: "r \<in> set reqs"
    and st: "st \<noteq> Pending"
    and V: "votes' = votes \<or> (\<exists>v. votes' = votes @ [v] \<and> ap_request v = ar_id r \<and>
      ap_approver v \<noteq> ar_requester r \<and> vote_key v \<notin> vote_key ` set votes)"
    and G: "grants' = grants \<or> (\<exists>g. grants' = grants @ [g] \<and> ag_request g = ar_id r \<and>
      ag_id g \<notin> ag_id ` set grants \<and> \<not> has_grant grants (ar_id r) \<and> grant_ok reqs g)"
    and new: "request_ok votes' grants' (resolve_row (ar_id r) st t r)"
  shows "tables_ok (map (resolve_row (ar_id r) st t) reqs) votes' grants'"
proof -
  let ?f = "resolve_row (ar_id r) st t"
  have same: "x = r" if "x \<in> set reqs" "ar_id x = ar_id r" for x
    using ok r that distinct_key_eq [of ar_id reqs x r] by (simp add: tables_ok_def)
  have "request_ok votes' grants' (?f x)" if x: "x \<in> set reqs" for x
  proof (cases "ar_id x = ar_id r")
    case True
    with same x new show ?thesis by metis
  next
    case False
    moreover have "request_ok votes grants x"
      using ok x by (simp add: tables_ok_def list_all_iff)
    ultimately show ?thesis
      using V G by (auto simp: request_ok_def resolve_row_other)
  qed
  moreover have "distinct (map ag_id grants')" "distinct (map ag_request grants')"
    using ok G by (auto simp: tables_ok_def has_grant_iff)
  moreover have "list_all (grant_ok reqs) grants'"
    using ok G by (auto simp: tables_ok_def)
  moreover have "distinct (map vote_key votes')"
    using ok V by (auto simp: tables_ok_def)
  moreover have "list_all (vote_ok reqs) votes'"
    using ok V r by (auto simp: tables_ok_def vote_ok_def list_ex_iff)
  moreover have "?f x = ?f y"
    if "x \<in> set reqs" "y \<in> set reqs" "pending_duplicate (?f x) (?f y)" for x y
  proof -
    from that(3) st have "ar_id x \<noteq> ar_id r" "ar_id y \<noteq> ar_id r"
      by (auto simp: pending_duplicate_def resolve_row_def)
    with that ok show ?thesis
      by (simp add: resolve_row_other tables_ok_def list_all_iff)
  qed
  ultimately show ?thesis
    using ok by (simp add: tables_ok_def list_all_iff comp_def)
qed

lemma tables_ok_add_vote:
  assumes ok: "tables_ok reqs votes grants" and r: "r \<in> set reqs"
    and v: "ap_request v = ar_id r" "ap_approver v \<noteq> ar_requester r" "vote_key v \<notin> vote_key ` set votes"
    and new: "request_ok (votes @ [v]) grants r"
  shows "tables_ok reqs (votes @ [v]) grants"
proof -
  have same: "x = r" if "x \<in> set reqs" "ar_id x = ar_id r" for x
    using ok r that distinct_key_eq [of ar_id reqs x r] by (simp add: tables_ok_def)
  have "request_ok (votes @ [v]) grants x" if x: "x \<in> set reqs" for x
  proof (cases "ar_id x = ar_id r")
    case False
    moreover have "request_ok votes grants x"
      using ok x by (simp add: tables_ok_def list_all_iff)
    ultimately show ?thesis using v(1) by (auto simp: request_ok_def)
  qed (use same x new in metis)
  moreover have "vote_ok reqs v"
    using r v by (auto simp: vote_ok_def list_ex_iff)
  ultimately show ?thesis
    using ok v(3) by (simp add: tables_ok_def list_all_iff)
qed

text \<open>A change of grants that keeps their identity and terms.\<close>

definition same_terms :: "access_grant \<Rightarrow> access_grant \<Rightarrow> bool" where
  "same_terms g g' = (ag_id g' = ag_id g \<and> ag_request g' = ag_request g \<and> ag_role g' = ag_role g \<and>
     ag_asset g' = ag_asset g \<and> ag_subject g' = ag_subject g)"

lemma tables_ok_map_grants:
  assumes "tables_ok reqs votes grants" and "\<And>g. same_terms g (f g)"
  shows "tables_ok reqs votes (map f grants)"
proof -
  have keep: "ag_id (f g) = ag_id g" "ag_request (f g) = ag_request g" "ag_role (f g) = ag_role g"
    "ag_asset (f g) = ag_asset g" "ag_subject (f g) = ag_subject g" for g
    using assms(2) [of g] by (simp_all add: same_terms_def)
  have "has_grant (map f grants) rid = has_grant grants rid" for rid
    by (simp add: has_grant_def list_ex_iff keep)
  then have "request_ok votes (map f grants) = request_ok votes grants"
    by (simp add: request_ok_def fun_eq_iff)
  moreover have "grant_ok reqs (f g) = grant_ok reqs g" for g
    by (simp add: grant_ok_def keep)
  ultimately show ?thesis
    using assms(1) by (simp add: tables_ok_def keep comp_def list_all_iff)
qed

lemma tables_ok_delete_role:
  assumes ok: "tables_ok reqs votes grants"
    and gone: "gone = map ar_id (filter (\<lambda>r. ar_role r = role) reqs)"
  shows "tables_ok (filter (\<lambda>r. ar_role r \<noteq> role) reqs) (filter (\<lambda>a. ap_request a \<notin> set gone) votes)
    (filter (\<lambda>g. ag_role g \<noteq> role \<and> ag_request g \<notin> set gone) grants)"
proof -
  let ?R = "filter (\<lambda>r. ar_role r \<noteq> role) reqs" and ?V = "filter (\<lambda>a. ap_request a \<notin> set gone) votes"
    and ?G = "filter (\<lambda>g. ag_role g \<noteq> role \<and> ag_request g \<notin> set gone) grants"
  have dist: "x = y" if "x \<in> set reqs" "y \<in> set reqs" "ar_id x = ar_id y" for x y
    using ok that distinct_key_eq [of ar_id reqs x y] by (simp add: tables_ok_def)
  have kept: "ar_id r \<notin> set gone" if "r \<in> set ?R" for r
    using that dist by (auto simp: gone)
  have votes: "n_votes ?V (ar_id r) dec = n_votes votes (ar_id r) dec" if "r \<in> set ?R" for r dec
    using kept [OF that] by (auto simp: n_votes_def intro!: arg_cong [where f = length] filter_cong)
  have grole: "ag_role g = ar_role r" if "r \<in> set reqs" "g \<in> set grants" "ag_request g = ar_id r" for r g
  proof -
    have "grant_ok reqs g" using ok that(2) by (simp add: tables_ok_def list_all_iff)
    then obtain x where "x \<in> set reqs" "ar_id x = ag_request g" "ar_role x = ag_role g"
      by (auto simp: grant_ok_def list_ex_iff)
    with dist that show ?thesis by metis
  qed
  have grants: "has_grant ?G (ar_id r) = has_grant grants (ar_id r)" if "r \<in> set ?R" for r
    using kept [OF that] grole that by (auto simp: has_grant_def list_ex_iff)
  have "request_ok ?V ?G r" if "r \<in> set ?R" for r
    using ok that votes [OF that] grants [OF that]
    by (simp add: request_ok_def tables_ok_def list_all_iff)
  moreover have "grant_ok ?R g" if "g \<in> set ?G" for g
    using ok that by (force simp: tables_ok_def list_all_iff grant_ok_def list_ex_iff)
  moreover have "vote_ok ?R a" if "a \<in> set ?V" for a
    using ok that by (force simp: tables_ok_def list_all_iff vote_ok_def list_ex_iff gone)
  ultimately show ?thesis
    using ok by (simp add: tables_ok_def list_all_iff distinct_map_filter)
qed

section \<open>Successful operations\<close>

lemma audit_keeps_db [simp]:
  "w_db (audit_enqueue s e w) = w_db w" "w_db (enqueue s ty actor req w) = w_db w"
  "w_db (enqueueGrant s actor req gid w) = w_db w" "w_db (enqueueRevoked s actor g w) = w_db w"
  "w_db (enqueueExpired s g w) = w_db w" "w_db (terminate gid w) = w_db w"
  by (simp_all add: audit_enqueue_def enqueue_def enqueueGrant_def enqueueRevoked_def
      enqueueExpired_def terminate_def)

lemma fold_keeps_db [simp]:
  "w_db (fold (enqueueRevoked s actor) gs w) = w_db w"
  "w_db (fold (enqueueExpired s) gs w) = w_db w"
  "w_db (terminate_all gs w) = w_db w"
  unfolding terminate_all_def by (induction gs arbitrary: w) simp_all

definition new_request ::
  "clocks \<Rightarrow> uuid \<Rightarrow> uuid \<Rightarrow> uuid \<Rightarrow> uuid \<Rightarrow> duration \<Rightarrow> string \<Rightarrow> Rule \<Rightarrow> duration \<Rightarrow> access_request" where
  "new_request ck req_id requester roleID assetID dur reason rule granted =
     \<lparr>ar_id = req_id, ar_requester = requester, ar_role = roleID, ar_asset = assetID,
      ar_reason = reason, ar_requested_duration = durationToInterval dur,
      ar_required_approvals = rule_RequiredApprovals rule,
      ar_granted_duration = durationToInterval granted,
      ar_status = (if rule_RequiredApprovals rule = 0 then Granted else Pending),
      ar_created_at = at_tx ck, ar_resolved_at = None\<rparr>"

lemma RequestAccess_success:
  assumes "RequestAccess s ck req_id grant_id w requester roleID assetID dur reason = Inr (res, w')"
  obtains rule granted req d1 where
    "IsEligibleRequester (w_db w) requester roleID assetID"
    "EffectiveRule (w_db w) roleID assetID = Some rule"
    "\<not> HoldsRole (w_db w) (at_query ck) requester roleID KAsset assetID"
    "granted = clamp s dur (rule_MaxDuration rule)" "0 < granted"
    "req = new_request ck req_id requester roleID assetID dur reason rule granted"
    "CreateAccessRequest (w_db w) req = Inr d1"
    "rule_RequiredApprovals rule \<noteq> 0 \<Longrightarrow> w_db w' = d1"
    "rule_RequiredApprovals rule = 0 \<Longrightarrow> \<exists>g d2. mintGrant ck grant_id d1 req granted = Inr (g, d2) \<and>
       w_db w' = SetAccessRequestStatus d2 Granted (at_go ck) req_id"
proof -
  from assms obtain rule where r: "IsEligibleRequester (w_db w) requester roleID assetID"
    "EffectiveRule (w_db w) roleID assetID = Some rule"
    "\<not> HoldsRole (w_db w) (at_query ck) requester roleID KAsset assetID"
    "0 < clamp s dur (rule_MaxDuration rule)"
    by (auto simp: RequestAccess_def Let_def not_le split: if_splits option.splits)
  let ?g = "clamp s dur (rule_MaxDuration rule)"
  let ?req = "new_request ck req_id requester roleID assetID dur reason rule ?g"
  from assms r obtain d1 where d1: "CreateAccessRequest (w_db w) ?req = Inr d1"
    by (auto simp: RequestAccess_def Let_def new_request_def split: if_splits sum.splits db_error.splits)
  have pend: "rule_RequiredApprovals rule \<noteq> 0 \<Longrightarrow> w_db w' = d1"
    using assms r d1 by (auto simp: RequestAccess_def Let_def new_request_def)
  have self: "rule_RequiredApprovals rule = 0 \<Longrightarrow> \<exists>g d2. mintGrant ck grant_id d1 ?req ?g = Inr (g, d2) \<and>
      w_db w' = SetAccessRequestStatus d2 Granted (at_go ck) req_id"
    using assms r d1 by (auto simp: RequestAccess_def Let_def new_request_def split: sum.splits prod.splits)
  show thesis
    by (rule that [OF r(1-3) refl r(4) refl d1 pend self])
qed

lemma CreateAccessRequest_success:
  assumes "CreateAccessRequest d r = Inr d1"
  shows "d1 = d\<lparr>access_requests := access_requests d @ [r]\<rparr> \<and> ar_id r \<notin> ar_id ` set (access_requests d) \<and>
    (\<forall>r' \<in> set (access_requests d). \<not> pending_duplicate r r')"
  using assms by (auto simp: CreateAccessRequest_def list_ex_iff split: if_splits)

lemma mintGrant_success:
  assumes "mintGrant ck gid d req granted = Inr (g, d2)"
  shows "d2 = d\<lparr>access_grants := access_grants d @ [g]\<rparr> \<and> ag_id g = gid \<and> ag_request g = ar_id req \<and>
    ag_role g = ar_role req \<and> ag_asset g = ar_asset req \<and> ag_subject g = ar_requester req \<and>
    ag_granted_at g = at_tx ck \<and> ag_expires_at g = pg_timestamp (at_go ck + granted) \<and>
    ag_revoked_at g = None \<and>
    gid \<notin> ag_id ` set (access_grants d) \<and> \<not> has_grant (access_grants d) (ar_id req)"
  using assms
  by (auto simp: mintGrant_def Let_def CreateAccessGrant_def list_ex_iff has_grant_iff
      split: if_splits sum.splits)

lemma AddApproval_success:
  assumes "AddApproval d rid approver dec = Inr d1"
  shows "d1 = d\<lparr>request_approvals := request_approvals d @
      [\<lparr>ap_request = rid, ap_approver = approver, ap_decision = dec\<rparr>]\<rparr> \<and>
    (rid, approver) \<notin> vote_key ` set (request_approvals d)"
  using assms by (auto simp: AddApproval_def list_ex_iff vote_key_def split: if_splits)

lemma vote_success:
  assumes "vote s ck grant_id w approver requestID decision = Inr (res, w')"
  obtains req d1 where
    "GetAccessRequest (w_db w) requestID = Some req" "ar_status req = Pending"
    "IsApprover (w_db w) approver (ar_role req) (ar_asset req)" "approver \<noteq> ar_requester req"
    "decision = Approve \<Longrightarrow> IsEligibleRequester (w_db w) (ar_requester req) (ar_role req) (ar_asset req)"
    "AddApproval (w_db w) requestID approver decision = Inr d1"
    "decision = Deny \<Longrightarrow> vote_deny s ck w d1 req approver = Inr (res, w')"
    "decision = Approve \<Longrightarrow> vote_approve s ck grant_id w d1 req approver = Inr (res, w')"
  using assms that
  by (cases decision)
    (auto simp: vote_def split: option.splits if_splits sum.splits db_error.splits)

lemma vote_approve_success:
  assumes "vote_approve s ck grant_id w d1 req approver = Inr (res, w')"
  shows "(CountApprovals d1 (ar_id req) < ar_required_approvals req \<and> w_db w' = d1) \<or>
    (ar_required_approvals req \<le> CountApprovals d1 (ar_id req) \<and>
     (\<exists>g d2. mintGrant ck grant_id d1 req (mustDuration (ar_granted_duration req)) = Inr (g, d2) \<and>
        w_db w' = SetAccessRequestStatus d2 Granted (at_go ck) (ar_id req)))"
  using assms by (auto simp: vote_approve_def Let_def not_le split: if_splits sum.splits prod.splits)

lemma vote_deny_success:
  "vote_deny s ck w d1 req approver = Inr (res, w') \<Longrightarrow>
     w_db w' = SetAccessRequestStatus d1 Denied (at_go ck) (ar_id req)"
  by (auto simp: vote_deny_def Let_def)

lemma Cancel_success:
  assumes "Cancel s ck w requester requestID = Inr w'"
  obtains req where "GetAccessRequest (w_db w) requestID = Some req" "ar_requester req = requester"
    "ar_status req = Pending" "w_db w' = SetAccessRequestStatus (w_db w) Cancelled (at_go ck) requestID"
  using assms by (auto simp: Cancel_def Let_def split: option.splits if_splits)

lemma GetAccessRequest_Some:
  "GetAccessRequest d rid = Some r \<Longrightarrow> r \<in> set (access_requests d) \<and> ar_id r = rid"
  by (auto simp: GetAccessRequest_def find_Some_iff)

section \<open>Every step keeps the invariant\<close>

lemma EffectiveRule_required:
  assumes "schema_checks d" and "EffectiveRule d role asset = Some rule"
  shows "0 \<le> rule_RequiredApprovals rule"
proof -
  from assms(2) obtain ep where "authz_effective_request_policy d role asset = Some ep"
    "rule = policy_rule ep" by (auto simp: EffectiveRule_def)
  with effective_policy_mem assms(1) show ?thesis
    by (fastforce simp: policy_rule_def schema_checks_def list_all_iff policy_check_def)
qed

lemma schema_checks_tables [simp]:
  "schema_checks (d\<lparr>access_requests := rs\<rparr>) = schema_checks d"
  "schema_checks (d\<lparr>request_approvals := vs\<rparr>) = schema_checks d"
  "schema_checks (d\<lparr>access_grants := gs\<rparr>) = schema_checks d"
  by (simp_all add: schema_checks_def)

lemma request_ok_at:
  "workflow_ok d \<Longrightarrow> r \<in> set (access_requests d) \<Longrightarrow>
     request_ok (request_approvals d) (access_grants d) r"
  by (simp add: workflow_ok_def tables_ok_def list_all_iff)

lemma RequestAccess_ok:
  assumes "workflow_ok (w_db w)"
    and "RequestAccess s ck req_id grant_id w requester roleID assetID dur reason = Inr (res, w')"
  shows "workflow_ok (w_db w')"
  using assms(2)
proof (cases rule: RequestAccess_success)
  case (1 rule granted req d1)
  let ?d = "w_db w"
  let ?R = "access_requests ?d" and ?V = "request_approvals ?d" and ?G = "access_grants ?d"
  note d1 = CreateAccessRequest_success [OF 1(7)]
  have ok: "tables_ok ?R ?V ?G" using assms(1) by (simp add: workflow_ok_def)
  have id: "ar_id req = req_id" using 1(6) by (simp add: new_request_def)
  have fresh: "n_votes ?V req_id dec = 0" "\<not> has_grant ?G req_id" for dec
    using fresh_request_no_votes [OF ok, of req_id] d1 id by auto
  have pos: "0 \<le> rule_RequiredApprovals rule"
    using assms(1) by (intro EffectiveRule_required [OF _ 1(2)]) (simp add: workflow_ok_def)
  show ?thesis
  proof (cases "rule_RequiredApprovals rule = 0")
    case False
    have "request_ok ?V ?G req"
      using False pos fresh by (simp add: request_ok_def 1(6) new_request_def)
    then have "tables_ok (?R @ [req]) ?V ?G"
      using d1 by (intro tables_ok_insert [OF ok]) auto
    with False 1(8) d1 assms(1) show ?thesis by (simp add: workflow_ok_def)
  next
    case True
    with 1(9) obtain g d2 where m: "mintGrant ck grant_id d1 req granted = Inr (g, d2)"
      and w': "w_db w' = SetAccessRequestStatus d2 Granted (at_go ck) req_id" by blast
    note g = mintGrant_success [OF m]
    let ?req = "resolve_row req_id Granted (at_go ck) req"
    have "resolve_row req_id Granted (at_go ck) x = x" if "x \<in> set ?R" for x
      using that d1 id by (intro resolve_row_other) (metis imageI)
    then have rows: "map (resolve_row req_id Granted (at_go ck)) (?R @ [req]) = ?R @ [?req]"
      by (simp add: map_idI)
    have "request_ok ?V (?G @ [g]) ?req"
      using True fresh g id by (simp add: request_ok_def resolve_row_def 1(6) new_request_def)
    moreover have "grant_ok [?req] g" using g by (simp add: grant_ok_def)
    moreover have "\<not> pending_duplicate ?req r'" for r'
      using id by (simp add: pending_duplicate_def resolve_row_def)
    ultimately have "tables_ok (?R @ [?req]) ?V (?G @ [g])"
      using g d1 by (intro tables_ok_insert [OF ok]) auto
    with w' g d1 rows assms(1) show ?thesis
      by (simp add: workflow_ok_def SetAccessRequestStatus_rows)
  qed
qed

lemma vote_deny_ok:
  assumes "workflow_ok d" and "r \<in> set (access_requests d)" and "ar_status r = Pending"
    and "approver \<noteq> ar_requester r" and "AddApproval d (ar_id r) approver Deny = Inr d1"
  shows "workflow_ok (SetAccessRequestStatus d1 Denied t (ar_id r))"
proof -
  note d1 = AddApproval_success [OF assms(5)]
  have "tables_ok (map (resolve_row (ar_id r) Denied t) (access_requests d))
      (request_approvals d @ [\<lparr>ap_request = ar_id r, ap_approver = approver, ap_decision = Deny\<rparr>])
      (access_grants d)"
  proof (rule tables_ok_resolve)
    show "tables_ok (access_requests d) (request_approvals d) (access_grants d)"
      using assms(1) by (simp add: workflow_ok_def)
    show "request_ok (request_approvals d @ [\<lparr>ap_request = ar_id r, ap_approver = approver,
        ap_decision = Deny\<rparr>]) (access_grants d) (resolve_row (ar_id r) Denied t r)"
      using request_ok_at [OF assms(1,2)] assms(3) by (simp add: request_ok_def resolve_row_def)
  qed (use assms d1 in \<open>auto simp: vote_key_def\<close>)
  with d1 assms(1) show ?thesis
    by (simp add: workflow_ok_def SetAccessRequestStatus_rows)
qed

lemma vote_approve_ok:
  assumes "workflow_ok d" and "r \<in> set (access_requests d)" and "ar_status r = Pending"
    and "approver \<noteq> ar_requester r" and "AddApproval d (ar_id r) approver Approve = Inr d1"
  shows "CountApprovals d1 (ar_id r) < ar_required_approvals r \<Longrightarrow> workflow_ok d1"
    and "ar_required_approvals r \<le> CountApprovals d1 (ar_id r) \<Longrightarrow>
      mintGrant ck gid d1 r dur = Inr (g, d2) \<Longrightarrow>
      workflow_ok (SetAccessRequestStatus d2 Granted t (ar_id r))"
proof -
  let ?v = "\<lparr>ap_request = ar_id r, ap_approver = approver, ap_decision = Approve\<rparr>"
  note d1 = AddApproval_success [OF assms(5)]
  have ok: "tables_ok (access_requests d) (request_approvals d) (access_grants d)"
    using assms(1) by (simp add: workflow_ok_def)
  note rok = request_ok_at [OF assms(1,2)]
  show "workflow_ok d1" if "CountApprovals d1 (ar_id r) < ar_required_approvals r"
  proof -
    have "tables_ok (access_requests d) (request_approvals d @ [?v]) (access_grants d)"
      using assms(2-4) d1 rok that
      by (intro tables_ok_add_vote [OF ok])
        (auto simp: vote_key_def request_ok_def CountApprovals_n_votes)
    with d1 assms(1) show ?thesis by (simp add: workflow_ok_def)
  qed
  show "workflow_ok (SetAccessRequestStatus d2 Granted t (ar_id r))"
    if c: "ar_required_approvals r \<le> CountApprovals d1 (ar_id r)" and m: "mintGrant ck gid d1 r dur = Inr (g, d2)"
  proof -
    note g = mintGrant_success [OF m]
    have "tables_ok (map (resolve_row (ar_id r) Granted t) (access_requests d))
        (request_approvals d @ [?v]) (access_grants d @ [g])"
    proof (rule tables_ok_resolve [OF ok assms(2)])
      show "request_ok (request_approvals d @ [?v]) (access_grants d @ [g])
          (resolve_row (ar_id r) Granted t r)"
        using rok assms(3) d1 g c by (auto simp: request_ok_def resolve_row_def CountApprovals_n_votes)
      have "grant_ok (access_requests d) g"
        using g assms(2) by (auto simp: grant_ok_def list_ex_iff)
      with g d1 show "access_grants d @ [g] = access_grants d \<or> (\<exists>g'. access_grants d @ [g] = access_grants d @ [g'] \<and>
          ag_request g' = ar_id r \<and> ag_id g' \<notin> ag_id ` set (access_grants d) \<and>
          \<not> has_grant (access_grants d) (ar_id r) \<and> grant_ok (access_requests d) g')"
        by simp
    qed (use assms d1 in \<open>auto simp: vote_key_def\<close>)
    with d1 g assms(1) show ?thesis
      by (simp add: workflow_ok_def SetAccessRequestStatus_rows)
  qed
qed

lemma vote_ok_step:
  assumes "workflow_ok (w_db w)" and "vote s ck gid w approver rid dec = Inr (res, w')"
  shows "workflow_ok (w_db w')"
  using assms(2)
proof (cases rule: vote_success)
  case (1 r d1)
  have r: "r \<in> set (access_requests (w_db w))" "rid = ar_id r"
    using GetAccessRequest_Some [OF 1(1)] by auto
  note st = assms(1) r(1) 1(2) 1(4) 1(6) [unfolded r(2)]
  show ?thesis
  proof (cases dec)
    case Deny
    then show ?thesis using vote_deny_success [OF 1(7)] vote_deny_ok st by simp
  next
    case Approve
    then show ?thesis
      using vote_approve_success [OF 1(8)] vote_approve_ok [OF st(1-4), of d1] st(5) by auto
  qed
qed

lemma stamp_same_terms: "same_terms g (stamp_revoked now by reason g)"
  by (simp add: same_terms_def stamp_revoked_def)

lemma update_grants_tables:
  "access_requests (snd (update_grants c f d)) = access_requests d"
  "request_approvals (snd (update_grants c f d)) = request_approvals d"
  "schema_checks (snd (update_grants c f d)) = schema_checks d"
  by (simp_all add: update_grants_def)

lemma update_grants_ok:
  assumes "workflow_ok d" and "\<And>g. same_terms g (f g)"
  shows "workflow_ok (snd (update_grants c f d))"
proof -
  have "tables_ok (access_requests d) (request_approvals d)
      (map (\<lambda>g. if c g then f g else g) (access_grants d))"
    using assms by (intro tables_ok_map_grants) (auto simp: workflow_ok_def same_terms_def)
  with assms(1) show ?thesis by (simp add: workflow_ok_def update_grants_def)
qed

lemma RevokeGrant_success:
  assumes "RevokeGrant s ck w caller mgmt gid reason = Inr (g', w')"
  obtains g where "GetGrant (w_db w) gid = Some g"
    "mgmt \<or> ag_subject g = caller \<or> IsApprover (w_db w) caller (ag_role g) (ag_asset g)"
    "g' = stamp_revoked (at_tx ck) (Some caller) reason
      (hd (filter (\<lambda>g. ag_id g = gid \<and> ag_revoked_at g = None) (access_grants (w_db w))))"
    "filter (\<lambda>g. ag_id g = gid \<and> ag_revoked_at g = None) (access_grants (w_db w)) \<noteq> []"
    "w' = terminate (ag_id g') (enqueueRevoked s caller g'
      (w\<lparr>w_db := snd (RevokeGrant_q (w_db w) (at_tx ck) gid caller reason)\<rparr>))"
  using assms that
  by (auto simp: RevokeGrant_def RevokeGrant_q_def update_grants_def Let_def neq_Nil_conv
      split: option.splits if_splits list.splits prod.splits)

lemmas delete_role_defs = DeleteRoleBindingsForRole_def DeleteRoleGrantsForRole_def
  DeletePolicySubjectsForRole_def DeletePoliciesForRole_def NullRequesterRoleForRole_def
  NullApproverRoleForRole_def DeleteRole_q_def

definition strip_role :: "db \<Rightarrow> uuid \<Rightarrow> db" where
  "strip_role d role = NullApproverRoleForRole (NullRequesterRoleForRole (DeletePoliciesForRole
     (DeletePolicySubjectsForRole (DeleteRoleGrantsForRole (DeleteRoleBindingsForRole d role) role) role)
     role) role) role"

lemma strip_role_tables:
  "access_requests (strip_role d role) = access_requests d"
  "request_approvals (strip_role d role) = request_approvals d"
  "access_grants (strip_role d role) = access_grants d"
  "role_bindings (strip_role d role) = filter (\<lambda>rb. rb_role rb \<noteq> role) (role_bindings d)"
  "role_grants (strip_role d role) = filter (\<lambda>rg. \<not> (rg_role rg = role \<or> rg_source rg = role)) (role_grants d)"
  "users (strip_role d role) = users d" "folders (strip_role d role) = folders d"
  "assets (strip_role d role) = assets d" "group_memberships (strip_role d role) = group_memberships d"
  by (simp_all add: strip_role_def delete_role_defs)

lemma strip_role_policies:
  "rp \<in> set (request_policies (strip_role d role)) \<Longrightarrow>
     rp_role rp \<noteq> role \<and> rp_requester_role rp \<noteq> Some role \<and> rp_approver_role rp \<noteq> Some role \<and>
     (\<exists>rp' \<in> set (request_policies d). rp_id rp = rp_id rp' \<and>
        rp_required_approvals rp = rp_required_approvals rp' \<and>
        rp_scope_folder rp = rp_scope_folder rp' \<and> rp_scope_asset rp = rp_scope_asset rp')"
  by (auto simp: strip_role_def delete_role_defs split: if_splits)

lemma DeleteRole_q_tables:
  assumes "DeleteRole_q d role = Some d'"
  shows "access_requests d' = filter (\<lambda>r. ar_role r \<noteq> role) (access_requests d)"
    and "request_approvals d' = filter (\<lambda>a. ap_request a \<notin>
      set (map ar_id (filter (\<lambda>r. ar_role r = role) (access_requests d)))) (request_approvals d)"
    and "access_grants d' = filter (\<lambda>g. ag_role g \<noteq> role \<and> ag_request g \<notin>
      set (map ar_id (filter (\<lambda>r. ar_role r = role) (access_requests d)))) (access_grants d)"
    and "role_bindings d' = filter (\<lambda>rb. rb_role rb \<noteq> role) (role_bindings d)"
    and "role_grants d' = filter (\<lambda>rg. \<not> (rg_role rg = role \<or> rg_source rg = role)) (role_grants d)"
    and "request_policies d' = filter (\<lambda>rp. rp_role rp \<noteq> role) (request_policies d)"
    and "roles d' = filter (\<lambda>r. r_id r \<noteq> role) (roles d)"
    and "role_capabilities d' = filter (\<lambda>rc. rc_role rc \<noteq> role) (role_capabilities d)"
    and "users d' = users d" and "folders d' = folders d" and "assets d' = assets d"
    and "group_memberships d' = group_memberships d"
  using assms
  by (auto simp: DeleteRole_q_def DeleteRoleBindingsForRole_def DeleteRoleGrantsForRole_def
      DeletePoliciesForRole_def Let_def split: if_splits)

text \<open>The RESTRICT foreign keys never refuse the delete: the references are cleared before it.\<close>

lemma DeleteRole_after_strip: "\<exists>d'. DeleteRole_q (strip_role d role) role = Some d'"
  using strip_role_policies by (fastforce simp: DeleteRole_q_def Let_def list_ex_iff)

lemma DeleteRoleCascade_unfold:
  "DeleteRoleCascade s ck w actor role =
     (let (revoked, d1) = RevokeActiveGrantsForRole (w_db w) (at_tx ck) role actor ''role_deleted''
      in case DeleteRole_q (strip_role d1 role) role of
           None \<Rightarrow> Inl ErrDatabase
         | Some d8 \<Rightarrow> Inr (terminate_all revoked ((fold (enqueueRevoked s actor) revoked w)\<lparr>w_db := d8\<rparr>)))"
  unfolding DeleteRoleCascade_def strip_role_def Let_def by (rule refl)

lemma DeleteRoleCascade_success:
  assumes "DeleteRoleCascade s ck w actor role = Inr w'"
  obtains revoked d1 d8 where
    "RevokeActiveGrantsForRole (w_db w) (at_tx ck) role actor ''role_deleted'' = (revoked, d1)"
    "DeleteRole_q (strip_role d1 role) role = Some d8"
    "w' = terminate_all revoked ((fold (enqueueRevoked s actor) revoked w)\<lparr>w_db := d8\<rparr>)"
  using assms unfolding DeleteRoleCascade_unfold Let_def
  by (auto split: prod.splits option.splits)

lemma DeleteRoleCascade_ok:
  assumes "workflow_ok (w_db w)" and "DeleteRoleCascade s ck w actor role = Inr w'"
  shows "workflow_ok (w_db w')"
  using assms(2)
proof (cases rule: DeleteRoleCascade_success)
  case (1 revoked d1 d8)
  have "d1 = snd (RevokeActiveGrantsForRole (w_db w) (at_tx ck) role actor ''role_deleted'')"
    by (simp add: 1(1))
  then have "workflow_ok d1"
    by (simp add: RevokeActiveGrantsForRole_def update_grants_ok [OF assms(1) stamp_same_terms])
  then have ok: "tables_ok (access_requests d1) (request_approvals d1) (access_grants d1)"
    and chk: "list_all binding_check (role_bindings d1)" "list_all policy_check (request_policies d1)"
    by (simp_all add: workflow_ok_def schema_checks_def)
  note tab = DeleteRole_q_tables [OF 1(2)] strip_role_tables
  have "tables_ok (access_requests d8) (request_approvals d8) (access_grants d8)"
    unfolding tab by (rule tables_ok_delete_role [OF ok refl])
  moreover have "list_all policy_check (request_policies d8)"
    unfolding tab list_all_iff
  proof
    fix rp assume "rp \<in> set (filter (\<lambda>rp. rp_role rp \<noteq> role) (request_policies (strip_role d1 role)))"
    then have "rp \<in> set (request_policies (strip_role d1 role))" by simp
    from strip_role_policies [OF this] obtain rp' where "rp' \<in> set (request_policies d1)"
      "rp_required_approvals rp = rp_required_approvals rp'"
      "rp_scope_folder rp = rp_scope_folder rp'" "rp_scope_asset rp = rp_scope_asset rp'" by auto
    with chk(2) show "policy_check rp" by (simp add: list_all_iff policy_check_def)
  qed
  moreover have "list_all binding_check (role_bindings d8)"
    unfolding tab using chk(1) by (simp add: list_all_iff)
  ultimately show ?thesis by (simp add: workflow_ok_def schema_checks_def 1(3))
qed

theorem ar_step_ok: "ar_step s w w' \<Longrightarrow> workflow_ok (w_db w) \<Longrightarrow> workflow_ok (w_db w')"
proof (induction rule: ar_step.induct)
  case (revoke ck w caller mgmt gid reason g w')
  from this(1) show ?case
    by (cases rule: RevokeGrant_success)
      (simp add: RevokeGrant_q_def update_grants_ok [OF revoke.prems stamp_same_terms])
next
  case (revoke_user ck w actor u reason n w')
  then show ?case
    using update_grants_ok [OF revoke_user.prems stamp_same_terms]
    by (auto simp: RevokeGrantsForUser_def RevokeActiveGrantsForUser_def Let_def split_beta)
next
  case (reap ck w n w')
  then show ?case
    using update_grants_ok [OF reap.prems stamp_same_terms]
    by (auto simp: ReapExpired_def ExpireGrants_def Let_def split_beta)
next
  case (cancel ck w requester rid w')
  from this(1) show ?case
  proof (cases rule: Cancel_success)
    case (1 r)
    note r = GetAccessRequest_Some [OF 1(1)]
    have "tables_ok (map (resolve_row (ar_id r) Cancelled (at_go ck)) (access_requests (w_db w)))
        (request_approvals (w_db w)) (access_grants (w_db w))"
      using cancel.prems r 1(3) request_ok_at [OF cancel.prems, of r]
      by (intro tables_ok_resolve) (auto simp: workflow_ok_def request_ok_def resolve_row_def)
    with 1(4) r cancel.prems show ?thesis by (simp add: workflow_ok_def SetAccessRequestStatus_rows)
  qed
next
  case (environment w' w)
  then show ?case by (simp add: workflow_ok_def)
qed (blast intro: RequestAccess_ok vote_ok_step DeleteRoleCascade_ok)+

interpretation workflow: invariant_of ar_init "ar_step s" "\<lambda>w. workflow_ok (w_db w)" for s
proof
  show "workflow_ok (w_db w)" if "ar_init w" for w
    using that by (simp add: ar_init_def workflow_ok_def tables_ok_def)
qed (rule ar_step_ok)

end
