(* ===== verification/Containment.thy ===== *)
theory Containment
  imports Access Workflow
begin

text \<open>
  The containment invariant of the access configuration: a role whose home is a folder is bound,
  and has request policies, only within the subtree of that folder. The recursive query the
  service uses to decide this agrees with the ltree operator of the authorizer. Every operation
  of the service keeps the invariant.
\<close>

section \<open>The walk along parent links\<close>

lemma chain_step_self:
  assumes "folders_wf d" and "f \<in> set (folders d)"
  shows "f_parent f = None \<Longrightarrow> chain_step d f = []"
    and "g \<in> set (folders d) \<Longrightarrow> f_parent f = Some (f_id g) \<Longrightarrow> chain_step d f = [g]"
proof -
  show "f_parent f = None \<Longrightarrow> chain_step d f = []" by (simp add: chain_step_def)
  assume g: "g \<in> set (folders d)" "f_parent f = Some (f_id g)"
  have "filter (\<lambda>h. f_id h = f_id g) (folders d) = [g]"
    using assms(1) g(1) by (intro filter_key_distinct) (simp_all add: folders_wf_def)
  then show "chain_step d f = [g]" by (simp add: chain_step_def g(2))
qed

lemma chain_walk:
  assumes "folders_wf d" and "f \<in> set (folders d)" and "length (f_path_ids f) \<le> n"
  shows "map f_id (cte_union_all n (chain_step d) [f]) = rev (f_path_ids f)"
  using assms(2,3)
proof (induction n arbitrary: f)
  case 0
  then show ?case using path_not_Nil [OF assms(1)] by auto
next
  case (Suc n)
  show ?case
    using assms(1) Suc.prems(1)
  proof (cases rule: folder_cases)
    case root
    then show ?thesis by (simp add: chain_step_self [OF assms(1) Suc.prems(1)])
  next
    case (child g)
    have "map f_id (cte_union_all n (chain_step d) [g]) = rev (f_path_ids g)"
      using Suc.prems(2) child by (intro Suc.IH) auto
    then show ?thesis
      using child by (simp add: chain_step_self [OF assms(1) Suc.prems(1)])
  qed
qed

lemma FolderAncestorsAndSelf_path:
  assumes "folders_wf d" and "f \<in> set (folders d)"
  shows "FolderAncestorsAndSelf d (f_id f) = rev (f_path_ids f)"
proof -
  have "filter (\<lambda>g. f_id g = f_id f) (folders d) = [f]"
    using assms by (intro filter_key_distinct) (simp_all add: folders_wf_def)
  then show ?thesis
    using chain_walk [OF assms, of "Suc (length (folders d))"] length_path [OF assms]
    by (simp add: FolderAncestorsAndSelf_def)
qed

lemma FolderAncestorsAndSelf_missing:
  "x \<notin> f_id ` set (folders d) \<Longrightarrow> FolderAncestorsAndSelf d x = []"
proof -
  assume "x \<notin> f_id ` set (folders d)"
  then have "filter (\<lambda>g. f_id g = x) (folders d) = []" by (auto simp: filter_empty_conv)
  then show ?thesis by (simp add: FolderAncestorsAndSelf_def)
qed

lemma ancestor_queries_agree:
  assumes "folders_wf d"
  shows "set (FolderAncestorsAndSelf d x) = set (folderAncestorsAndSelf d x)"
proof (cases "x \<in> f_id ` set (folders d)")
  case True
  then obtain f where f: "f \<in> set (folders d)" "f_id f = x" by blast
  show ?thesis
    using FolderAncestorsAndSelf_path [OF assms f(1)] path_ancestors [OF assms f(1)] f(2) by simp
next
  case False
  then have "FolderPathIDs d x = None" by (simp add: FolderPathIDs_def GetFolder_None)
  then show ?thesis
    by (simp add: FolderAncestorsAndSelf_missing [OF False] folderAncestorsAndSelf_def)
qed

section \<open>The invariant\<close>

definition contained :: "db \<Rightarrow> uuid \<Rightarrow> uuid option \<Rightarrow> uuid option \<Rightarrow> bool" where
  "contained d role scopeFolder scopeAsset = (containedInRoleSubtree d role scopeFolder scopeAsset = Inr ())"

definition containment_ok :: "db \<Rightarrow> bool" where
  "containment_ok d =
     (list_all (\<lambda>b. contained d (rb_role b) (rb_scope_folder b) (rb_scope_asset b)) (role_bindings d) \<and>
      list_all (\<lambda>p. contained d (rp_role p) (rp_scope_folder p) (rp_scope_asset p)) (request_policies d))"

definition config_ok :: "db \<Rightarrow> bool" where
  "config_ok d = (schema_checks d \<and> policies_unique d \<and> distinct (map r_id (roles d)) \<and> containment_ok d)"

text \<open>
  The operations of the service that change the database. Deleting a role is the last one; its
  transaction lives in the access request service.
\<close>

inductive config_step :: "db \<Rightarrow> db \<Rightarrow> bool" where
  create_role: "CreateRole d i name folder caps = Inr (res, d') \<Longrightarrow> config_step d d'"
| add_grant: "AddRoleGrant d now i caller role source via scope = Inr (g, d') \<Longrightarrow> config_step d d'"
| remove_grant: "config_step d (RemoveRoleGrant d i)"
| create_binding: "CreateRoleBinding d now i caller role sf sa su sg scope = Inr (b, d') \<Longrightarrow> config_step d d'"
| delete_binding: "config_step d (DeleteRoleBinding d i)"
| create_policy: "CreateRequestPolicy d now i caller inp scope = Inr (p, d') \<Longrightarrow> config_step d d'"
| update_policy: "UpdateRequestPolicy d i n approver requester secs = Inr (p, d') \<Longrightarrow> config_step d d'"
| delete_policy: "config_step d (DeleteRequestPolicy d i)"
| add_subject: "AddPolicySubject d now i policy kind su sg = Inr (s, d') \<Longrightarrow> config_step d d'"
| remove_subject: "config_step d (RemovePolicySubject d i)"
| delete_role: "DeleteRole s ck \<lparr>w_db = d, w_outbox = ob, w_terminated = tm\<rparr> actor role = Inr w' \<Longrightarrow>
    config_step d (w_db w')"

definition config_init :: "db \<Rightarrow> bool" where
  "config_init d = (role_bindings d = [] \<and> request_policies d = [] \<and> distinct (map r_id (roles d)))"

lemma contained_cong:
  assumes "GetRole_q d' role = GetRole_q d role" and "folders d' = folders d" and "assets d' = assets d"
  shows "contained d' role sf sa = contained d role sf sa"
proof -
  have anc: "FolderAncestorsAndSelf d' x = FolderAncestorsAndSelf d x" for x
    using assms(2) by (simp add: FolderAncestorsAndSelf_def chain_step_def [abs_def])
  have ast: "GetAsset_q d' x = GetAsset_q d x" for x
    using assms(3) by (simp add: GetAsset_q_def)
  show ?thesis
    unfolding contained_def containedInRoleSubtree_def assms(1) anc ast ..
qed

lemma contained_update [simp]:
  "contained (d\<lparr>role_bindings := bs\<rparr>) role sf sa = contained d role sf sa"
  "contained (d\<lparr>role_grants := gs\<rparr>) role sf sa = contained d role sf sa"
  "contained (d\<lparr>request_policies := ps\<rparr>) role sf sa = contained d role sf sa"
  "contained (d\<lparr>policy_subjects := ss\<rparr>) role sf sa = contained d role sf sa"
  "contained (d\<lparr>role_capabilities := cs\<rparr>) role sf sa = contained d role sf sa"
  by (rule contained_cong; simp add: GetRole_q_def)+

lemma contained_role: "contained d role sf sa \<Longrightarrow> role \<in> r_id ` set (roles d)"
  by (auto simp: contained_def containedInRoleSubtree_def GetRole_q_def find_Some_iff split: option.splits)

section \<open>Preservation\<close>

lemma insert_capabilities:
  "\<exists>cs. fold (\<lambda>cap d. InsertRoleCapability d i (NormalizeCap cap)) caps x = x\<lparr>role_capabilities := cs\<rparr>"
proof (induction caps arbitrary: x)
  case Nil
  show ?case by (rule exI [of _ "role_capabilities x"]) simp
next
  case (Cons c caps)
  have "InsertRoleCapability x i (NormalizeCap c) = x\<lparr>role_capabilities :=
      role_capabilities (InsertRoleCapability x i (NormalizeCap c))\<rparr>"
    by (simp add: InsertRoleCapability_def)
  then obtain cs where "InsertRoleCapability x i (NormalizeCap c) = x\<lparr>role_capabilities := cs\<rparr>" ..
  with Cons [of "InsertRoleCapability x i (NormalizeCap c)"] show ?case by auto
qed

lemma CreateRole_ok:
  assumes "config_ok d" and "CreateRole d i name folder caps = Inr (res, d')"
  shows "config_ok d'"
proof -
  let ?r = "\<lparr>r_id = i, r_name = name, r_folder = folder\<rparr>"
  from assms(2) have new: "i \<notin> r_id ` set (roles d)" and
    d': "d' = fold (\<lambda>cap d. InsertRoleCapability d i (NormalizeCap cap)) caps (d\<lparr>roles := roles d @ [?r]\<rparr>)"
    by (auto simp: CreateRole_def CreateRole_q_def Let_def list_ex_iff split: if_splits sum.splits)
  obtain cs where d': "d' = (d\<lparr>roles := roles d @ [?r]\<rparr>)\<lparr>role_capabilities := cs\<rparr>"
    using insert_capabilities [of i caps] unfolding d' by blast
  have keep: "contained d' role sf sa" if "contained d role sf sa" for role sf sa
  proof -
    from contained_role [OF that] new have "role \<noteq> i" by blast
    then have "GetRole_q d' role = GetRole_q d role"
      by (simp add: d' GetRole_q_def find_append split: option.splits)
    then have "contained d' role sf sa = contained d role sf sa"
      by (rule contained_cong) (simp_all add: d')
    with that show ?thesis by simp
  qed
  have "containment_ok d'"
    using assms(1) keep by (auto simp: config_ok_def containment_ok_def list_all_iff d')
  moreover have "schema_checks d'" "policies_unique d'" "distinct (map r_id (roles d'))"
    using assms(1) new by (auto simp: config_ok_def schema_checks_def policies_unique_def d')
  ultimately show ?thesis by (simp add: config_ok_def)
qed

lemma policies_unique_insert:
  assumes "policies_unique d" and "\<not> list_ex (policy_conflict p) (request_policies d)"
  shows "policies_unique (d\<lparr>request_policies := request_policies d @ [p]\<rparr>)"
  using assms by (auto simp: policies_unique_def list_ex_iff policy_conflict_def)

lemma CreateRoleBinding_ok:
  assumes "config_ok d" and "CreateRoleBinding d now i caller role sf sa su sg scope = Inr (b, d')"
  shows "config_ok d'"
proof -
  from assms(2) have "contained d (rb_role b) (rb_scope_folder b) (rb_scope_asset b)" "binding_check b"
    "d' = d\<lparr>role_bindings := role_bindings d @ [b]\<rparr>"
    by (auto simp: CreateRoleBinding_def CreateRoleBinding_q_def contained_def Let_def
        split: sum.splits if_splits)
  with assms(1) show ?thesis
    by (simp add: config_ok_def containment_ok_def schema_checks_def policies_unique_def)
qed

lemma CreateRequestPolicy_ok:
  assumes "config_ok d" and "CreateRequestPolicy d now i caller inp scope = Inr (p, d')"
  shows "config_ok d'"
proof -
  from assms(2) have "contained d (rp_role p) (rp_scope_folder p) (rp_scope_asset p)" "policy_check p"
    "\<not> list_ex (policy_conflict p) (request_policies d)"
    "d' = d\<lparr>request_policies := request_policies d @ [p]\<rparr>"
    by (auto simp: CreateRequestPolicy_def CreateRequestPolicy_q_def contained_def Let_def
        split: sum.splits if_splits)
  with assms(1) policies_unique_insert [of d p] show ?thesis
    by (simp add: config_ok_def containment_ok_def schema_checks_def)
qed

lemma UpdateRequestPolicy_ok:
  assumes "config_ok d" and "UpdateRequestPolicy d i n approver requester secs = Inr (p, d')"
  shows "config_ok d'"
proof -
  let ?f = "\<lambda>p. if rp_id p = i then p\<lparr>rp_required_approvals := n, rp_approver_role := approver,
      rp_requester_role := requester, rp_max_duration := secondsToInterval secs\<rparr> else p"
  from assms(2) have d': "d' = d\<lparr>request_policies := map ?f (request_policies d)\<rparr>" and n: "0 \<le> n"
    by (auto simp: UpdateRequestPolicy_def UpdateRequestPolicy_q_def Let_def split: option.splits if_splits)
  have keys: "rp_role (?f p) = rp_role p" "rp_scope_folder (?f p) = rp_scope_folder p"
    "rp_scope_asset (?f p) = rp_scope_asset p" for p by simp_all
  have "policies_unique d'"
    using assms(1) by (simp add: d' config_ok_def policies_unique_def comp_def keys cong: map_cong)
  moreover have "policy_check (p\<lparr>rp_required_approvals := n, rp_approver_role := approver,
      rp_requester_role := requester, rp_max_duration := secondsToInterval secs\<rparr>)" if "policy_check p" for p
    using that n by (simp add: policy_check_def)
  ultimately show ?thesis
    using assms(1) by (auto simp: d' config_ok_def containment_ok_def schema_checks_def list_all_iff)
qed

lemma find_filter_other:
  "k \<noteq> k' \<Longrightarrow> find (\<lambda>x. key x = k) (filter (\<lambda>x. key x \<noteq> k') xs) = find (\<lambda>x. key x = k) xs"
  by (induction xs) auto

lemma distinct_map_image:
  "distinct (map key xs) \<Longrightarrow> (\<And>x. key (h x) = key x) \<Longrightarrow> distinct (map key (map h xs))"
  by (simp add: comp_def)

lemma strip_role_unique:
  assumes "policies_unique d"
  shows "policies_unique (strip_role d role)"
proof -
  let ?key = "\<lambda>rp. (rp_role rp, rp_scope_folder rp, rp_scope_asset rp)"
  have "distinct (map ?key (filter (\<lambda>rp. rp_role rp \<noteq> role) (request_policies d)))"
    using assms by (simp add: policies_unique_def distinct_map_filter)
  then have "distinct (map ?key (map (\<lambda>rp. if sql_eq (rp_approver_role rp) (Some role)
      then rp\<lparr>rp_approver_role := None\<rparr> else rp) (map (\<lambda>rp. if sql_eq (rp_requester_role rp) (Some role)
      then rp\<lparr>rp_requester_role := None\<rparr> else rp) (filter (\<lambda>rp. rp_role rp \<noteq> role) (request_policies d)))))"
    by (intro distinct_map_image) simp_all
  then show ?thesis
    unfolding policies_unique_def by (simp add: strip_role_def delete_role_defs)
qed

lemma DeleteRole_ok:
  assumes "config_ok d" and "DeleteRole s ck \<lparr>w_db = d, w_outbox = ob, w_terminated = tm\<rparr> actor role = Inr w'"
  shows "config_ok (w_db w')"
proof -
  from assms(2) have "DeleteRoleCascade s ck \<lparr>w_db = d, w_outbox = ob, w_terminated = tm\<rparr> actor role = Inr w'"
    by (simp add: DeleteRole_def split: sum.splits)
  then show ?thesis
  proof (cases rule: DeleteRoleCascade_success)
    case (1 revoked d1 d8)
    obtain gs where d1: "d1 = d\<lparr>access_grants := gs\<rparr>"
      using 1(1) by (auto simp: RevokeActiveGrantsForRole_def update_grants_def)
    note tab = DeleteRole_q_tables [OF 1(2)] strip_role_tables
    have roles: "roles (strip_role d1 role) = roles d"
      by (simp add: d1 strip_role_def delete_role_defs)
    have keep: "contained d8 r sf sa" if "contained d r sf sa" "r \<noteq> role" for r sf sa
    proof -
      have "GetRole_q d8 r = GetRole_q d r"
        using that(2) by (simp add: GetRole_q_def tab roles find_filter_other)
      then have "contained d8 r sf sa = contained d r sf sa"
        by (rule contained_cong) (simp_all add: tab d1)
      with that(1) show ?thesis by simp
    qed
    have pol: "rp \<in> set (request_policies d8) \<Longrightarrow> rp_role rp \<noteq> role \<and>
        (\<exists>rp' \<in> set (request_policies d). rp_role rp = rp_role rp' \<and> rp_required_approvals rp = rp_required_approvals rp' \<and>
          rp_scope_folder rp = rp_scope_folder rp' \<and> rp_scope_asset rp = rp_scope_asset rp')" for rp
      by (auto simp: tab strip_role_def delete_role_defs d1 split: if_splits)
    have "containment_ok d8"
      unfolding containment_ok_def list_all_iff
    proof (intro conjI ballI)
      fix b assume "b \<in> set (role_bindings d8)"
      then show "contained d8 (rb_role b) (rb_scope_folder b) (rb_scope_asset b)"
        using assms(1) by (intro keep) (auto simp: tab d1 config_ok_def containment_ok_def list_all_iff)
    next
      fix p assume "p \<in> set (request_policies d8)"
      from pol [OF this] show "contained d8 (rp_role p) (rp_scope_folder p) (rp_scope_asset p)"
        using assms(1) by (auto intro!: keep simp: config_ok_def containment_ok_def list_all_iff)
    qed
    moreover have "schema_checks d8"
      using assms(1) pol by (fastforce simp: schema_checks_def config_ok_def list_all_iff tab(4) strip_role_tables d1 policy_check_def)
    moreover have "policies_unique d8"
      using strip_role_unique [of d1 role] assms(1)
      by (simp add: policies_unique_def tab(6) distinct_map_filter config_ok_def d1)
    moreover have "distinct (map r_id (roles d8))"
      using assms(1) by (simp add: tab roles config_ok_def distinct_map_filter)
    ultimately show ?thesis by (simp add: config_ok_def 1(3))
  qed
qed

theorem config_step_ok: "config_step d d' \<Longrightarrow> config_ok d \<Longrightarrow> config_ok d'"
proof (induction rule: config_step.induct)
  case (create_role d i name folder caps res d')
  then show ?case using CreateRole_ok by blast
next
  case (add_grant d now i caller role source via scope g d')
  then have "\<exists>gs. d' = d\<lparr>role_grants := gs\<rparr>"
    by (auto simp: AddRoleGrant_def CreateRoleGrant_def Let_def split: sum.splits if_splits)
  with add_grant(2) show ?case
    by (auto simp: config_ok_def containment_ok_def schema_checks_def policies_unique_def)
next
  case (create_binding d now i caller role sf sa su sg scope b d')
  then show ?case using CreateRoleBinding_ok by blast
next
  case (create_policy d now i caller inp scope p d')
  then show ?case using CreateRequestPolicy_ok by blast
next
  case (update_policy d i n approver requester secs p d')
  then show ?case using UpdateRequestPolicy_ok by blast
next
  case (add_subject d now i policy kind su sg s d')
  then have "\<exists>ss. d' = d\<lparr>policy_subjects := ss\<rparr>"
    by (auto simp: AddPolicySubject_def AddPolicySubject_q_def Let_def split: sum.splits if_splits)
  with add_subject(2) show ?case
    by (auto simp: config_ok_def containment_ok_def schema_checks_def policies_unique_def)
next
  case (delete_role s ck d ob tm actor role w')
  then show ?case using DeleteRole_ok by blast
qed (auto simp: RemoveRoleGrant_def DeleteRoleGrant_def DeleteRoleBinding_def DeleteRoleBinding_q_def
      DeleteRequestPolicy_def DeleteRequestPolicy_q_def RemovePolicySubject_def RemovePolicySubject_q_def
      config_ok_def containment_ok_def schema_checks_def policies_unique_def list_all_iff distinct_map_filter)

interpretation config: invariant_of config_init config_step config_ok
proof
  show "config_ok d" if "config_init d" for d
    using that by (simp add: config_init_def config_ok_def containment_ok_def schema_checks_def policies_unique_def)
  show "config_ok d'" if "config_ok d" "config_step d d'" for d d'
    using that config_step_ok by blast
qed

end
