(* ===== verification/WorkflowProperties.thy ===== *)
theory WorkflowProperties
  imports Workflow
begin

text \<open>
  The properties of the access workflow, over the operations of \<open>AccessRequest\<close> and the transition
  system of \<open>Workflow\<close>: the invariant of reachable states, what minting a grant requires, that a
  resolved request is final, the bounds of a granted window, what revocation, expiry and role
  deletion take away, and the agreement of the set-based review queries with the resolver.
\<close>

section \<open>A run\<close>

definition sample_service :: Service where
  "sample_service = NewService True (4 * go_hour)"

definition sample_clocks :: "time \<Rightarrow> clocks" where
  "sample_clocks t = \<lparr>at_query = t, at_tx = t, at_go = t\<rparr>"

definition sample_world :: world where
  "sample_world = \<lparr>w_db = sample_db, w_outbox = [], w_terminated = []\<rparr>"

definition sample_requested :: world where
  "sample_requested = snd (projr (RequestAccess sample_service (sample_clocks 1000) 80 90
     sample_world 1 30 20 go_hour ''incident''))"

definition sample_approved1 :: world where
  "sample_approved1 = snd (projr (vote sample_service (sample_clocks 2000) 90 sample_requested 2 80 Approve))"

definition sample_approved2 :: world where
  "sample_approved2 = snd (projr (vote sample_service (sample_clocks 3000) 90 sample_approved1 4 80 Approve))"

lemma isr_pair: "\<not> isl x \<Longrightarrow> x = Inr (fst (projr x), snd (projr x))"
  by (cases x) auto

lemma sample_reachable:
  "reach ar_init (ar_step sample_service) sample_approved2"
proof -
  have "\<not> isl (RequestAccess sample_service (sample_clocks 1000) 80 90 sample_world 1 30 20 go_hour ''incident'')"
    by code_simp
  then have 1: "ar_step sample_service sample_world sample_requested"
    unfolding sample_requested_def by (rule ar_step.request [OF isr_pair])
  have "\<not> isl (vote sample_service (sample_clocks 2000) 90 sample_requested 2 80 Approve)" by code_simp
  then have 2: "ar_step sample_service sample_requested sample_approved1"
    unfolding sample_approved1_def by (rule ar_step.vote [OF isr_pair])
  have "\<not> isl (vote sample_service (sample_clocks 3000) 90 sample_approved1 4 80 Approve)" by code_simp
  then have 3: "ar_step sample_service sample_approved1 sample_approved2"
    unfolding sample_approved2_def by (rule ar_step.vote [OF isr_pair])
  have "ar_init sample_world" by code_simp
  then have "reach ar_init (ar_step sample_service) sample_world" by (rule reach.start)
  then have "reach ar_init (ar_step sample_service) sample_requested" using 1 by (rule reach.onward)
  then have "reach ar_init (ar_step sample_service) sample_approved1" using 2 by (rule reach.onward)
  then show ?thesis using 3 by (rule reach.onward)
qed

section \<open>The invariant\<close>



section \<open>Minting\<close>

definition approvers :: "db \<Rightarrow> uuid \<Rightarrow> uuid set" where
  "approvers d rid = {ap_approver a |a. a \<in> set (request_approvals d) \<and> ap_request a = rid \<and>
     ap_decision a = Approve}"

lemma card_approvers:
  assumes "workflow_ok d"
  shows "card (approvers d rid) = n_votes (request_approvals d) rid Approve"
proof -
  let ?xs = "filter (\<lambda>a. ap_request a = rid \<and> ap_decision a = Approve) (request_approvals d)"
  have "distinct (map vote_key (request_approvals d))"
    using assms by (simp add: workflow_ok_def tables_ok_def)
  then have "inj_on vote_key (set ?xs)" and d: "distinct ?xs"
    by (auto simp: distinct_map intro: inj_on_subset)
  then have "inj_on ap_approver (set ?xs)"
    by (auto simp: inj_on_def vote_key_def)
  moreover have "approvers d rid = ap_approver ` set ?xs"
    by (auto simp: approvers_def)
  ultimately show ?thesis
    using d by (simp add: card_image distinct_card n_votes_def del: set_filter)
qed

lemma requester_not_approver:
  assumes "workflow_ok d" and "r \<in> set (access_requests d)"
  shows "ar_requester r \<notin> approvers d (ar_id r)"
proof
  assume "ar_requester r \<in> approvers d (ar_id r)"
  then obtain a where a: "a \<in> set (request_approvals d)" "ap_request a = ar_id r" "ap_approver a = ar_requester r"
    by (auto simp: approvers_def)
  with assms(1) obtain x where "x \<in> set (access_requests d)" "ar_id x = ar_id r" "ap_approver a \<noteq> ar_requester x"
    by (fastforce simp: workflow_ok_def tables_ok_def list_all_iff vote_ok_def list_ex_iff)
  moreover from this(1,2) assms have "x = r"
    using distinct_key_eq [of ar_id "access_requests d" x r] by (simp add: workflow_ok_def tables_ok_def)
  ultimately show False using a(3) by simp
qed

text \<open>A step that adds a grant is a self-service request or an approval.\<close>

lemma new_grant_cases:
  assumes "ar_step s w w'" and "workflow_ok (w_db w)"
    and "g \<in> set (access_grants (w_db w'))" and "ag_id g \<notin> ag_id ` set (access_grants (w_db w))"
  obtains r where "r \<in> set (access_requests (w_db w'))" "ar_id r = ag_request g" "ar_status r = Granted"
    "ar_role r = ag_role g" "ar_asset r = ag_asset g" "ar_requester r = ag_subject g"
    "IsEligibleRequester (w_db w) (ag_subject g) (ag_role g) (ag_asset g)"
    "ag_revoked_at g = None"
  using assms(1)
proof (cases rule: ar_step.cases)
  case (request ck req_id gid requester role asset dur reason res)
  from request(1) show thesis
  proof (cases rule: RequestAccess_success)
    case (1 rule granted req d1)
    note d1 = CreateAccessRequest_success [OF 1(7)]
    have self: "rule_RequiredApprovals rule = 0"
      using assms(3,4) 1(8) d1 by (cases "rule_RequiredApprovals rule = 0") auto
    with 1(9) obtain g' d2 where m: "mintGrant ck gid d1 req granted = Inr (g', d2)"
      and w': "w_db w' = SetAccessRequestStatus d2 Granted (at_go ck) req_id" by blast
    note gr = mintGrant_success [OF m]
    have "g = g'" using assms(3,4) gr d1 w' by (auto simp: SetAccessRequestStatus_rows)
    moreover have "resolve_row req_id Granted (at_go ck) req \<in> set (access_requests (w_db w'))"
      using w' gr d1 by (simp add: SetAccessRequestStatus_rows)
    ultimately show thesis
      using that [of "resolve_row req_id Granted (at_go ck) req"] gr 1(1,6)
      by (simp add: new_request_def resolve_row_def)
  qed
next
  case (vote ck gid approver rid dec res)
  from vote(1) show thesis
  proof (cases rule: vote_success)
    case (1 r d1)
    note d1 = AddApproval_success [OF 1(6)] and r = GetAccessRequest_Some [OF 1(1)]
    have app: "dec = Approve"
      using assms(3,4) vote_deny_success [OF 1(7)] d1 r
      by (cases dec) (auto simp: SetAccessRequestStatus_rows)
    have "\<not> (CountApprovals d1 (ar_id r) < ar_required_approvals r \<and> w_db w' = d1)"
      using assms(3,4) d1 by auto
    with vote_approve_success [OF 1(8) [OF app]] obtain g' d2 where
      m: "mintGrant ck gid d1 r (mustDuration (ar_granted_duration r)) = Inr (g', d2)"
      and w': "w_db w' = SetAccessRequestStatus d2 Granted (at_go ck) (ar_id r)" by blast
    note gr = mintGrant_success [OF m]
    have "g = g'" using assms(3,4) gr d1 w' by (auto simp: SetAccessRequestStatus_rows)
    moreover have "resolve_row (ar_id r) Granted (at_go ck) r \<in> set (access_requests (w_db w'))"
      using w' gr d1 r by (simp add: SetAccessRequestStatus_rows)
    ultimately show thesis
      using that [of "resolve_row (ar_id r) Granted (at_go ck) r"] gr 1(5) [OF app]
      by (simp add: resolve_row_def)
  qed
next
  case (cancel ck requester rid)
  from cancel(1) show thesis
    by (cases rule: Cancel_success) (use assms(3,4) in \<open>auto simp: SetAccessRequestStatus_rows\<close>)
next
  case (revoke ck caller mgmt gid reason g')
  from revoke(1) show thesis
    by (cases rule: RevokeGrant_success)
      (use assms(3,4) in \<open>auto simp: RevokeGrant_q_def update_grants_def stamp_revoked_def split: if_splits\<close>)
next
  case (revoke_user ck actor u reason n)
  then show thesis using assms(3,4)
    by (auto simp: RevokeGrantsForUser_def RevokeActiveGrantsForUser_def update_grants_def Let_def
        stamp_revoked_def split: if_splits)
next
  case (reap ck n)
  then show thesis using assms(3,4)
    by (auto simp: ReapExpired_def ExpireGrants_def update_grants_def Let_def
        stamp_revoked_def split: if_splits)
next
  case (delete_role ck actor role)
  from delete_role(1) show thesis
  proof (cases rule: DeleteRoleCascade_success)
    case (1 revoked d1 d8)
    have "ag_id ` set (access_grants d1) \<subseteq> ag_id ` set (access_grants (w_db w))"
      using 1(1) by (auto simp: RevokeActiveGrantsForRole_def update_grants_def stamp_revoked_def)
    moreover have "g \<in> set (access_grants d1)"
      using assms(3) 1(3) DeleteRole_q_tables(3) [OF 1(2)] by (simp add: strip_role_tables)
    ultimately show thesis using assms(4) by blast
  qed
qed (use assms(3,4) in auto)

text \<open>
  C11: a grant is minted only for an eligible requester and with enough approvals. Whenever a step
  adds a grant, the subject held request eligibility by a standing binding at that moment, the
  grant carries the role, asset and requester of a request that is now granted, and at least the
  required number of distinct users, none of them the requester, have approved that request.
\<close>

theorem minted_only_with_approvals:
  assumes "ar_step s w w'" and "workflow_ok (w_db w)"
    and "g \<in> set (access_grants (w_db w'))" and "ag_id g \<notin> ag_id ` set (access_grants (w_db w))"
  shows "IsEligibleRequester (w_db w) (ag_subject g) (ag_role g) (ag_asset g) \<and>
    (\<exists>r \<in> set (access_requests (w_db w')). ar_id r = ag_request g \<and> ar_status r = Granted \<and>
       ar_role r = ag_role g \<and> ar_asset r = ag_asset g \<and> ar_requester r = ag_subject g \<and>
       ar_required_approvals r \<le> int (card (approvers (w_db w') (ar_id r))) \<and>
       ag_subject g \<notin> approvers (w_db w') (ar_id r))"
  using assms
proof (rule new_grant_cases)
  fix r assume r: "r \<in> set (access_requests (w_db w'))" "ar_id r = ag_request g" "ar_status r = Granted"
    "ar_role r = ag_role g" "ar_asset r = ag_asset g" "ar_requester r = ag_subject g"
    "IsEligibleRequester (w_db w) (ag_subject g) (ag_role g) (ag_asset g)"
  have ok: "workflow_ok (w_db w')" by (rule ar_step_ok [OF assms(1,2)])
  have "ar_required_approvals r \<le> int (card (approvers (w_db w') (ar_id r)))"
    using request_ok_at [OF ok r(1)] r(3) by (simp add: request_ok_def card_approvers [OF ok])
  moreover have "ag_subject g \<notin> approvers (w_db w') (ar_id r)"
    using requester_not_approver [OF ok r(1)] r(6) by simp
  ultimately show ?thesis using r by blast
qed

theorem minted_only_with_approvals_witness:
  "IsEligibleRequester (w_db sample_approved1) 1 30 20 \<and>
   (\<exists>r \<in> set (access_requests (w_db sample_approved2)). ar_id r = 80 \<and>
      ar_required_approvals r \<le> int (card (approvers (w_db sample_approved2) 80)))"
proof -
  have "\<not> isl (vote sample_service (sample_clocks 3000) 90 sample_approved1 4 80 Approve)" by code_simp
  then have st: "ar_step sample_service sample_approved1 sample_approved2"
    unfolding sample_approved2_def by (rule ar_step.vote [OF isr_pair])
  have ok: "workflow_ok (w_db sample_approved1)" by code_simp
  let ?g = "hd (access_grants (w_db sample_approved2))"
  have g: "?g \<in> set (access_grants (w_db sample_approved2))"
    "ag_id ?g \<notin> ag_id ` set (access_grants (w_db sample_approved1))"
    "ag_subject ?g = 1" "ag_role ?g = 30" "ag_asset ?g = 20" "ag_request ?g = 80"
    by code_simp+
  from minted_only_with_approvals [OF st ok g(1,2)] show ?thesis
    unfolding g(3-6) by fastforce
qed

section \<open>Resolved requests\<close>

text \<open>What a step does to the table of requests.\<close>

lemma vote_rows:
  assumes "vote s ck gid w approver rid dec = Inr (res, w')"
  shows "access_requests (w_db w') = access_requests (w_db w) \<or>
    (\<exists>x st t. x \<in> set (access_requests (w_db w)) \<and> ar_status x = Pending \<and>
       access_requests (w_db w') = map (resolve_row (ar_id x) st t) (access_requests (w_db w)))"
  using assms
proof (cases rule: vote_success)
  case (1 x d1)
  note d1 = AddApproval_success [OF 1(6)] and x = GetAccessRequest_Some [OF 1(1)]
  consider "dec = Deny" "w_db w' = SetAccessRequestStatus d1 Denied (at_go ck) (ar_id x)"
    | "w_db w' = d1" | g d2 where "mintGrant ck gid d1 x (mustDuration (ar_granted_duration x)) = Inr (g, d2)"
      "w_db w' = SetAccessRequestStatus d2 Granted (at_go ck) (ar_id x)"
    using vote_deny_success [OF 1(7)] vote_approve_success [OF 1(8)] by (cases dec) blast+
  then show ?thesis
  proof cases
    case 1
    with d1 have "access_requests (w_db w') = map (resolve_row (ar_id x) Denied (at_go ck)) (access_requests (w_db w))"
      by (simp add: SetAccessRequestStatus_rows)
    with x \<open>ar_status x = Pending\<close> show ?thesis by blast
  next
    case 2
    with d1 show ?thesis by simp
  next
    case 3
    with d1 mintGrant_success [OF 3(1)]
    have "access_requests (w_db w') = map (resolve_row (ar_id x) Granted (at_go ck)) (access_requests (w_db w))"
      by (simp add: SetAccessRequestStatus_rows)
    with x \<open>ar_status x = Pending\<close> show ?thesis by blast
  qed
qed

lemma RequestAccess_rows:
  assumes "RequestAccess s ck req_id gid w requester role asset dur reason = Inr (res, w')"
  shows "\<exists>r. access_requests (w_db w') = access_requests (w_db w) @ [r]"
  using assms
proof (cases rule: RequestAccess_success)
  case (1 rule granted req d1)
  note d1 = CreateAccessRequest_success [OF 1(7)]
  show ?thesis
  proof (cases "rule_RequiredApprovals rule = 0")
    case False
    with 1(8) d1 show ?thesis by simp
  next
    case True
    with 1(9) obtain g d2 where m: "mintGrant ck gid d1 req granted = Inr (g, d2)"
      and w': "w_db w' = SetAccessRequestStatus d2 Granted (at_go ck) req_id" by blast
    have "req_id = ar_id req" using 1(6) by (simp add: new_request_def)
    with d1 have "resolve_row req_id Granted (at_go ck) x = x" if "x \<in> set (access_requests (w_db w))" for x
      using that by (intro resolve_row_other) (metis imageI)
    then show ?thesis
      using w' mintGrant_success [OF m] d1 by (simp add: SetAccessRequestStatus_rows map_idI)
  qed
qed

lemma DeleteRoleCascade_rows:
  assumes "DeleteRoleCascade s ck w actor role = Inr w'"
  shows "access_requests (w_db w') = filter (\<lambda>r. ar_role r \<noteq> role) (access_requests (w_db w))"
  using assms
proof (cases rule: DeleteRoleCascade_success)
  case (1 revoked d1 d8)
  have "access_requests d1 = access_requests (w_db w)"
    using 1(1) by (auto simp: RevokeActiveGrantsForRole_def update_grants_def)
  then show ?thesis
    using 1(3) DeleteRole_q_tables(1) [OF 1(2)] by (simp add: strip_role_tables)
qed

lemma request_rows_cases:
  assumes "ar_step s w w'"
  obtains (new) r where "access_requests (w_db w') = access_requests (w_db w) @ [r]"
  | (same) "access_requests (w_db w') = access_requests (w_db w)"
  | (resolved) x st t where "x \<in> set (access_requests (w_db w))" "ar_status x = Pending"
      "access_requests (w_db w') = map (resolve_row (ar_id x) st t) (access_requests (w_db w))"
  | (deleted) role where "access_requests (w_db w') =
      filter (\<lambda>r. ar_role r \<noteq> role) (access_requests (w_db w))"
  using assms
proof (cases rule: ar_step.cases)
  case request
  then show thesis using RequestAccess_rows that(1) by blast
next
  case vote
  then show thesis using vote_rows that(2,3) by metis
next
  case (cancel ck requester rid)
  from cancel(1) show thesis
  proof (cases rule: Cancel_success)
    case (1 x)
    with GetAccessRequest_Some [OF 1(1)] that(3) [of x Cancelled "at_go ck"] show thesis
      by (simp add: SetAccessRequestStatus_rows)
  qed
next
  case (revoke ck caller mgmt gid reason g')
  from revoke(1) show thesis
    by (cases rule: RevokeGrant_success) (rule that(2), simp add: RevokeGrant_q_def update_grants_def)
next
  case delete_role
  then show thesis using DeleteRoleCascade_rows that(4) by blast
qed (use that(2) in \<open>auto simp: RevokeGrantsForUser_def RevokeActiveGrantsForUser_def
    ReapExpired_def ExpireGrants_def update_grants_def Let_def\<close>)



section \<open>Granted windows\<close>

lemma clamp_bounds:
  "clamp s dur m \<le> dur \<and> clamp s dur m \<le> sv_maxTTL s \<and>
   (\<forall>c. intervalToDuration m = Some c \<longrightarrow> clamp s dur m \<le> c)"
  by (auto simp: clamp_def Let_def split: option.splits)

lemma intervalToDuration_pos: "intervalToDuration m = Some c \<Longrightarrow> 0 < c"
  by (auto simp: intervalToDuration_def Let_def split: option.splits if_splits)

lemma clamp_pos: "0 < dur \<Longrightarrow> 0 < sv_maxTTL s \<Longrightarrow> 0 < clamp s dur m"
  by (auto simp: clamp_def Let_def dest: intervalToDuration_pos split: option.splits)

lemma NewService_maxTTL: "0 < sv_maxTTL (NewService a t)"
  by (simp add: NewService_def go_hour_def go_minute_def go_second_def)

text \<open>The stored duration loses less than a microsecond.\<close>

lemma mustDuration_roundtrip:
  assumes "1000 \<le> g" and "g < 2 ^ 63"
  shows "mustDuration (durationToInterval g) = g - g mod 1000"
proof -
  have d: "g div 1000 * 1000 = g - g mod 1000"
    by (simp add: minus_mod_eq_div_mult [symmetric])
  have "0 < g - g mod 1000" "g - g mod 1000 < 2 ^ 63"
    using assms d by (auto simp flip: d)
  then have "i64 (g - g mod 1000) = g - g mod 1000" by (intro i64_id) auto
  moreover have "i64 0 = 0" by (simp add: i64_def)
  ultimately show ?thesis
    using assms(1) \<open>0 < g - g mod 1000\<close>
    by (simp add: mustDuration_def intervalToDuration_def durationToInterval_def go_div_def
        go_microsecond_def Let_def d)
qed



section \<open>Grants that end\<close>

lemma HoldsRole_grants:
  "HoldsRole (d\<lparr>access_grants := gs\<rparr>) now u role k oid \<longleftrightarrow>
     HoldsRoleStanding d u role k oid \<or>
     authz_user_is_active d u \<and> (\<exists>g \<in> set gs. ag_revoked_at g = None \<and> now < ag_expires_at g \<and>
        ag_subject g = u \<and> (ag_role g, KAsset, ag_asset g) \<in> set (authz_role_goals d role k oid))"
  by (auto simp: HoldsRole_def list_ex_iff active_access_grants_def)



lemma HoldsRole_after_update:
  assumes "\<And>g. ag_revoked_at (f g) = Some t"
  shows "HoldsRole (snd (update_grants c f d)) now u role k oid \<longleftrightarrow>
     HoldsRoleStanding d u role k oid \<or>
     authz_user_is_active d u \<and> (\<exists>g \<in> set (access_grants d). \<not> c g \<and> ag_revoked_at g = None \<and>
        now < ag_expires_at g \<and> ag_subject g = u \<and>
        (ag_role g, KAsset, ag_asset g) \<in> set (authz_role_goals d role k oid))"
  unfolding update_grants_def snd_conv HoldsRole_grants using assms by (auto split: if_splits)

lemma stamped_revoked [simp]: "ag_revoked_at (stamp_revoked now by reason g) = Some now"
  by (simp add: stamp_revoked_def)

lemma HoldsRole_unfold:
  "HoldsRole d now u role k oid \<longleftrightarrow>
     HoldsRoleStanding d u role k oid \<or>
     authz_user_is_active d u \<and> (\<exists>g \<in> set (access_grants d). ag_revoked_at g = None \<and>
        now < ag_expires_at g \<and> ag_subject g = u \<and>
        (ag_role g, KAsset, ag_asset g) \<in> set (authz_role_goals d role k oid))"
  using HoldsRole_grants [of "access_grants d" d now u role k oid] by simp

text \<open>
  C14: the reaper has no effect on authorization. Sweeping at some time changes no answer of
  \<open>HoldsRole\<close> at that time or later, marks exactly the grants that are past their expiry and not
  yet revoked, and a second sweep at the same time finds nothing and changes nothing.
\<close>

theorem reaper_is_invisible:
  assumes "ReapExpired s ck w = (n, w')" and "at_tx ck \<le> now"
  shows "HoldsRole (w_db w') now u role k oid = HoldsRole (w_db w) now u role k oid \<and>
    n = int (length (filter (\<lambda>g. ag_revoked_at g = None \<and> ag_expires_at g \<le> at_tx ck)
          (access_grants (w_db w)))) \<and>
    ReapExpired s ck w' = (0, w')"
proof -
  let ?c = "\<lambda>g. ag_revoked_at g = None \<and> ag_expires_at g \<le> at_tx ck"
  let ?f = "stamp_revoked (at_tx ck) None ''expired''"
  have w': "w_db w' = snd (update_grants ?c ?f (w_db w))"
    and n: "n = int (length (filter ?c (access_grants (w_db w))))"
    using assms(1) by (auto simp: ReapExpired_def ExpireGrants_def update_grants_def Let_def)
  have live: "\<not> ?c g \<and> ag_revoked_at g = None \<and> now < ag_expires_at g \<and> P \<longleftrightarrow>
      ag_revoked_at g = None \<and> now < ag_expires_at g \<and> P" for g P
    using assms(2) by auto
  have "HoldsRole (w_db w') now u role k oid = HoldsRole (w_db w) now u role k oid"
    unfolding w' HoldsRole_unfold [of "w_db w"] HoldsRole_after_update [of ?f, OF stamped_revoked] live ..
  moreover have "ReapExpired s ck w' = (0, w')"
  proof -
    have none: "filter ?c (access_grants (w_db w')) = []"
      by (auto simp: w' update_grants_def filter_empty_conv)
    then have "map (\<lambda>g. if ?c g then ?f g else g) (access_grants (w_db w')) = access_grants (w_db w')"
      by (intro map_idI) (auto simp: filter_empty_conv)
    with none show ?thesis
      by (simp add: ReapExpired_def ExpireGrants_def update_grants_def Let_def terminate_all_def)
  qed
  ultimately show ?thesis using n by simp
qed

theorem reaper_is_invisible_witness:
  "fst (ReapExpired sample_service (sample_clocks (8 * go_hour)) sample_approved2) = 1 \<and>
   ReapExpired sample_service (sample_clocks (8 * go_hour))
     (snd (ReapExpired sample_service (sample_clocks (8 * go_hour)) sample_approved2)) =
   (0, snd (ReapExpired sample_service (sample_clocks (8 * go_hour)) sample_approved2))"
proof
  let ?ck = "sample_clocks (8 * go_hour)"
  show "fst (ReapExpired sample_service ?ck sample_approved2) = 1" by code_simp
  have "at_tx ?ck \<le> 8 * go_hour" by (simp add: sample_clocks_def)
  from reaper_is_invisible [OF surjective_pairing this]
  show "ReapExpired sample_service ?ck (snd (ReapExpired sample_service ?ck sample_approved2)) =
      (0, snd (ReapExpired sample_service ?ck sample_approved2))" by blast
qed

lemma terminated_all [simp]:
  "w_terminated (terminate_all gs w) = w_terminated w @ map ag_id gs"
  "w_terminated (fold (enqueueRevoked s actor) gs w) = w_terminated w"
proof -
  show "w_terminated (terminate_all gs w) = w_terminated w @ map ag_id gs"
    unfolding terminate_all_def by (induction gs arbitrary: w) (simp_all add: terminate_def)
  show "w_terminated (fold (enqueueRevoked s actor) gs w) = w_terminated w"
    by (induction gs arbitrary: w) (simp_all add: enqueueRevoked_def audit_enqueue_def)
qed

text \<open>
  C15: deactivating a user ends every grant. After \<open>RevokeGrantsForUser\<close> the user holds exactly
  their standing roles, at any time; no other user is affected; and the terminator is told about
  every grant that was still unrevoked.
\<close>

theorem revoke_user_leaves_standing:
  assumes "RevokeGrantsForUser s ck w actor u reason = (n, w')"
  shows "HoldsRole (w_db w') now u role k oid = HoldsRoleStanding (w_db w) u role k oid \<and>
    (v = u \<or> HoldsRole (w_db w') now v role k oid = HoldsRole (w_db w) now v role k oid) \<and>
    w_terminated w' = w_terminated w @ map ag_id
      (filter (\<lambda>g. ag_subject g = u \<and> ag_revoked_at g = None) (access_grants (w_db w)))"
proof -
  let ?c = "\<lambda>g. ag_subject g = u \<and> ag_revoked_at g = None"
  let ?f = "stamp_revoked (at_tx ck) (Some actor) reason"
  have w': "w_db w' = snd (update_grants ?c ?f (w_db w))"
    using assms by (auto simp: RevokeGrantsForUser_def RevokeActiveGrantsForUser_def Let_def split_beta)
  note holds = HoldsRole_after_update [of ?f, OF stamped_revoked, of ?c "w_db w", folded w']
  have "w_terminated w' = w_terminated w @ map ag_id (filter ?c (access_grants (w_db w)))"
    using assms
    by (auto simp: RevokeGrantsForUser_def RevokeActiveGrantsForUser_def update_grants_def Let_def
        stamp_revoked_def comp_def)
  moreover have "HoldsRole (w_db w') now u role k oid = HoldsRoleStanding (w_db w) u role k oid"
    unfolding holds by auto
  moreover have "v = u \<or> HoldsRole (w_db w') now v role k oid = HoldsRole (w_db w) now v role k oid"
    unfolding holds HoldsRole_unfold [of "w_db w"] by auto
  ultimately show ?thesis by blast
qed

theorem revoke_user_leaves_standing_witness:
  "HoldsRole (w_db sample_approved2) 4000 1 30 KAsset 20 \<and>
   \<not> HoldsRole (w_db (snd (RevokeGrantsForUser sample_service (sample_clocks 4000) sample_approved2 5 1 ''left'')))
       4000 1 30 KAsset 20"
proof
  show "HoldsRole (w_db sample_approved2) 4000 1 30 KAsset 20" by code_simp
  have "\<not> HoldsRoleStanding (w_db sample_approved2) 1 30 KAsset 20" by code_simp
  with revoke_user_leaves_standing [OF surjective_pairing, of sample_service "sample_clocks 4000" sample_approved2 5 1 "''left''"]
  show "\<not> HoldsRole (w_db (snd (RevokeGrantsForUser sample_service (sample_clocks 4000) sample_approved2 5 1 ''left'')))
      4000 1 30 KAsset 20" by blast
qed

text \<open>
  C16: revoking a grant. For an existing grant \<open>RevokeGrant\<close> fails with \<open>ErrRevokeForbidden\<close> for a
  caller with neither management authority nor a part in the grant, with \<open>ErrGrantInactive\<close> when
  it is revoked already, and succeeds otherwise, stamping exactly that grant; a second revocation
  by anyone fails.
\<close>

lemma GetGrant_filter:
  assumes "distinct (map ag_id (access_grants d))" and "GetGrant d gid = Some g"
  shows "filter (\<lambda>x. ag_id x = gid \<and> ag_revoked_at x = None) (access_grants d) =
    (if ag_revoked_at g = None then [g] else [])"
proof -
  have g: "g \<in> set (access_grants d)" "ag_id g = gid"
    using assms(2) by (auto simp: GetGrant_def find_Some_iff)
  have "filter (\<lambda>x. ag_id x = gid \<and> ag_revoked_at x = None) (access_grants d) =
      filter (\<lambda>x. ag_revoked_at x = None) (filter (\<lambda>x. ag_id x = ag_id g) (access_grants d))"
    by (simp add: g(2) conj_commute)
  also have "\<dots> = filter (\<lambda>x. ag_revoked_at x = None) [g]"
    by (simp only: filter_key_distinct [OF assms(1) g(1)])
  finally show ?thesis by simp
qed



end
