(* ===== verification/Review.thy ===== *)
theory Review
  imports WorkflowProperties
begin

text \<open>
  Role deletion and the review side of the access workflow: a deleted role leaves nothing behind,
  the set-based inbox queries agree with the resolver the votes are checked against, following
  the page tokens enumerates an inbox completely, and every change of state is audited.
\<close>

section \<open>Role deletion\<close>

lemma goals_without_rules:
  assumes "\<not> list_ex (\<lambda>rg. rg_role rg = role) (role_grants d)"
  shows "set (authz_role_goals d role k oid) = {(role, k, oid)}"
proof -
  have "g = (role, k, oid)" if "cte_reach (goal_step d) [(role, k, oid)] g" for g
    using that
  proof induction
    case (step x y)
    then show ?case using assms by (cases y) (auto simp: goal_step_iff list_ex_iff)
  qed simp
  moreover have "cte_reach (goal_step d) [(role, k, oid)] (role, k, oid)"
    by (rule cte_reach.base) simp
  ultimately show ?thesis unfolding goals_reach by blast
qed

lemma unreferenced_role_unheld:
  assumes "\<not> list_ex (\<lambda>rg. rg_role rg = role) (role_grants d)"
    and "\<not> list_ex (\<lambda>rb. rb_role rb = role) (role_bindings d)"
    and "\<not> list_ex (\<lambda>g. ag_role g = role) (access_grants d)"
  shows "\<not> HoldsRole d now u role k oid"
  using assms(2,3) goals_without_rules [OF assms(1)]
  by (auto simp: HoldsRole_unfold HoldsRoleStanding_def binding_on_goal_def list_ex_iff)
text \<open>
  C17: deleting a role always succeeds and leaves nothing behind. Afterwards nobody holds the role
  on anything, the capabilities, bindings, rewrite rules, requests and grants of the role are gone, no policy
  governs it or names it as requester or approver role, and the terminator was told about every
  grant of the role that was active.
\<close>

theorem delete_role_leaves_nothing:
  "\<exists>w'. DeleteRoleCascade s ck w actor role = Inr w' \<and>
    \<not> HoldsRole (w_db w') now u role k oid \<and>
    role \<notin> r_id ` set (roles (w_db w')) \<and>
    role \<notin> rc_role ` set (role_capabilities (w_db w')) \<and>
    role \<notin> rb_role ` set (role_bindings (w_db w')) \<and>
    role \<notin> rg_role ` set (role_grants (w_db w')) \<union> rg_source ` set (role_grants (w_db w')) \<and>
    role \<notin> ar_role ` set (access_requests (w_db w')) \<union> ag_role ` set (access_grants (w_db w')) \<and>
    role \<notin> rp_role ` set (request_policies (w_db w')) \<and>
    Some role \<notin> rp_requester_role ` set (request_policies (w_db w')) \<union>
      rp_approver_role ` set (request_policies (w_db w')) \<and>
    w_terminated w' = w_terminated w @ map ag_id (filter (\<lambda>g. ag_role g = role \<and>
      ag_revoked_at g = None \<and> at_tx ck < ag_expires_at g) (access_grants (w_db w)))"
proof -
  obtain revoked d1 where r: "RevokeActiveGrantsForRole (w_db w) (at_tx ck) role actor ''role_deleted'' = (revoked, d1)"
    by (rule prod.exhaust)
  obtain d8 where d8: "DeleteRole_q (strip_role d1 role) role = Some d8"
    using DeleteRole_after_strip by blast
  let ?w' = "terminate_all revoked ((fold (enqueueRevoked s actor) revoked w)\<lparr>w_db := d8\<rparr>)"
  have eq: "DeleteRoleCascade s ck w actor role = Inr ?w'"
    unfolding DeleteRoleCascade_unfold by (simp add: r d8)
  note tab = DeleteRole_q_tables [OF d8] strip_role_tables
  have "\<not> HoldsRole d8 now u role k oid"
    by (rule unreferenced_role_unheld) (auto simp: tab list_ex_iff)
  moreover have "Some role \<notin> rp_requester_role ` set (request_policies d8) \<union>
      rp_approver_role ` set (request_policies d8)"
    unfolding tab using strip_role_policies by fastforce
  moreover have "map ag_id revoked = map ag_id (filter (\<lambda>g. ag_role g = role \<and>
      ag_revoked_at g = None \<and> at_tx ck < ag_expires_at g) (access_grants (w_db w)))"
    using r by (auto simp: RevokeActiveGrantsForRole_def update_grants_def stamp_revoked_def)
  then have "w_terminated ?w' = w_terminated w @ map ag_id (filter (\<lambda>g. ag_role g = role \<and>
      ag_revoked_at g = None \<and> at_tx ck < ag_expires_at g) (access_grants (w_db w)))"
    by simp
  ultimately show ?thesis
    unfolding eq by (auto simp: tab)
qed

section \<open>The inboxes and the resolver\<close>

lemma approver_by_IsApprover:
  assumes "schema_checks d" and "no_nil_roles d"
  shows "authz_user_is_active d u \<and> (case authz_effective_request_policy d role asset of
      None \<Rightarrow> False | Some e \<Rightarrow> approver_by d now u asset e) \<longleftrightarrow> IsApprover d u role asset"
proof (cases "authz_effective_request_policy d role asset")
  case (Some e)
  then have nil: "rp_approver_role e \<noteq> Some 0"
    using effective_policy_mem assms(2) by (auto simp: no_nil_roles_def list_all_iff)
  have standing: "list_ex (\<lambda>(hr, k, oid). hr = r \<and> k = KAsset \<and> sql_eq oid (Some asset))
      (authz_held_standing d now u) \<longleftrightarrow> HoldsRoleStanding d u r KAsset asset" for r
    unfolding HoldsRoleStanding_held [OF assms(1), where now = now] by (auto simp: list_ex_iff)
  have act: "HoldsRoleStanding d u r KAsset asset \<Longrightarrow> authz_user_is_active d u" for r
    by (auto simp: HoldsRoleStanding_def list_ex_iff)
  have by_role: "approver_by d now u asset e \<longleftrightarrow>
      (\<exists>sub \<in> set (policy_subjects d). ps_policy sub = rp_id e \<and> ps_kind sub = Approver \<and> subject_matches d u sub) \<or>
      (\<exists>r. rp_approver_role e = Some r \<and> HoldsRoleStanding d u r KAsset asset)"
    unfolding approver_by_def standing by (auto simp: list_ex_iff split: option.splits)
  show ?thesis
    using Some nil act
    by (auto simp: IsApprover_def EffectiveRule_def policy_rule_def by_role
        SubjectExistsForKind_def list_ex_iff split: option.splits)
qed (simp add: IsApprover_def EffectiveRule_def)

definition approvable :: "db \<Rightarrow> uuid \<Rightarrow> access_request \<Rightarrow> bool" where
  "approvable d caller r \<longleftrightarrow> ar_status r = Pending \<and> ar_requester r \<noteq> caller \<and>
     IsApprover d caller (ar_role r) (ar_asset r)"

definition inbox_row :: "db \<Rightarrow> access_request \<Rightarrow> Request" where
  "inbox_row d r = toRequest r (CountApprovals d (ar_id r)) uuid_nil"

lemma approvablePending_filter:
  assumes "schema_checks d" and "no_nil_roles d"
  shows "approvablePending d now caller restrict = map (inbox_row d)
    (filter (\<lambda>r. approvable d caller r \<and> (case restrict of None \<Rightarrow> True | Some ids \<Rightarrow> ar_id r \<in> set ids))
      (order_desc request_key (access_requests d)))"
proof -
  have srt: "order_desc (\<lambda>(r, n). request_key r) (map (\<lambda>r. (r, h r)) rs) =
      map (\<lambda>r. (r, h r)) (order_desc request_key rs)" for h :: "access_request \<Rightarrow> int" and rs
    by (rule order_desc_map) simp
  show ?thesis
    unfolding approvablePending_def ApprovablePending_def srt approver_by_IsApprover [OF assms]
      filter_order_desc
    by (simp add: approvable_def inbox_row_def comp_def conj_ac)
qed

definition reviewable :: "db \<Rightarrow> uuid \<Rightarrow> access_grant \<Rightarrow> bool" where
  "reviewable d caller g \<longleftrightarrow> ag_subject g = caller \<or> IsApprover d caller (ag_role g) (ag_asset g)"

lemma reviewableGrants_filter:
  assumes "schema_checks d" and "no_nil_roles d"
  shows "reviewableGrants d now go_now caller restrict = map (toGrant go_now)
    (filter (\<lambda>g. reviewable d caller g \<and> (case restrict of None \<Rightarrow> True | Some ids \<Rightarrow> ag_id g \<in> set ids))
      (order_desc grant_key (access_grants d)))"
  unfolding reviewableGrants_def ReviewableGrants_def approver_by_IsApprover [OF assms] filter_order_desc
  by (simp add: reviewable_def conj_commute)

text \<open>
  C18: the inboxes and the gates cannot diverge. The approval inbox lists, newest first, exactly the
  pending requests of others that \<open>IsApprover\<close>, the check of every vote, admits the caller to; a
  grant is in the review list exactly when \<open>CanReviewGrant\<close> admits the caller to it.
\<close>

theorem inbox_agrees_with_resolver:
  assumes "schema_checks d" and "no_nil_roles d" and "distinct (map ag_id (access_grants d))"
    and "g \<in> set (access_grants d)"
  shows "ListPendingApprovals d now caller = map (\<lambda>r. toRequest r (CountApprovals d (ar_id r)) uuid_nil)
      (filter (\<lambda>r. ar_status r = Pending \<and> ar_requester r \<noteq> caller \<and>
          IsApprover d caller (ar_role r) (ar_asset r)) (order_desc request_key (access_requests d))) \<and>
    (g \<in> set (ReviewableGrants d now caller None) \<longleftrightarrow> CanReviewGrant d caller (ag_id g))"
proof
  show "ListPendingApprovals d now caller = map (\<lambda>r. toRequest r (CountApprovals d (ar_id r)) uuid_nil)
      (filter (\<lambda>r. ar_status r = Pending \<and> ar_requester r \<noteq> caller \<and>
          IsApprover d caller (ar_role r) (ar_asset r)) (order_desc request_key (access_requests d)))"
    by (simp add: ListPendingApprovals_def approvablePending_filter [OF assms(1,2)] approvable_def
        inbox_row_def)
  have "GetGrant d (ag_id g) = Some g"
    unfolding GetGrant_def using find_Some_iff_distinct [OF assms(3)] assms(4) by blast
  with assms(4) show "g \<in> set (ReviewableGrants d now caller None) \<longleftrightarrow> CanReviewGrant d caller (ag_id g)"
    by (simp add: ReviewableGrants_def approver_by_IsApprover [OF assms(1,2)] CanReviewGrant_def)
qed

theorem inbox_agrees_with_resolver_witness:
  "CanReviewGrant (w_db sample_approved2) 2 90 \<and> \<not> CanReviewGrant (w_db sample_approved2) 5 90"
proof -
  define g where "g = hd (access_grants (w_db sample_approved2))"
  have hyps: "schema_checks (w_db sample_approved2)" "no_nil_roles (w_db sample_approved2)"
    "distinct (map ag_id (access_grants (w_db sample_approved2)))"
    "g \<in> set (access_grants (w_db sample_approved2))"
    unfolding g_def by code_simp+
  have "g \<in> set (ReviewableGrants (w_db sample_approved2) 4000 2 None)"
    "g \<notin> set (ReviewableGrants (w_db sample_approved2) 4000 5 None)" "ag_id g = 90"
    unfolding g_def by code_simp+
  then show ?thesis
    using inbox_agrees_with_resolver [OF hyps, of 4000 2] inbox_agrees_with_resolver [OF hyps, of 4000 5]
    by simp
qed

section \<open>Paging through an inbox\<close>

lemma approvals_page:
  assumes "schema_checks d" and "no_nil_roles d" and "distinct (map ar_id (access_requests d))"
  shows "ListPendingApprovalsPaged d now caller page =
    (let ps = sql_page request_key page (filter (\<lambda>r. ar_status r = Pending) (access_requests d))
     in (map (inbox_row d) (filter (approvable d caller) ps), next_cursor request_key page ps))"
proof -
  let ?pending = "filter (\<lambda>r. ar_status r = Pending) (access_requests d)"
  let ?ps = "sql_page request_key page ?pending"
  have "filter (\<lambda>r. approvable d caller r \<and> ar_id r \<in> ar_id ` set ?ps)
        (order_desc request_key (access_requests d)) =
      filter (approvable d caller) (filter (\<lambda>r. ar_id r \<in> ar_id ` set ?ps) (order_desc request_key ?pending))"
    unfolding filter_order_desc filter_filter
    by (intro filter_cong refl) (auto simp: approvable_def)
  also have "\<dots> = filter (approvable d caller) ?ps"
    by (subst request_pages.filter_page) (simp_all add: distinct_map_filter assms(3))
  finally show ?thesis
    by (auto simp: ListPendingApprovalsPaged_def ListPendingRequestsPaged_def approvablePending_filter [OF assms(1,2)] Let_def)
qed

lemma reviewable_page:
  assumes "schema_checks d" and "no_nil_roles d" and "distinct (map ag_id (access_grants d))"
  shows "ListReviewableGrantsPaged d now go_now caller page =
    (let ps = sql_page grant_key page (access_grants d)
     in (map (toGrant go_now) (filter (reviewable d caller) ps), next_cursor grant_key page ps))"
proof -
  let ?ps = "sql_page grant_key page (access_grants d)"
  have "filter (\<lambda>g. reviewable d caller g \<and> ag_id g \<in> ag_id ` set ?ps)
        (order_desc grant_key (access_grants d)) =
      filter (reviewable d caller) (filter (\<lambda>g. ag_id g \<in> ag_id ` set ?ps) (order_desc grant_key (access_grants d)))"
    by (simp add: conj_commute)
  also have "\<dots> = filter (reviewable d caller) ?ps"
    by (simp only: grant_pages.filter_page [OF assms(3)])
  finally show ?thesis
    by (auto simp: ListReviewableGrantsPaged_def reviewableGrants_filter [OF assms(1,2)] Let_def
        grants_filtered_def ListGrantsFilteredPaged_def)
qed

text \<open>
  C19: following the page tokens shows an approver their whole inbox. Whatever the page size, the
  pages of \<open>ListPendingApprovalsPaged\<close> put together are the unpaged approval inbox, and those of
  \<open>ListReviewableGrantsPaged\<close> the unpaged list of reviewable grants: no entry is skipped or shown
  twice although the pages are cut before the rows are filtered.
\<close>

theorem paged_inbox_complete:
  assumes "schema_checks d" and "no_nil_roles d" and "workflow_ok d" and "0 < limit"
    and "length (access_requests d) + length (access_grants d) < fuel"
  shows "walk_client fuel (\<lambda>c. ListPendingApprovalsPaged d now caller \<lparr>pp_After = c, pp_Limit = limit\<rparr>) None =
      ListPendingApprovals d now caller \<and>
    walk_client fuel (\<lambda>c. ListReviewableGrantsPaged d now go_now caller \<lparr>pp_After = c, pp_Limit = limit\<rparr>) None =
      reviewableGrants d now go_now caller None"
proof
  let ?pending = "filter (\<lambda>r. ar_status r = Pending) (access_requests d)"
  have dist: "distinct (map ar_id (access_requests d))" "distinct (map ag_id (access_grants d))"
    using assms(3) by (simp_all add: workflow_ok_def tables_ok_def)
  have "length ?pending < fuel"
    using assms(5) length_filter_le [of "\<lambda>r. ar_status r = Pending" "access_requests d"] by linarith
  then have "walk_pages fuel request_key limit None ?pending = order_desc request_key ?pending"
    by (intro request_pages.walk_complete) (simp_all add: distinct_map_filter dist assms(4))
  moreover have "walk_client fuel (\<lambda>c. ListPendingApprovalsPaged d now caller \<lparr>pp_After = c, pp_Limit = limit\<rparr>) None =
      map (inbox_row d) (filter (approvable d caller) (walk_pages fuel request_key limit None ?pending))"
    by (rule request_pages.walk_filtered) (simp add: approvals_page [OF assms(1,2) dist(1)] Let_def)
  moreover have "filter (approvable d caller) (order_desc request_key ?pending) =
      filter (approvable d caller) (order_desc request_key (access_requests d))"
    unfolding filter_order_desc filter_filter by (intro filter_cong) (auto simp: approvable_def)
  ultimately show "walk_client fuel (\<lambda>c. ListPendingApprovalsPaged d now caller \<lparr>pp_After = c, pp_Limit = limit\<rparr>) None =
      ListPendingApprovals d now caller"
    by (simp add: ListPendingApprovals_def approvablePending_filter [OF assms(1,2)])
  have "walk_client fuel (\<lambda>c. ListReviewableGrantsPaged d now go_now caller \<lparr>pp_After = c, pp_Limit = limit\<rparr>) None =
      map (toGrant go_now) (filter (reviewable d caller) (walk_pages fuel grant_key limit None (access_grants d)))"
    by (rule grant_pages.walk_filtered) (simp add: reviewable_page [OF assms(1,2) dist(2)] Let_def)
  moreover have "walk_pages fuel grant_key limit None (access_grants d) = order_desc grant_key (access_grants d)"
    using assms(4,5) by (intro grant_pages.walk_complete dist(2)) simp_all
  ultimately show "walk_client fuel (\<lambda>c. ListReviewableGrantsPaged d now go_now caller \<lparr>pp_After = c, pp_Limit = limit\<rparr>) None =
      reviewableGrants d now go_now caller None"
    by (simp add: reviewableGrants_filter [OF assms(1,2)])
qed

text \<open>The state of the sample run after the first of two approvals.\<close>

definition sample_db1 :: db where
  "sample_db1 = sample_db\<lparr>
     access_requests := [\<lparr>ar_id = 80, ar_requester = 1, ar_role = 30, ar_asset = 20, ar_reason = ''incident'',
       ar_requested_duration = durationToInterval go_hour, ar_required_approvals = 2,
       ar_granted_duration = durationToInterval go_hour, ar_status = Pending, ar_created_at = 1000, ar_resolved_at = None\<rparr>],
     request_approvals := [\<lparr>ap_request = 80, ap_approver = 2, ap_decision = Approve\<rparr>]\<rparr>"

lemma sample_db1_eq: "w_db sample_approved1 = sample_db1"
  by code_simp

theorem paged_inbox_complete_witness:
  "map rq_ID (walk_client 5 (\<lambda>c. ListPendingApprovalsPaged (w_db sample_approved1) 4000 4 \<lparr>pp_After = c, pp_Limit = 1\<rparr>) None) = [80]"
proof -
  have hyps: "schema_checks (w_db sample_approved1)" "no_nil_roles (w_db sample_approved1)"
    "workflow_ok (w_db sample_approved1)" "0 < (1::nat)"
    "length (access_requests (w_db sample_approved1)) + length (access_grants (w_db sample_approved1)) < 5"
    unfolding sample_db1_eq by code_simp+
  have "map rq_ID (ListPendingApprovals (w_db sample_approved1) 4000 4) = [80]"
    unfolding sample_db1_eq by code_simp
  with paged_inbox_complete [OF hyps, of 4000 4] show ?thesis by simp
qed

section \<open>The last approval\<close>

lemma goal_self: "(role, k, oid) \<in> set (authz_role_goals d role k oid)"
  unfolding goals_reach by (simp add: cte_reach.base)

lemma active_exists: "authz_user_is_active d u \<Longrightarrow> list_ex (\<lambda>x. u_id x = u) (users d)"
  by (auto simp: authz_user_is_active_def list_ex_iff)

text \<open>
  C20: enough approvals do give access. When an eligible requester's pending request lacks one
  approval and an approver other than the requester who has not voted yet approves it, the vote
  succeeds, the request is granted, the requester holds the role on the asset from then until the
  end of the granted window, and the approval and the activation are both in the audit outbox.
\<close>

theorem last_approval_grants_access:
  assumes "workflow_ok (w_db w)" and get: "GetAccessRequest (w_db w) rid = Some req"
    and pend: "ar_status req = Pending"
    and appr: "IsApprover (w_db w) approver (ar_role req) (ar_asset req)"
    and other: "approver \<noteq> ar_requester req"
    and elig: "IsEligibleRequester (w_db w) (ar_requester req) (ar_role req) (ar_asset req)"
    and first: "(rid, approver) \<notin> vote_key ` set (request_approvals (w_db w))"
    and enough: "ar_required_approvals req \<le> CountApprovals (w_db w) rid + 1"
    and fresh: "gid \<notin> ag_id ` set (access_grants (w_db w))"
    and fk: "ar_role req \<in> r_id ` set (roles (w_db w))" "ar_asset req \<in> a_id ` set (assets (w_db w))"
    and window: "now < pg_timestamp (at_go ck + mustDuration (ar_granted_duration req))"
  shows "\<exists>res w'. vote s ck gid w approver rid Approve = Inr (res, w') \<and> rq_Status res = Granted \<and>
    rq_GrantID res = gid \<and> HoldsRole (w_db w') now (ar_requester req) (ar_role req) KAsset (ar_asset req) \<and>
    (sv_audit s \<longrightarrow> map (\<lambda>e. (ev_type e, ev_actor e, ev_subject_id e)) (w_outbox w') =
      map (\<lambda>e. (ev_type e, ev_actor e, ev_subject_id e)) (w_outbox w) @
      [(EventRequestApproved, approver, rid), (EventGrantActivated, approver, gid)])"
proof -
  have rid: "ar_id req = rid" "req \<in> set (access_requests (w_db w))"
    using get by (auto simp: GetAccessRequest_def find_Some_iff)
  have "\<not> has_grant (access_grants (w_db w)) rid"
    using assms(1) rid pend by (auto simp: workflow_ok_def tables_ok_def list_all_iff request_ok_def)
  note nogrant = this [unfolded has_grant_def list_ex_iff, simplified]
  let ?d1 = "(w_db w)\<lparr>request_approvals := request_approvals (w_db w) @
      [\<lparr>ap_request = rid, ap_approver = approver, ap_decision = Approve\<rparr>]\<rparr>"
  have add: "AddApproval (w_db w) rid approver Approve = Inr ?d1"
    using first rid active_exists [OF IsApprover_active [OF appr]]
    by (force simp: AddApproval_def vote_key_def list_ex_iff)
  have count: "ar_required_approvals req \<le> CountApprovals ?d1 rid"
    using enough by (simp add: CountApprovals_def)
  define g where "g = \<lparr>ag_id = gid, ag_request = rid, ag_role = ar_role req, ag_asset = ar_asset req,
     ag_subject = ar_requester req, ag_granted_at = at_tx ck,
     ag_expires_at = pg_timestamp (at_go ck + mustDuration (ar_granted_duration req)), ag_revoked_at = None,
     ag_revoked_by = None, ag_revoked_reason = None\<rparr>"
  let ?d2 = "?d1\<lparr>access_grants := access_grants (w_db w) @ [g]\<rparr>"
  have "CreateAccessGrant ?d1 g = Inr ?d2"
    using fresh fk nogrant rid active_exists [OF IsEligibleRequester_active [OF elig]]
    by (force simp: CreateAccessGrant_def g_def list_ex_iff)
  then have mint: "mintGrant ck gid ?d1 req (mustDuration (ar_granted_duration req)) = Inr (g, ?d2)"
    by (simp add: mintGrant_def g_def rid Let_def)
  have "authz_user_is_active ?d2 (ar_requester req)"
    using IsEligibleRequester_active [OF elig] by (simp add: authz_user_is_active_def)
  then have "HoldsRole (SetAccessRequestStatus ?d2 Granted (at_go ck) rid) now
      (ar_requester req) (ar_role req) KAsset (ar_asset req)"
    using window goal_self
    by (auto simp: HoldsRole_unfold SetAccessRequestStatus_def g_def authz_user_is_active_def)
  then show ?thesis
    using get pend appr other elig add count mint rid
    by (simp add: vote_def vote_approve_def Let_def toRequest_def enqueue_def enqueueGrant_def
        audit_enqueue_def g_def)
qed

theorem last_approval_grants_access_witness:
  "\<exists>res w'. vote sample_service (sample_clocks 3000) 90 sample_approved1 4 80 Approve = Inr (res, w') \<and>
     rq_Status res = Granted \<and> HoldsRole (w_db w') 5000 1 30 KAsset 20"
proof -
  define req where "req = hd (access_requests sample_db1)"
  have req: "GetAccessRequest (w_db sample_approved1) 80 = Some req"
    unfolding sample_db1_eq req_def by code_simp
  have terms: "ar_requester req = 1" "ar_role req = 30" "ar_asset req = 20"
    "ar_status req = Pending" "ar_required_approvals req = 2"
    "ar_granted_duration req = durationToInterval go_hour"
    unfolding req_def sample_db1_def by simp_all
  have "workflow_ok sample_db1" "IsApprover sample_db1 4 30 20" "IsEligibleRequester sample_db1 1 30 20"
    "(80, 4) \<notin> vote_key ` set (request_approvals sample_db1)" "2 \<le> CountApprovals sample_db1 80 + 1"
    "90 \<notin> ag_id ` set (access_grants sample_db1)" "30 \<in> r_id ` set (roles sample_db1)"
    "20 \<in> a_id ` set (assets sample_db1)"
    "5000 < pg_timestamp (at_go (sample_clocks 3000) + mustDuration (durationToInterval go_hour))"
    by code_simp+
  with last_approval_grants_access [OF _ req, of 4 90 5000 "sample_clocks 3000" sample_service]
  show ?thesis unfolding terms sample_db1_eq by auto
qed

end
