(* ===== verification/AccessProperties.thy ===== *)
theory AccessProperties
  imports Containment Review
begin

text \<open>
  Properties of the access configuration: what the rosters of a policy show, the conversion of a
  policy's duration cap, and where the subset rule, the containment rule and the page tokens leave
  a gap.
\<close>

section \<open>Duration caps\<close>

lemma go_div_mult: "0 \<le> n \<Longrightarrow> 0 < m \<Longrightarrow> go_div (n * m) m = n"
  by (auto simp: go_div_def mult_less_0_iff)

text \<open>
  C27: the duration cap of a policy. A cap of up to 9223372036 seconds reaches the clamp exactly
  and is reported back as entered; a cap of one second more is stored but read as no cap at all.
\<close>

theorem policy_cap_exact:
  assumes "0 < secs" and "secs \<le> 9223372036"
  shows "intervalToDuration (secondsToInterval secs) = Some (secs * 1000000000) \<and>
    intervalToSeconds (secondsToInterval secs) = secs \<and>
    secondsToInterval 9223372037 \<noteq> None \<and> intervalToDuration (secondsToInterval 9223372037) = None"
proof -
  have us: "i64 (secs * 1000000) = secs * 1000000" using assms by (intro i64_id) simp_all
  have z: "i64 0 = 0" by (simp add: i64_def)
  have ns: "i64 (secs * 1000000000) = secs * 1000000000" using assms by (intro i64_id) simp_all
  have mul: "secs * 1000000 * go_microsecond = secs * 1000000000" by (simp add: go_microsecond_def)
  have s: "i64 secs = secs" using assms by (intro i64_id) simp_all
  have "intervalToDuration (secondsToInterval secs) = Some (secs * 1000000000)"
    using assms by (simp only: secondsToInterval_def intervalToDuration_def Let_def us split: if_split)
      (simp only: z mul ns option.case pg_interval.simps mult_zero_left add_0, simp)
  moreover have "intervalToSeconds (secondsToInterval secs) = secs"
    using assms us s go_div_mult [of secs 1000000] by (simp add: secondsToInterval_def intervalToSeconds_def)
  moreover have "secondsToInterval 9223372037 \<noteq> None" "intervalToDuration (secondsToInterval 9223372037) = None"
    by code_simp+
  ultimately show ?thesis by blast
qed

theorem policy_cap_exact_witness:
  "intervalToDuration (secondsToInterval 3600) = Some (3600 * 1000000000) \<and>
   intervalToDuration (secondsToInterval 9223372037) = None"
  using policy_cap_exact [of 3600] by simp

section \<open>Page tokens\<close>

text \<open>
  C28: a page token of a name-ordered list crashes the time-ordered ones. \<open>DecodePageToken\<close> accepts
  it, but it carries no time, and the lists of rewrite rules, bindings, policies and policy
  subjects dereference the missing time.
\<close>

theorem name_token_panics:
  assumes "i \<noteq> uuid_nil"
  shows "\<not> isl (DecodePageToken (EncodeNameToken name i)) \<and>
    ListRoleGrants d role n (EncodeNameToken name i) = Panicked \<and>
    ListRoleBindings d r sf sa su sg n (EncodeNameToken name i) = Panicked \<and>
    ListRequestPolicies d role n (EncodeNameToken name i) = Panicked \<and>
    ListPolicySubjects d policy n (EncodeNameToken name i) = Panicked"
  using assms
  by (simp add: DecodePageToken_def EncodeNameToken_def ListRoleGrants_def ListRoleBindings_def
      ListRequestPolicies_def ListPolicySubjects_def time_list_def)

theorem name_token_panics_witness:
  "ListRoleGrants sample_db 31 50 (EncodeNameToken ''requester'' 31) = Panicked"
  using name_token_panics [of 31 "''requester''"] by simp

section \<open>Gaps of the subset rule\<close>

text \<open>
  A delegate (user 6) with authority over the access model and the vault in folder 12, and a
  plain membership role without capabilities on folder 10. The global role 37 has no capabilities
  of its own but confers the administrator role 33.
\<close>

definition delegate_db :: db where
  "delegate_db = sample_db\<lparr>
     users := users sample_db @ [\<lparr>u_id = 6, u_email = ''fay'', u_display_name = ''fay'', u_password_hash = [],
                 u_deactivated_at = None\<rparr>],
     folders := folders sample_db @ [\<lparr>f_id = 12, f_name = ''lab'', f_parent = None, f_path_ids = [12]\<rparr>],
     roles := roles sample_db @
       [\<lparr>r_id = 34, r_name = ''lab-admin'', r_folder = Some 12\<rparr>,
        \<lparr>r_id = 35, r_name = ''vault-reader'', r_folder = Some 12\<rparr>,
        \<lparr>r_id = 36, r_name = ''member'', r_folder = None\<rparr>,
        \<lparr>r_id = 37, r_name = ''trainee'', r_folder = None\<rparr>],
     role_capabilities := role_capabilities sample_db @
       [\<lparr>rc_role = 34, rc_cols = NormalizeCap ''access:**''\<rparr>,
        \<lparr>rc_role = 34, rc_cols = NormalizeCap ''vault:**''\<rparr>,
        \<lparr>rc_role = 35, rc_cols = NormalizeCap ''vault:secret:read''\<rparr>],
     role_grants := role_grants sample_db @
       [\<lparr>rg_id = 72, rg_role = 33, rg_source = 37, rg_via = ViaSameObject, rg_created_at = 0\<rparr>],
     role_bindings := role_bindings sample_db @
       [\<lparr>rb_id = 43, rb_role = 34, rb_scope_folder = Some 12, rb_scope_asset = None,
          rb_subject_user = Some 6, rb_subject_group = None, rb_created_at = 0\<rparr>,
        \<lparr>rb_id = 44, rb_role = 36, rb_scope_folder = Some 10, rb_scope_asset = None,
          rb_subject_user = Some 6, rb_subject_group = None, rb_created_at = 0\<rparr>]\<rparr>"



end
