(* ===== verification/Explain.thy ===== *)
theory Explain
  imports Closure
begin

text \<open>
  The explanation of a held role (\<open>RoleResolver.ExplainRole\<close> in
  \<open>warden/internal/authz/roleresolver.go\<close>): the SQL function \<open>authz_role_goal_paths\<close> enumerates
  every derivation as a path of goals, with a guard that keeps the goals of a path apart. The
  results: the enumeration ends whatever cycles the rewrite rules have, a role is explained exactly
  when \<open>HoldsRole\<close> says it is held, and every path is a derivation.
\<close>

section \<open>The enumeration\<close>

datatype explain_via = Direct | Rewrite rewrite_via

type_synonym explain_step = "goal_row \<times> explain_via"
type_synonym path_row = "goal_row \<times> explain_step list"

text \<open>The lateral subquery: the goals one rule away, each with the kind of rule.\<close>

definition path_sources :: "db \<Rightarrow> goal_row \<Rightarrow> (goal_row \<times> rewrite_via) list" where
  "path_sources d = (\<lambda>(r, k, oid).
     map (\<lambda>rg. ((rg_source rg, k, oid), ViaSameObject)) (goal_rewrites d r ViaSameObject) @
     concat (map (\<lambda>rg. map (\<lambda>a. ((rg_source rg, KFolder, a_folder a), ViaParent))
         (filter (\<lambda>a. k = KAsset \<and> a_id a = oid) (assets d)))
       (goal_rewrites d r ViaParent)) @
     concat (map (\<lambda>rg. concat (map (\<lambda>f. case f_parent f of
             None \<Rightarrow> [] | Some p \<Rightarrow> [((rg_source rg, KFolder, p), ViaParent)])
         (filter (\<lambda>f. k = KFolder \<and> f_id f = oid) (folders d))))
       (goal_rewrites d r ViaParent)))"

definition path_step :: "db \<Rightarrow> path_row \<Rightarrow> path_row list" where
  "path_step d = (\<lambda>(g, path). map (\<lambda>(x, via). (x, path @ [(x, Rewrite via)]))
     (filter (\<lambda>(x, via). x \<notin> fst ` set path) (path_sources d g)))"

definition path_seed :: "uuid \<Rightarrow> uuid \<Rightarrow> path_row" where
  "path_seed role asset = ((role, KAsset, asset), [((role, KAsset, asset), Direct)])"

definition goal_paths :: "db \<Rightarrow> uuid \<Rightarrow> uuid \<Rightarrow> path_row list" where
  "goal_paths d role asset = cte_union_all (goal_fuel d) (path_step d) [path_seed role asset]"

text \<open>
  The derivations that end in a binding of the user or of a group of theirs, then those that end in
  an active grant. The \<open>LIMIT\<close> keeps 500 rows; the query has no order, and the model keeps the
  first ones.
\<close>

record goal_path =
  gp_path :: "explain_step list"
  gp_binding :: uuid
  gp_user :: "uuid option"
  gp_group :: "uuid option"

definition authz_role_goal_paths :: "db \<Rightarrow> time \<Rightarrow> uuid \<Rightarrow> uuid \<Rightarrow> uuid \<Rightarrow> goal_path list" where
  "authz_role_goal_paths d now user role asset = take 500
     (concat (map (\<lambda>(g, path). map (\<lambda>rb.
          \<lparr>gp_path = path, gp_binding = rb_id rb, gp_user = rb_subject_user rb, gp_group = rb_subject_group rb\<rparr>)
        (filter (\<lambda>rb. binding_on_goal rb g \<and> binding_subject_is d user rb \<and> authz_user_is_active d user)
          (role_bindings d))) (goal_paths d role asset)) @
      concat (map (\<lambda>((r, k, oid), path). map (\<lambda>ag.
          \<lparr>gp_path = path, gp_binding = ag_id ag, gp_user = Some (ag_subject ag), gp_group = None\<rparr>)
        (filter (\<lambda>ag. ag_role ag = r \<and> k = KAsset \<and> ag_asset ag = oid \<and> ag_subject ag = user \<and>
            authz_user_is_active d user) (active_access_grants d now))) (goal_paths d role asset)))"

section \<open>The resolver\<close>

record ExplainStep =
  es_RoleID :: uuid
  es_ObjectKind :: object_kind
  es_ObjectID :: uuid
  es_Via :: explain_via

datatype explain_subject = SubjectUser uuid | SubjectGroup uuid | SubjectNone

record ExplainPath =
  ep_Steps :: "ExplainStep list"
  ep_BindingID :: uuid
  ep_Subject :: explain_subject

definition explain_step_of :: "explain_step \<Rightarrow> ExplainStep" where
  "explain_step_of = (\<lambda>((r, k, oid), via).
     \<lparr>es_RoleID = r, es_ObjectKind = k, es_ObjectID = oid, es_Via = via\<rparr>)"

definition explain_path_of :: "goal_path \<Rightarrow> ExplainPath" where
  "explain_path_of row = \<lparr>ep_Steps = map explain_step_of (gp_path row), ep_BindingID = gp_binding row,
     ep_Subject = (case gp_user row of
        Some u \<Rightarrow> SubjectUser u
      | None \<Rightarrow> (case gp_group row of Some g \<Rightarrow> SubjectGroup g | None \<Rightarrow> SubjectNone))\<rparr>"

definition ExplainRolePaths :: "db \<Rightarrow> time \<Rightarrow> uuid \<Rightarrow> uuid \<Rightarrow> uuid \<Rightarrow> goal_path list" where
  "ExplainRolePaths d now user role asset = authz_role_goal_paths d now user role asset"

definition ExplainRole :: "db \<Rightarrow> time \<Rightarrow> uuid \<Rightarrow> uuid \<Rightarrow> uuid \<Rightarrow> bool \<times> ExplainPath list" where
  "ExplainRole d now userID roleID assetID =
     (let paths = map explain_path_of (ExplainRolePaths d now userID roleID assetID)
      in (paths \<noteq> [], paths))"

section \<open>The enumeration ends\<close>

lemma path_sources_goals: "map fst (path_sources d g) = goal_step d g"
proof -
  obtain r k oid where g: "g = (r, k, oid)" by (cases g)
  have f: "map fst (case x of None \<Rightarrow> [] | Some p \<Rightarrow> [((s, KFolder, p), ViaParent)]) =
      (case x of None \<Rightarrow> [] | Some p \<Rightarrow> [(s, KFolder, p)])" for x :: "uuid option" and s :: uuid
    by (cases x) auto
  show ?thesis
    unfolding g path_sources_def goal_step_def by (simp add: map_concat comp_def f)
qed

lemma path_step_iff:
  "(x, p) \<in> set (path_step d (g, path)) \<longleftrightarrow>
     (\<exists>via. (x, via) \<in> set (path_sources d g) \<and> x \<notin> fst ` set path \<and> p = path @ [(x, Rewrite via)])"
  by (auto simp: path_step_def)

lemma path_step_goal: "(x, p) \<in> set (path_step d (g, path)) \<Longrightarrow> x \<in> set (goal_step d g)"
  unfolding path_sources_goals [symmetric] set_map path_step_iff by force

text \<open>A row of round \<open>n\<close> has \<open>n + 1\<close> different goals, all of the universe.\<close>

definition path_ok :: "db \<Rightarrow> goal_row \<Rightarrow> path_row \<Rightarrow> bool" where
  "path_ok d s = (\<lambda>(g, path). path \<noteq> [] \<and> fst (last path) = g \<and> distinct (map fst path) \<and>
     fst ` set path \<subseteq> goal_universe d s)"

lemma path_step_ok:
  assumes "path_ok d s (g, path)" and "(x, p) \<in> set (path_step d (g, path))"
  shows "path_ok d s (x, p) \<and> length p = Suc (length path)"
proof -
  from assms(2) obtain via where p: "x \<notin> fst ` set path" "p = path @ [(x, Rewrite via)]"
    unfolding path_step_iff by blast
  have "g \<in> goal_universe d s" using assms(1) unfolding path_ok_def by auto
  with path_step_goal [OF assms(2)] have "x \<in> goal_universe d s" by (blast intro: goal_universe_closed)
  with p assms(1) show ?thesis by (auto simp: path_ok_def)
qed

lemma path_rounds:
  "(g, path) \<in> set (cte_rounds n (path_step d) [path_seed role asset]) \<Longrightarrow>
     path_ok d (role, KAsset, asset) (g, path) \<and> length path = Suc n"
proof (induction n arbitrary: g path)
  case 0
  then show ?case by (auto simp: path_seed_def path_ok_def goal_universe_base)
next
  case (Suc n)
  then obtain x where x: "x \<in> set (cte_rounds n (path_step d) [path_seed role asset])"
    "(g, path) \<in> set (path_step d x)"
    unfolding cte_rounds_Suc set_concat set_map UN_iff bex_simps by blast
  obtain h q where e: "x = (h, q)" by (cases x)
  from Suc.IH [OF x(1) [unfolded e]] have "path_ok d (role, KAsset, asset) (h, q)" "length q = Suc n" by simp_all
  with path_step_ok [OF this(1) x(2) [unfolded e]] show ?case by simp
qed

lemma path_rounds_end: "cte_rounds (goal_fuel d) (path_step d) [path_seed role asset] = []"
proof (rule ccontr)
  let ?U = "goal_universe d (role, KAsset, asset)"
  assume "cte_rounds (goal_fuel d) (path_step d) [path_seed role asset] \<noteq> []"
  then obtain g path where "(g, path) \<in> set (cte_rounds (goal_fuel d) (path_step d) [path_seed role asset])"
    by (metis list.set_intros(1) neq_Nil_conv surj_pair)
  from path_rounds [OF this] have ok: "distinct (map fst path)" "fst ` set path \<subseteq> ?U"
    and len: "length path = Suc (goal_fuel d)" by (auto simp: path_ok_def)
  have "length path \<le> card ?U"
    using card_mono [OF goal_universe_finite ok(2)] distinct_card [OF ok(1)] by simp
  with goal_universe_card [of d "(role, KAsset, asset)"] len show False by simp
qed

lemma goal_paths_reach:
  "set (goal_paths d role asset) = {x. cte_reach (path_step d) [path_seed role asset] x}"
  unfolding goal_paths_def by (rule cte_union_all_correct [OF path_rounds_end])

section \<open>Every held role is explained\<close>

lemma path_row_goal:
  "cte_reach (path_step d) [path_seed role asset] x \<Longrightarrow> cte_reach (goal_step d) [(role, KAsset, asset)] (fst x)"
proof (induction rule: cte_reach.induct)
  case (base x)
  then show ?case by (auto simp: path_seed_def intro: cte_reach.base)
next
  case (step x y)
  obtain g p h q where "x = (g, p)" "y = (h, q)" by (metis surj_pair)
  with step path_step_goal [of h q d g p] show ?case by (simp add: cte_reach.step)
qed

text \<open>Every goal of a path has a path of its own.\<close>

lemma path_row_prefix:
  "cte_reach (path_step d) [path_seed role asset] x \<Longrightarrow> y \<in> fst ` set (snd x) \<Longrightarrow>
     \<exists>q. cte_reach (path_step d) [path_seed role asset] (y, q)"
proof (induction arbitrary: y rule: cte_reach.induct)
  case (base x)
  then show ?case by (auto simp: path_seed_def intro!: exI cte_reach.base)
next
  case (step x z)
  obtain g p h q where e: "x = (g, p)" "z = (h, q)" by (metis surj_pair)
  from step.hyps(2) obtain via where q: "q = p @ [(h, Rewrite via)]" unfolding e path_step_iff by blast
  show ?case
  proof (cases "y = h")
    case True
    then show ?thesis using cte_reach.step [OF step.hyps(1,2)] unfolding e by blast
  next
    case False
    with step.prems q have "y \<in> fst ` set (snd x)" unfolding e by auto
    then show ?thesis by (rule step.IH)
  qed
qed

lemma goal_has_path:
  "cte_reach (goal_step d) [(role, KAsset, asset)] g \<Longrightarrow>
     \<exists>p. cte_reach (path_step d) [path_seed role asset] (g, p)"
proof (induction rule: cte_reach.induct)
  case (base g)
  then show ?case by (auto simp: path_seed_def intro!: exI cte_reach.base)
next
  case (step g h)
  then obtain p where p: "cte_reach (path_step d) [path_seed role asset] (g, p)" by blast
  show ?case
  proof (cases "h \<in> fst ` set p")
    case True
    with path_row_prefix [OF p, of h] show ?thesis by simp
  next
    case False
    from step.hyps(2) obtain via where "(h, via) \<in> set (path_sources d g)"
      unfolding path_sources_goals [symmetric] by auto
    with False have "(h, p @ [(h, Rewrite via)]) \<in> set (path_step d (g, p))" unfolding path_step_iff by blast
    from cte_reach.step [OF p this] show ?thesis ..
  qed
qed

lemma goal_paths_goals: "fst ` set (goal_paths d role asset) = set (authz_role_goals d role KAsset asset)"
proof (intro set_eqI iffI)
  fix g assume "g \<in> fst ` set (goal_paths d role asset)"
  then obtain x where x: "cte_reach (path_step d) [path_seed role asset] x" "g = fst x"
    unfolding goal_paths_reach by blast
  show "g \<in> set (authz_role_goals d role KAsset asset)"
    unfolding goals_reach x(2) using path_row_goal [OF x(1)] by simp
next
  fix g assume "g \<in> set (authz_role_goals d role KAsset asset)"
  then obtain p where "cte_reach (path_step d) [path_seed role asset] (g, p)"
    unfolding goals_reach using goal_has_path by blast
  then have "(g, p) \<in> set (goal_paths d role asset)" unfolding goal_paths_reach by simp
  then show "g \<in> fst ` set (goal_paths d role asset)" by force
qed

section \<open>Every path is a derivation\<close>

definition derivation :: "db \<Rightarrow> uuid \<Rightarrow> uuid \<Rightarrow> explain_step list \<Rightarrow> bool" where
  "derivation d role asset p \<longleftrightarrow> p \<noteq> [] \<and> hd p = ((role, KAsset, asset), Direct) \<and>
     distinct (map fst p) \<and>
     successively (\<lambda>x y. \<exists>via. snd y = Rewrite via \<and> (fst y, via) \<in> set (path_sources d (fst x))) p"

text \<open>The goal is met by this binding or grant of the active user.\<close>

definition met_by :: "db \<Rightarrow> time \<Rightarrow> uuid \<Rightarrow> goal_row \<Rightarrow> uuid \<Rightarrow> bool" where
  "met_by d now user g i \<longleftrightarrow> authz_user_is_active d user \<and>
     ((\<exists>rb \<in> set (role_bindings d). rb_id rb = i \<and> binding_on_goal rb g \<and> binding_subject_is d user rb) \<or>
      (\<exists>ag \<in> set (active_access_grants d now). ag_id ag = i \<and> g = (ag_role ag, KAsset, ag_asset ag) \<and>
         ag_subject ag = user))"

lemma path_row_derivation:
  "cte_reach (path_step d) [path_seed role asset] x \<Longrightarrow>
     derivation d role asset (snd x) \<and> fst (last (snd x)) = fst x"
proof (induction rule: cte_reach.induct)
  case (base x)
  then show ?case by (simp add: path_seed_def derivation_def)
next
  case (step x y)
  obtain g p h q where e: "x = (g, p)" "y = (h, q)" by (metis surj_pair)
  from step.hyps(2) obtain via where q: "(h, via) \<in> set (path_sources d g)" "h \<notin> fst ` set p"
    "q = p @ [(h, Rewrite via)]" unfolding e path_step_iff by blast
  with step.IH show ?case unfolding e by (auto simp: derivation_def successively_append_iff)
qed

lemma goal_path_rows:
  assumes "row \<in> set (authz_role_goal_paths d now user role asset)"
  shows "derivation d role asset (gp_path row) \<and> met_by d now user (fst (last (gp_path row))) (gp_binding row)"
proof -
  from assms obtain g where g: "(g, gp_path row) \<in> set (goal_paths d role asset)"
    and m: "met_by d now user g (gp_binding row)"
    unfolding authz_role_goal_paths_def
    by (auto dest!: in_set_takeD simp: met_by_def; blast)
  from path_row_derivation [of d role asset "(g, gp_path row)"] g
  have "derivation d role asset (gp_path row)" "fst (last (gp_path row)) = g"
    unfolding goal_paths_reach by auto
  with m show ?thesis by simp
qed

lemma goal_paths_empty_iff:
  "authz_role_goal_paths d now user role asset \<noteq> [] \<longleftrightarrow> HoldsRole d now user role KAsset asset"
proof -
  define bound where "bound g \<longleftrightarrow> (\<exists>rb \<in> set (role_bindings d).
    binding_on_goal rb g \<and> binding_subject_is d user rb \<and> authz_user_is_active d user)" for g
  define granted where "granted g \<longleftrightarrow> (\<exists>ag \<in> set (active_access_grants d now). ag_role ag = fst g \<and>
    fst (snd g) = KAsset \<and> ag_asset ag = snd (snd g) \<and> ag_subject ag = user \<and> authz_user_is_active d user)"
    for g :: goal_row
  have "authz_role_goal_paths d now user role asset = [] \<longleftrightarrow>
      (\<forall>x \<in> set (goal_paths d role asset). \<not> bound (fst x)) \<and>
      (\<forall>x \<in> set (goal_paths d role asset). \<not> granted (fst x))"
    unfolding authz_role_goal_paths_def bound_def granted_def
    by (simp add: split_beta filter_empty_conv del: take_append)
  also have "\<dots> \<longleftrightarrow> (\<forall>g \<in> fst ` set (goal_paths d role asset). \<not> bound g \<and> \<not> granted g)" by blast
  finally show ?thesis
    unfolding goal_paths_goals HoldsRole_def HoldsRoleStanding_def bound_def granted_def
    by (simp add: list_ex_iff split_beta) blast
qed

section \<open>Properties\<close>

text \<open>
  C31: the explanation of a role agrees with the decision. \<open>ExplainRole\<close> reports that a user holds a
  role on an asset exactly when \<open>HoldsRole\<close> does, and each path it lists is a derivation: it starts
  at the role and asset asked about, each further goal follows from the one before by a rewrite rule,
  no goal repeats, and the last is met by the binding or active grant the path names.
\<close>

theorem explain_decides_HoldsRole:
  "fst (ExplainRole d now user role asset) = HoldsRole d now user role KAsset asset \<and>
   snd (ExplainRole d now user role asset) =
     map explain_path_of (authz_role_goal_paths d now user role asset) \<and>
   (\<forall>row \<in> set (authz_role_goal_paths d now user role asset).
      derivation d role asset (gp_path row) \<and>
      met_by d now user (fst (last (gp_path row))) (gp_binding row))"
  using goal_paths_empty_iff [of d now user role asset] goal_path_rows
  by (simp add: ExplainRole_def ExplainRolePaths_def Let_def)

theorem explain_decides_HoldsRole_witness:
  "HoldsRole sample_db 0 1 31 KAsset 20 \<and>
   map (\<lambda>p. (ep_BindingID p, map es_ObjectID (ep_Steps p))) (snd (ExplainRole sample_db 0 1 31 20)) = [(40, [20, 11, 10])] \<and>
   derivation sample_db 31 20 (gp_path (hd (authz_role_goal_paths sample_db 0 1 31 20)))"
proof (intro conjI)
  note ex = explain_decides_HoldsRole [of sample_db 0 1 31 20]
  have f: "fst (ExplainRole sample_db 0 1 31 20)" by code_simp
  then show "HoldsRole sample_db 0 1 31 KAsset 20" using ex by blast
  show "map (\<lambda>p. (ep_BindingID p, map es_ObjectID (ep_Steps p))) (snd (ExplainRole sample_db 0 1 31 20)) = [(40, [20, 11, 10])]"
    by code_simp
  have "authz_role_goal_paths sample_db 0 1 31 20 \<noteq> []" using f by (simp add: ExplainRole_def ExplainRolePaths_def Let_def)
  then have "hd (authz_role_goal_paths sample_db 0 1 31 20) \<in> set (authz_role_goal_paths sample_db 0 1 31 20)"
    by (rule hd_in_set)
  with ex show "derivation sample_db 31 20 (gp_path (hd (authz_role_goal_paths sample_db 0 1 31 20)))" by blast
qed

text \<open>
  C32: the enumeration ends. After at most \<open>goal_fuel\<close> rounds, which is bounded by the numbers of
  rewrite rules, folders and assets, the recursive query of \<open>authz_role_goal_paths\<close> has no rows left,
  whatever cycles the rewrite rules have; more rounds return the same rows.
\<close>

theorem explain_terminates:
  "cte_rounds (goal_fuel d) (path_step d) [path_seed role asset] = [] \<and>
   cte_union_all (goal_fuel d + n) (path_step d) [path_seed role asset] = goal_paths d role asset"
  using path_rounds_end [of d role asset] cte_union_all_enough [OF path_rounds_end, of d "goal_fuel d + n" role asset]
  by (simp add: goal_paths_def)

end
