(* ===== verification/Visibility.thy ===== *)
theory Visibility
  imports Guard "HOL-Library.Char_ord" "HOL-Library.List_Lexorder" "HOL-Library.Product_Lexorder"
begin

text \<open>
  What a caller may see (\<open>warden/internal/authz/homed_nodes.go\<close>, \<open>visible_assets.go\<close>,
  \<open>visible_folders.go\<close>, \<open>folder_anchors.go\<close> and the functions of migration
  \<open>0004_authz_mgmt_visibility_fns.sql\<close>): roles and groups homed in a folder, assets and folders
  under a parent. Each list is one set-based query; the results say that it shows exactly what the
  single-object checks admit. A parent of \<open>uuid.Nil\<close> is the root, which the queries get as NULL.
\<close>

section \<open>Reading by management\<close>

text \<open>The column predicates of the object's own read capability or of \<open>catalog:folder:read\<close>.\<close>

definition mgmt_read_match :: "cap_cols \<Rightarrow> cap_cols \<Rightarrow> bool" where
  "mgmt_read_match rc cols = (sql_cap_match rc cols \<or> sql_cap_match rc (''catalog'', ''folder'', ''read''))"

definition authz_mgmt_read_anchor_folders :: "db \<Rightarrow> time \<Rightarrow> uuid \<Rightarrow> cap_cols \<Rightarrow> uuid option list" where
  "authz_mgmt_read_anchor_folders d now user cols = remdups (map (snd \<circ> snd)
     (filter (\<lambda>(r, k, o'). k = KFolder \<and> list_ex (\<lambda>rc. rc_role rc = r \<and> mgmt_read_match (rc_cols rc) cols)
        (role_capabilities d)) (authz_held d now user)))"

definition authz_mgmt_visible_folders :: "db \<Rightarrow> time \<Rightarrow> uuid \<Rightarrow> cap_cols \<Rightarrow> uuid list" where
  "authz_mgmt_visible_folders d now user cols = remdups (concat (map (\<lambda>m.
     concat (map (\<lambda>mf. map f_id (filter (\<lambda>nf. ltree_ancestor (f_path_ids mf) (f_path_ids nf)) (folders d)))
       (filter (\<lambda>mf. sql_eq (Some (f_id mf)) m) (folders d))))
     (authz_mgmt_read_anchor_folders d now user cols)))"

definition authz_mgmt_global_read :: "db \<Rightarrow> uuid \<Rightarrow> cap_cols \<Rightarrow> bool" where
  "authz_mgmt_global_read d user cols = list_ex (\<lambda>rc.
     rc_role rc \<in> set (authz_global_held d user) \<and> mgmt_read_match (rc_cols rc) cols) (role_capabilities d)"

section \<open>Roles and groups\<close>

record nodeFolder =
  nf_ID :: uuid
  nf_Folder :: "uuid option"

definition HeldRoleIDs :: "db \<Rightarrow> time \<Rightarrow> uuid \<Rightarrow> uuid list" where
  "HeldRoleIDs d now user = remdups (map fst (authz_held d now user))"

definition heldRoleIDs :: "db \<Rightarrow> time \<Rightarrow> uuid \<Rightarrow> uuid list" where
  "heldRoleIDs d now user = HeldRoleIDs d now user"

definition requestableRoleIDs :: "db \<Rightarrow> time \<Rightarrow> uuid \<Rightarrow> uuid list" where
  "requestableRoleIDs d now user = remdups (map snd (visibleRequestable d now user))"

definition IsMember_q :: "db \<Rightarrow> uuid \<Rightarrow> uuid \<Rightarrow> bool" where
  "IsMember_q d user grp = (grp \<in> set (authz_user_groups d user) \<and> authz_user_is_active d user)"

definition IsMember :: "db \<Rightarrow> uuid \<Rightarrow> uuid \<Rightarrow> bool" where
  "IsMember d user grp = IsMember_q d user grp"

definition MemberGroupIDs :: "db \<Rightarrow> uuid \<Rightarrow> uuid list" where
  "MemberGroupIDs d user = (if authz_user_is_active d user then authz_user_groups d user else [])"

definition memberGroupIDs :: "db \<Rightarrow> uuid \<Rightarrow> uuid list" where
  "memberGroupIDs d user = remdups (MemberGroupIDs d user)"

text \<open>\<open>unionKeys\<close> and \<open>mapKeys\<close>: the keys of Go maps, in an order nothing depends on.\<close>

definition unionKeys :: "uuid list \<Rightarrow> uuid list \<Rightarrow> uuid list" where
  "unionKeys xs ys = remdups (xs @ ys)"

definition nullableUUIDArg :: "uuid \<Rightarrow> uuid option" where
  "nullableUUIDArg i = (if i = uuid_nil then None else Some i)"

text \<open>The folders at or below the parent, with the NULL path of a missing parent.\<close>

definition in_subtree :: "db \<Rightarrow> uuid \<Rightarrow> uuid \<Rightarrow> bool" where
  "in_subtree d parent fid = list_ex (\<lambda>f. f_id f = fid \<and>
     (case FolderPathIDs d parent of None \<Rightarrow> False | Some p \<Rightarrow> ltree_ancestor p (f_path_ids f))) (folders d)"

definition homed_level :: "db \<Rightarrow> uuid option \<Rightarrow> bool \<Rightarrow> uuid option \<Rightarrow> bool" where
  "homed_level d parent cascade home =
     (if \<not> cascade then
        (case parent of None \<Rightarrow> home = None | Some p \<Rightarrow> sql_eq home (Some p))
      else (case parent of None \<Rightarrow> True
        | Some p \<Rightarrow> (case home of None \<Rightarrow> False | Some h \<Rightarrow> in_subtree d p h)))"

definition homed_visible :: "db \<Rightarrow> time \<Rightarrow> uuid \<Rightarrow> cap_cols \<Rightarrow> uuid list \<Rightarrow> uuid \<Rightarrow> uuid option \<Rightarrow> bool" where
  "homed_visible d now user cols accessIDs i home =
     (i \<in> set accessIDs \<or> authz_mgmt_global_read d user cols \<or>
      (case home of None \<Rightarrow> False | Some h \<Rightarrow> h \<in> set (authz_mgmt_visible_folders d now user cols)))"

definition VisibleRolesHomed ::
  "db \<Rightarrow> time \<Rightarrow> uuid \<Rightarrow> uuid option \<Rightarrow> bool \<Rightarrow> cap_cols \<Rightarrow> uuid list \<Rightarrow> nodeFolder list" where
  "VisibleRolesHomed d now user parent cascade cols accessIDs = sort_key nf_ID
     (map (\<lambda>n. \<lparr>nf_ID = r_id n, nf_Folder = r_folder n\<rparr>)
       (filter (\<lambda>n. homed_level d parent cascade (r_folder n) \<and>
          homed_visible d now user cols accessIDs (r_id n) (r_folder n)) (roles d)))"

definition VisibleGroupsHomed ::
  "db \<Rightarrow> time \<Rightarrow> uuid \<Rightarrow> uuid option \<Rightarrow> bool \<Rightarrow> cap_cols \<Rightarrow> uuid list \<Rightarrow> nodeFolder list" where
  "VisibleGroupsHomed d now user parent cascade cols accessIDs = sort_key nf_ID
     (map (\<lambda>n. \<lparr>nf_ID = g_id n, nf_Folder = g_folder n\<rparr>)
       (filter (\<lambda>n. homed_level d parent cascade (g_folder n) \<and>
          homed_visible d now user cols accessIDs (g_id n) (g_folder n)) (groups d)))"

datatype homedTable = rolesTable | groupsTable

definition visibleHomedSetBased ::
  "db \<Rightarrow> time \<Rightarrow> uuid \<Rightarrow> homedTable \<Rightarrow> string \<Rightarrow> uuid \<Rightarrow> bool \<Rightarrow> uuid list \<Rightarrow> nodeFolder list" where
  "visibleHomedSetBased d now user table mgmtCap parent cascade accessIDs = (case table of
     rolesTable \<Rightarrow> VisibleRolesHomed d now user (nullableUUIDArg parent) cascade (NormalizeCap mgmtCap) accessIDs
   | groupsTable \<Rightarrow> VisibleGroupsHomed d now user (nullableUUIDArg parent) cascade (NormalizeCap mgmtCap) accessIDs)"

definition visibleRolesHomed :: "db \<Rightarrow> time \<Rightarrow> uuid \<Rightarrow> uuid \<Rightarrow> bool \<Rightarrow> nodeFolder list" where
  "visibleRolesHomed d now user parent cascade =
     visibleHomedSetBased d now user rolesTable RoleReadCap parent cascade
       (unionKeys (heldRoleIDs d now user) (requestableRoleIDs d now user))"

definition nodeIDs :: "nodeFolder list \<Rightarrow> uuid list" where
  "nodeIDs nodes = map nf_ID nodes"

definition VisibleRolesUnder :: "db \<Rightarrow> time \<Rightarrow> uuid \<Rightarrow> uuid \<Rightarrow> bool \<Rightarrow> uuid list" where
  "VisibleRolesUnder d now user parent cascade = nodeIDs (visibleRolesHomed d now user parent cascade)"

definition visibleGroupsHomed :: "db \<Rightarrow> time \<Rightarrow> uuid \<Rightarrow> uuid \<Rightarrow> bool \<Rightarrow> nodeFolder list" where
  "visibleGroupsHomed d now user parent cascade =
     visibleHomedSetBased d now user groupsTable GroupReadCap parent cascade (memberGroupIDs d user)"

definition VisibleGroupsUnder :: "db \<Rightarrow> time \<Rightarrow> uuid \<Rightarrow> uuid \<Rightarrow> bool \<Rightarrow> uuid list" where
  "VisibleGroupsUnder d now user parent cascade = nodeIDs (visibleGroupsHomed d now user parent cascade)"

section \<open>Assets\<close>

text \<open>Strings are ordered bytewise; of the collation only that it is a linear order matters.\<close>

definition AssetLoginsForAssets :: "db \<Rightarrow> uuid list \<Rightarrow> (uuid \<times> string) list" where
  "AssetLoginsForAssets d ids = sort_key snd (map (\<lambda>l. (al_asset l, al_login l))
     (filter (\<lambda>l. al_asset l \<in> set ids) (ssh_asset_logins d)))"

definition assetLoginsFor :: "db \<Rightarrow> uuid list \<Rightarrow> uuid \<Rightarrow> string list" where
  "assetLoginsFor d ids asset = (if ids = [] then []
     else map snd (filter (\<lambda>(a, l). a = asset) (AssetLoginsForAssets d ids)))"

definition assetLoginNames :: "db \<Rightarrow> uuid \<Rightarrow> string list" where
  "assetLoginNames d asset = assetLoginsFor d [asset] asset"

definition AssetVisible :: "db \<Rightarrow> time \<Rightarrow> uuid \<Rightarrow> uuid \<Rightarrow> bool" where
  "AssetVisible d now user asset =
     (let caps = CapabilitiesOnScope d now user (AssetScope asset)
      in if ReadAllowed caps AssetReadCap then True
         else EntitledLoginsFor caps SSHLoginPrefix (assetLoginNames d asset) \<noteq> [])"

definition accessibleAssetSet :: "db \<Rightarrow> time \<Rightarrow> uuid \<Rightarrow> uuid list" where
  "accessibleAssetSet d now user = map av_AssetID (VisibleAssets d now user)"

text \<open>The connect arm: a declared login that a role in the cascade of the asset's scope entitles.\<close>

definition connect_roles :: "db \<Rightarrow> time \<Rightarrow> uuid \<Rightarrow> asset_row \<Rightarrow> uuid list" where
  "connect_roles d now user a = authz_global_held d user @
     map fst (filter (\<lambda>(r, k, o'). k = KAsset \<and> sql_eq o' (Some (a_id a)) \<or> k = KFolder \<and>
       list_ex (\<lambda>f. sql_eq o' (Some f)) (folderAncestorsAndSelf d (a_folder a))) (authz_held d now user))"

definition connect_visible :: "db \<Rightarrow> time \<Rightarrow> uuid \<Rightarrow> asset_row \<Rightarrow> bool" where
  "connect_visible d now user a = list_ex (\<lambda>l. al_asset l = a_id a \<and>
     list_ex (\<lambda>rc. rc_role rc \<in> set (connect_roles d now user a) \<and>
        sql_cap_match (rc_cols rc) (''ssh'', ''login'', al_login l)) (role_capabilities d))
     (ssh_asset_logins d)"

definition asset_level :: "db \<Rightarrow> uuid option \<Rightarrow> bool \<Rightarrow> asset_row \<Rightarrow> bool" where
  "asset_level d parent cascade a =
     (if \<not> cascade then (case parent of None \<Rightarrow> False | Some p \<Rightarrow> a_folder a = p)
      else (case parent of None \<Rightarrow> True | Some p \<Rightarrow> in_subtree d p (a_folder a)))"

definition VisibleAssetsUnder_q ::
  "db \<Rightarrow> time \<Rightarrow> uuid \<Rightarrow> uuid option \<Rightarrow> bool \<Rightarrow> cap_cols \<Rightarrow> uuid list \<Rightarrow> uuid list" where
  "VisibleAssetsUnder_q d now user parent cascade cols accessIDs = sort (map a_id (filter (\<lambda>a.
     asset_level d parent cascade a \<and>
     (a_id a \<in> set accessIDs \<or> authz_mgmt_global_read d user cols \<or>
      a_folder a \<in> set (authz_mgmt_visible_folders d now user cols) \<or>
      connect_visible d now user a)) (assets d)))"

definition VisibleAssetsUnder :: "db \<Rightarrow> time \<Rightarrow> uuid \<Rightarrow> uuid \<Rightarrow> bool \<Rightarrow> uuid list" where
  "VisibleAssetsUnder d now user parent cascade =
     (if parent = uuid_nil \<and> \<not> cascade then []
      else VisibleAssetsUnder_q d now user (nullableUUIDArg parent) cascade (NormalizeCap AssetReadCap)
        (accessibleAssetSet d now user))"

section \<open>Folders\<close>

definition AllFolderIDs :: "db \<Rightarrow> uuid list" where
  "AllFolderIDs d = map f_id (folders d)"

definition allFolderIDs :: "db \<Rightarrow> uuid list" where
  "allFolderIDs d = AllFolderIDs d"

definition ChildFolderIDs :: "db \<Rightarrow> uuid option \<Rightarrow> uuid list" where
  "ChildFolderIDs d parent = map f_id (sort_key (\<lambda>f. (f_name f, f_id f)) (filter (\<lambda>f. f_parent f = parent) (folders d)))"

definition childFolderIDs :: "db \<Rightarrow> uuid \<Rightarrow> uuid list" where
  "childFolderIDs d parent = ChildFolderIDs d (nullableUUIDArg parent)"

definition childCandidateFolderIDs :: "db \<Rightarrow> uuid \<Rightarrow> bool \<Rightarrow> uuid list" where
  "childCandidateFolderIDs d parent cascade =
     (if parent = uuid_nil \<and> cascade then allFolderIDs d
      else let children = childFolderIDs d parent
           in if \<not> cascade then children else folderSubtreeIDs d children)"

record VisibleFolder =
  vf_ID :: uuid
  vf_Governed :: bool

definition allFoldersAtLevel :: "db \<Rightarrow> uuid \<Rightarrow> bool \<Rightarrow> bool \<Rightarrow> VisibleFolder list" where
  "allFoldersAtLevel d parent cascade governed =
     map (\<lambda>i. \<lparr>vf_ID = i, vf_Governed = governed\<rparr>) (childCandidateFolderIDs d parent cascade)"

definition HeldRolesAndAssets :: "db \<Rightarrow> time \<Rightarrow> uuid \<Rightarrow> held_row list" where
  "HeldRolesAndAssets d now user = remdups (authz_held d now user)"

definition heldRolesAndAssets :: "db \<Rightarrow> time \<Rightarrow> uuid \<Rightarrow> uuid list \<times> uuid list" where
  "heldRolesAndAssets d now user =
     (let rows = HeldRolesAndAssets d now user
      in (remdups (map fst rows),
          remdups (concat (map (\<lambda>(r, k, o'). case o' of
            Some a \<Rightarrow> if k = KAsset then [a] else [] | None \<Rightarrow> []) rows))))"

definition HeldFolderCapabilities :: "db \<Rightarrow> time \<Rightarrow> uuid \<Rightarrow> (uuid option \<times> cap_cols) list" where
  "HeldFolderCapabilities d now user = remdups (concat (map (\<lambda>(r, k, o').
     map (\<lambda>rc. (o', rc_cols rc)) (filter (\<lambda>rc. k = KFolder \<and> rc_role rc = r) (role_capabilities d)))
     (authz_held d now user)))"

definition isManagementCap :: "string \<Rightarrow> bool" where
  "isManagementCap pat =
     (if pat = ''**'' \<or> pat = ''*'' then True
      else prefix ''catalog:'' pat \<or> prefix ''access:'' pat \<or> prefix ''identity:'' pat)"

text \<open>A row without a folder, from a global binding, gives the nil id.\<close>

definition mgmtScopeFolders :: "db \<Rightarrow> time \<Rightarrow> uuid \<Rightarrow> uuid list" where
  "mgmtScopeFolders d now user = remdups (map (\<lambda>(o', cols). case o' of Some f \<Rightarrow> f | None \<Rightarrow> uuid_nil)
     (filter (\<lambda>(o', cols). isManagementCap (ReconstructCap cols)) (HeldFolderCapabilities d now user)))"

text \<open>The home folders of visible roles and groups and the folders of visible assets.\<close>

definition anchor_caps_folders :: "db \<Rightarrow> time \<Rightarrow> uuid \<Rightarrow> cap_cols \<Rightarrow> uuid list" where
  "anchor_caps_folders d now user cols = concat (map (\<lambda>(o', rc).
     concat (map (\<lambda>mf. map f_id (filter (\<lambda>nf. ltree_ancestor (f_path_ids mf) (f_path_ids nf)) (folders d)))
       (filter (\<lambda>mf. sql_eq (Some (f_id mf)) o') (folders d))))
     (filter (\<lambda>(o', rc). sql_cap_match rc cols) (HeldFolderCapabilities d now user)))"

definition anchor_global :: "db \<Rightarrow> uuid \<Rightarrow> cap_cols \<Rightarrow> bool" where
  "anchor_global d user cols = list_ex (\<lambda>rc. sql_cap_match rc cols) (GlobalHeldCapabilities d user)"

definition anchor_homes :: "db \<Rightarrow> time \<Rightarrow> uuid \<Rightarrow> cap_cols \<Rightarrow> uuid list \<Rightarrow> (uuid \<times> uuid option) list \<Rightarrow> uuid list" where
  "anchor_homes d now user cols access nodes = concat (map (\<lambda>(i, home). case home of
     None \<Rightarrow> []
   | Some h \<Rightarrow> if h \<in> f_id ` set (folders d) \<and>
       (i \<in> set access \<or> anchor_global d user cols \<or> h \<in> set (anchor_caps_folders d now user cols))
       then [h] else []) nodes)"

definition AnchorHomeFolders ::
  "db \<Rightarrow> time \<Rightarrow> uuid \<Rightarrow> uuid list \<Rightarrow> uuid list \<Rightarrow> uuid list \<Rightarrow> uuid list" where
  "AnchorHomeFolders d now user roleAccess groupAccess assetAccess = remdups
     (anchor_homes d now user (''access'', ''role'', ''read'') roleAccess
        (map (\<lambda>r. (r_id r, r_folder r)) (roles d)) @
      anchor_homes d now user (''identity'', ''group'', ''read'') groupAccess
        (map (\<lambda>g. (g_id g, g_folder g)) (groups d)) @
      map a_folder (filter (\<lambda>a. a_id a \<in> set assetAccess \<or>
         anchor_global d user (''catalog'', ''asset'', ''read'') \<or>
         a_folder a \<in> set (anchor_caps_folders d now user (''catalog'', ''asset'', ''read'')) \<or>
         connect_visible d now user a) (assets d)))"

definition anchorHomeFolders ::
  "db \<Rightarrow> time \<Rightarrow> uuid \<Rightarrow> uuid list \<Rightarrow> uuid list \<Rightarrow> uuid list \<Rightarrow> uuid list" where
  "anchorHomeFolders d now user roleAccess groupAccess assetAccess =
     AnchorHomeFolders d now user roleAccess groupAccess assetAccess"

definition folderAnchors :: "db \<Rightarrow> time \<Rightarrow> uuid \<Rightarrow> uuid list \<times> uuid list" where
  "folderAnchors d now user =
     (let (heldRoles, heldAssets) = heldRolesAndAssets d now user;
          req = visibleRequestable d now user;
          member = memberGroupIDs d user;
          roleAccess = remdups (heldRoles @ map snd req);
          assetAccess = remdups (heldAssets @ map fst req);
          mgmt = mgmtScopeFolders d now user;
          anchorFolders = anchorHomeFolders d now user roleAccess member assetAccess
      in (mgmt @ filter (\<lambda>i. i \<notin> set mgmt) (remdups anchorFolders), mgmt))"

definition VisibleFoldersUnder_q :: "db \<Rightarrow> bool \<Rightarrow> uuid option \<Rightarrow> uuid list \<Rightarrow> uuid list \<Rightarrow> VisibleFolder list" where
  "VisibleFoldersUnder_q d cascade parent anchors mgmtIDs =
     (let governed = (\<lambda>f. list_ex (\<lambda>m. f_id m \<in> set mgmtIDs \<and> ltree_ancestor (f_path_ids m) (f_path_ids f)) (folders d));
          anchored = (\<lambda>f. list_ex (\<lambda>a. f_id a \<in> set anchors \<and> ltree_ancestor (f_path_ids f) (f_path_ids a)) (folders d));
          level = (\<lambda>f. if \<not> cascade then f_parent f = parent
            else (case parent of None \<Rightarrow> True | Some p \<Rightarrow> in_subtree d p (f_id f) \<and> f_id f \<noteq> p))
      in map (\<lambda>f. \<lparr>vf_ID = f_id f, vf_Governed = governed f\<rparr>)
           (sort_key (\<lambda>f. (f_name f, f_id f)) (filter (\<lambda>f. level f \<and> (anchored f \<or> governed f)) (folders d))))"

definition FolderPathVisible_q :: "db \<Rightarrow> uuid \<Rightarrow> uuid list \<Rightarrow> uuid list \<Rightarrow> bool" where
  "FolderPathVisible_q d folderID anchors mgmtIDs = list_ex (\<lambda>f. f_id f = folderID \<and>
     (list_ex (\<lambda>a. f_id a \<in> set anchors \<and> ltree_ancestor (f_path_ids f) (f_path_ids a)) (folders d) \<or>
      list_ex (\<lambda>m. f_id m \<in> set mgmtIDs \<and> ltree_ancestor (f_path_ids m) (f_path_ids f)) (folders d))) (folders d)"

definition FolderExists :: "db \<Rightarrow> uuid \<Rightarrow> bool" where
  "FolderExists d folderID = list_ex (\<lambda>f. f_id f = folderID) (folders d)"

definition VisibleFoldersUnder :: "db \<Rightarrow> time \<Rightarrow> uuid \<Rightarrow> uuid \<Rightarrow> bool \<Rightarrow> VisibleFolder list" where
  "VisibleFoldersUnder d now user parent cascade =
     (if Allows (globalHeldCapabilities d user) FolderReadCap then allFoldersAtLevel d parent cascade True
      else let (anchors, mgmtIDs) = folderAnchors d now user
           in if anchors = [] then []
              else VisibleFoldersUnder_q d cascade (nullableUUIDArg parent) anchors mgmtIDs)"

definition FolderPathVisible :: "db \<Rightarrow> time \<Rightarrow> uuid \<Rightarrow> uuid \<Rightarrow> bool" where
  "FolderPathVisible d now user folderID =
     (if Allows (globalHeldCapabilities d user) FolderReadCap then FolderExists d folderID
      else let (anchors, mgmtIDs) = folderAnchors d now user
           in if anchors = [] then False else FolderPathVisible_q d folderID anchors mgmtIDs)"

definition FolderIDsOf :: "VisibleFolder list \<Rightarrow> uuid list" where
  "FolderIDsOf v = map vf_ID v"

section \<open>The lists and the guards\<close>

lemma allows_at_scope:
  assumes "stored_caps_ok d" and "plain_cap capability"
  shows "Allows (CapabilitiesOnScope d now u s) capability \<longleftrightarrow>
    (\<exists>rc \<in> set (role_capabilities d). rc_role rc \<in> roles_at_scope d now u s \<and>
       sql_cap_match (rc_cols rc) (NormalizeCap capability))"
  unfolding Allows_iff CapabilitiesOnScope_set using stored_cap_match [OF assms] by blast

lemma folder_read_plain: "plain_cap FolderReadCap" "NormalizeCap FolderReadCap = (''catalog'', ''folder'', ''read'')"
  by code_simp+

lemma read_at_scope:
  assumes "stored_caps_ok d" and "plain_cap capability"
  shows "RequireReadCap d now u capability s = Inr () \<longleftrightarrow>
    (\<exists>rc \<in> set (role_capabilities d). rc_role rc \<in> roles_at_scope d now u s \<and>
       mgmt_read_match (rc_cols rc) (NormalizeCap capability))"
  unfolding RequireReadCap_def ReadAllowed_def mgmt_read_match_def allows_at_scope [OF assms]
    allows_at_scope [OF assms(1) folder_read_plain(1)] folder_read_plain(2)
  by auto

lemma anchor_folders_iff:
  "m \<in> set (authz_mgmt_read_anchor_folders d now u cols) \<longleftrightarrow>
     (\<exists>rc \<in> set (role_capabilities d). (rc_role rc, KFolder, m) \<in> set (authz_held d now u) \<and>
        mgmt_read_match (rc_cols rc) cols)"
  by (force simp: authz_mgmt_read_anchor_folders_def list_ex_iff)

lemma subtree_ancestor:
  assumes "folders_wf d"
  shows "(\<exists>mf \<in> set (folders d). f_id mf = m \<and> (\<exists>nf \<in> set (folders d). f_id nf = h \<and>
      ltree_ancestor (f_path_ids mf) (f_path_ids nf))) \<longleftrightarrow> m \<in> set (folderAncestorsAndSelf d h)"
proof
  assume "\<exists>mf \<in> set (folders d). f_id mf = m \<and> (\<exists>nf \<in> set (folders d). f_id nf = h \<and>
      ltree_ancestor (f_path_ids mf) (f_path_ids nf))"
  then show "m \<in> set (folderAncestorsAndSelf d h)"
    unfolding ancestors_iff using FolderPathIDs_self [OF assms] by (auto simp: ltree_ancestor_def)
next
  assume "m \<in> set (folderAncestorsAndSelf d h)"
  then obtain p f where f: "FolderPathIDs d h = Some p" "f \<in> set (folders d)" "f_id f = m" "prefix (f_path_ids f) p"
    unfolding ancestors_iff by blast
  from f(1) obtain nf where "nf \<in> set (folders d)" "f_id nf = h" "f_path_ids nf = p"
    by (auto simp: FolderPathIDs_def GetFolder_iff [OF assms])
  with f show "\<exists>mf \<in> set (folders d). f_id mf = m \<and> (\<exists>nf \<in> set (folders d). f_id nf = h \<and>
      ltree_ancestor (f_path_ids mf) (f_path_ids nf))" by (auto simp: ltree_ancestor_def)
qed

lemma visible_folders_iff:
  assumes "folders_wf d"
  shows "h \<in> set (authz_mgmt_visible_folders d now u cols) \<longleftrightarrow>
    (\<exists>m \<in> set (folderAncestorsAndSelf d h). Some m \<in> set (authz_mgmt_read_anchor_folders d now u cols))"
proof -
  have "h \<in> set (authz_mgmt_visible_folders d now u cols) \<longleftrightarrow>
      (\<exists>m. Some m \<in> set (authz_mgmt_read_anchor_folders d now u cols) \<and>
        (\<exists>mf \<in> set (folders d). f_id mf = m \<and> (\<exists>nf \<in> set (folders d). f_id nf = h \<and>
          ltree_ancestor (f_path_ids mf) (f_path_ids nf))))"
    unfolding authz_mgmt_visible_folders_def by (force simp: sql_eq_iff)
  then show ?thesis unfolding subtree_ancestor [OF assms] by blast
qed

text \<open>The management arm of every list is the read guard at the home folder's scope.\<close>

lemma mgmt_visible_iff:
  assumes "folders_wf d" and "stored_caps_ok d" and "plain_cap capability"
  shows "authz_mgmt_global_read d u (NormalizeCap capability) \<or>
      (case home of None \<Rightarrow> False
       | Some h \<Rightarrow> h \<in> set (authz_mgmt_visible_folders d now u (NormalizeCap capability))) \<longleftrightarrow>
    RequireReadCap d now u capability (ScopeOfFolderID home) = Inr ()"
proof (cases home)
  case None
  then show ?thesis
    unfolding read_at_scope [OF assms(2,3)]
    by (simp add: ScopeOfFolderID_def roles_at_scope_def GlobalScope_def authz_mgmt_global_read_def list_ex_iff)
next
  case (Some h)
  show ?thesis
    unfolding Some option.case read_at_scope [OF assms(2,3)] visible_folders_iff [OF assms(1)] anchor_folders_iff
    by (simp add: ScopeOfFolderID_def roles_at_scope_def FolderScope_def authz_mgmt_global_read_def list_ex_iff) blast
qed

lemma cap_constants_plain: "plain_cap RoleReadCap" "plain_cap GroupReadCap" "plain_cap AssetReadCap"
  by code_simp+

lemma homed_visible_iff:
  assumes "folders_wf d" and "stored_caps_ok d" and "plain_cap capability"
  shows "homed_visible d now u (NormalizeCap capability) accessIDs i home \<longleftrightarrow>
    i \<in> set accessIDs \<or> RequireReadCap d now u capability (ScopeOfFolderID home) = Inr ()"
  unfolding homed_visible_def mgmt_visible_iff [OF assms, symmetric] by blast



section \<open>The list of assets\<close>

text \<open>The login names the column predicate can express: one plain segment.\<close>

definition logins_ok :: "db \<Rightarrow> bool" where
  "logins_ok d = list_all (\<lambda>l. plain_cap (SSHLoginPrefix @ al_login l)) (ssh_asset_logins d)"

lemma assetLoginNames_set: "set (assetLoginNames d a) = {al_login l |l. l \<in> set (ssh_asset_logins d) \<and> al_asset l = a}"
  by (auto simp: assetLoginNames_def assetLoginsFor_def AssetLoginsForAssets_def image_iff split_beta)

lemma ssh_login_cols:
  assumes "plain_cap (SSHLoginPrefix @ l)"
  shows "NormalizeCap (SSHLoginPrefix @ l) = (''ssh'', ''login'', l)"
proof -
  from assms obtain x y z where s: "go_split CHR '':'' (SSHLoginPrefix @ l) = [x, y, z]" "concrete [x, y, z]" "z \<noteq> ''''"
    by (rule plain_cap_segs)
  have "go_split CHR '':'' (SSHLoginPrefix @ l) = ''ssh'' # ''login'' # go_split CHR '':'' l"
    by (simp add: SSHLoginPrefix_def)
  with s(1) have "x = ''ssh''" "y = ''login''" "go_split CHR '':'' l = [z]" by simp_all
  moreover from this(3) have "z = l" using go_join_split [of "CHR '':''" l] by simp
  ultimately show ?thesis using s by (simp add: NormalizeCap_segs)
qed

lemma distinct_key_Bex:
  assumes "distinct (map key xs)" and "x \<in> set xs"
  shows "(\<exists>y \<in> set xs. key y = key x \<and> P y) \<longleftrightarrow> P x"
  using assms(2) distinct_key_eq [OF assms(1) _ assms(2)] by auto

lemma connect_roles_scope:
  assumes "distinct (map a_id (assets d))" and "a \<in> set (assets d)"
  shows "set (connect_roles d now u a) = roles_at_scope d now u (AssetScope (a_id a))"
proof -
  note one = distinct_key_Bex [OF assms]
  show ?thesis
    unfolding connect_roles_def roles_at_scope_def AssetScope_def Scope.simps ScopeKind.case one
    by (force simp: list_ex_iff)
qed

lemma connect_visible_iff:
  assumes "stored_caps_ok d" and "logins_ok d" and "distinct (map a_id (assets d))" and "a \<in> set (assets d)"
  shows "connect_visible d now u a \<longleftrightarrow>
    EntitledLoginsFor (CapabilitiesOnScope d now u (AssetScope (a_id a))) SSHLoginPrefix (assetLoginNames d (a_id a)) \<noteq> []"
proof -
  have "Allows (CapabilitiesOnScope d now u (AssetScope (a_id a))) (SSHLoginPrefix @ al_login l) \<longleftrightarrow>
      (\<exists>rc \<in> set (role_capabilities d). rc_role rc \<in> set (connect_roles d now u a) \<and>
        sql_cap_match (rc_cols rc) (''ssh'', ''login'', al_login l))"
    if "l \<in> set (ssh_asset_logins d)" for l
  proof -
    have "plain_cap (SSHLoginPrefix @ al_login l)" using assms(2) that by (simp add: logins_ok_def list_all_iff)
    then show ?thesis
      unfolding allows_at_scope [OF assms(1) \<open>plain_cap _\<close>] connect_roles_scope [OF assms(3,4)]
      by (simp add: ssh_login_cols)
  qed
  then show ?thesis
    by (auto simp: connect_visible_def EntitledLoginsFor_filter filter_empty_conv assetLoginNames_set list_ex_iff)
qed

text \<open>A role held on the asset itself makes the asset accessible.\<close>

lemma held_asset_accessible:
  assumes "(r, KAsset, Some a) \<in> set (authz_held d now u)"
  shows "a \<in> av_AssetID ` set (VisibleAssets d now u)"
proof -
  have "(a, r) \<in> set (HeldAssets d now u)" using assms by (force simp: HeldAssets_def)
  then have "(a, r) \<in> vis_roles (VisibleAssets d now u)" by (simp add: VisibleAssets_def Let_def vis_fold(2))
  then show ?thesis by (auto simp: vis_roles_def)
qed

lemma asset_visible_split:
  assumes "a \<in> set (assets d)" and "distinct (map a_id (assets d))"
  shows "roles_at_scope d now u (AssetScope (a_id a)) =
    roles_at_scope d now u (FolderScope (a_folder a)) \<union> {r. (r, KAsset, Some (a_id a)) \<in> set (authz_held d now u)}"
proof -
  note one = distinct_key_Bex [OF assms(2,1)]
  show ?thesis
    unfolding roles_at_scope_def AssetScope_def FolderScope_def Scope.simps ScopeKind.case one by blast
qed



section \<open>The folder tree\<close>

lemma folderAnchors_mgmt: "set (snd (folderAnchors d now u)) \<subseteq> set (fst (folderAnchors d now u))"
  by (auto simp: folderAnchors_def Let_def split: prod.split)

text \<open>What the two folder queries decide for one folder row.\<close>

definition path_visible :: "db \<Rightarrow> uuid list \<Rightarrow> uuid list \<Rightarrow> folder_row \<Rightarrow> bool" where
  "path_visible d anchors mgmt f \<longleftrightarrow>
     (\<exists>a \<in> set (folders d). f_id a \<in> set anchors \<and> prefix (f_path_ids f) (f_path_ids a)) \<or>
     (\<exists>m \<in> set (folders d). f_id m \<in> set mgmt \<and> prefix (f_path_ids m) (f_path_ids f))"

lemma FolderPathVisible_q_iff:
  "FolderPathVisible_q d i anchors mgmt \<longleftrightarrow> (\<exists>f \<in> set (folders d). f_id f = i \<and> path_visible d anchors mgmt f)"
  by (simp add: FolderPathVisible_q_def path_visible_def list_ex_iff ltree_ancestor_def)

lemma VisibleFoldersUnder_q_visible:
  "v \<in> set (VisibleFoldersUnder_q d cascade parent anchors mgmt) \<Longrightarrow>
     \<exists>f \<in> set (folders d). f_id f = vf_ID v \<and> path_visible d anchors mgmt f"
  by (auto simp: VisibleFoldersUnder_q_def Let_def path_visible_def list_ex_iff ltree_ancestor_def)

lemma VisibleFoldersUnder_q_root:
  "vf_ID ` set (VisibleFoldersUnder_q d True None anchors mgmt) =
     f_id ` {f \<in> set (folders d). path_visible d anchors mgmt f}"
  by (simp add: VisibleFoldersUnder_q_def Let_def path_visible_def list_ex_iff ltree_ancestor_def image_image)

lemma path_visible_parent:
  assumes "folders_wf d" and "set mgmt \<subseteq> set anchors" and "f \<in> set (folders d)" and "f_parent f = Some p"
    and "path_visible d anchors mgmt f"
  shows "\<exists>g \<in> set (folders d). f_id g = p \<and> path_visible d anchors mgmt g"
proof -
  from folder_cases [OF assms(1,3)] assms(4) obtain g where g: "g \<in> set (folders d)" "f_id g = p"
    "f_path_ids f = f_path_ids g @ [f_id f]" by auto
  show ?thesis
  proof (cases "\<exists>a \<in> set (folders d). f_id a \<in> set anchors \<and> prefix (f_path_ids f) (f_path_ids a)")
    case True
    then have "path_visible d anchors mgmt g"
      unfolding path_visible_def g(3) by (meson append_prefixD)
    with g show ?thesis by blast
  next
    case False
    with assms(5) obtain m where m: "m \<in> set (folders d)" "f_id m \<in> set mgmt" "prefix (f_path_ids m) (f_path_ids f)"
      unfolding path_visible_def by blast
    then have "prefix (f_path_ids m) (f_path_ids g) \<or> f_path_ids m = f_path_ids f"
      unfolding g(3) by (auto simp: prefix_snoc)
    with False m assms(2) have "prefix (f_path_ids m) (f_path_ids g)" by (metis prefix_order.refl subsetD)
    with m have "path_visible d anchors mgmt g" unfolding path_visible_def by blast
    with g show ?thesis by blast
  qed
qed

lemma FolderPathVisible_iff:
  "FolderPathVisible d now u i \<longleftrightarrow> (\<exists>f \<in> set (folders d). f_id f = i \<and>
     (Allows (globalHeldCapabilities d u) FolderReadCap \<or>
      path_visible d (fst (folderAnchors d now u)) (snd (folderAnchors d now u)) f))"
proof (cases "fst (folderAnchors d now u) = []")
  case True
  with folderAnchors_mgmt [of d now u] have "snd (folderAnchors d now u) = []" by auto
  with True show ?thesis
    by (auto simp: FolderPathVisible_def FolderExists_def list_ex_iff Let_def split_beta path_visible_def)
next
  case False
  then show ?thesis
    by (auto simp: FolderPathVisible_def FolderExists_def list_ex_iff Let_def split_beta FolderPathVisible_q_iff)
qed

lemma candidate_folders: "i \<in> set (childCandidateFolderIDs d parent cascade) \<Longrightarrow> i \<in> f_id ` set (folders d)"
  by (auto simp: childCandidateFolderIDs_def AllFolderIDs_def allFolderIDs_def childFolderIDs_def ChildFolderIDs_def
      folderSubtreeIDs_def Let_def split: if_splits)

lemma VisibleFoldersUnder_visible:
  "v \<in> set (VisibleFoldersUnder d now u parent cascade) \<Longrightarrow> FolderPathVisible d now u (vf_ID v)"
  unfolding FolderPathVisible_iff
  using candidate_folders [of "vf_ID v" d parent cascade]
    VisibleFoldersUnder_q_visible [of v d cascade "nullableUUIDArg parent" "fst (folderAnchors d now u)" "snd (folderAnchors d now u)"]
  by (auto simp: VisibleFoldersUnder_def allFoldersAtLevel_def Let_def split_beta split: if_splits)

lemma VisibleFoldersUnder_root:
  "vf_ID ` set (VisibleFoldersUnder d now u uuid_nil True) = {i. FolderPathVisible d now u i}"
proof (cases "\<not> Allows (globalHeldCapabilities d u) FolderReadCap \<and> fst (folderAnchors d now u) = []")
  case True
  with folderAnchors_mgmt [of d now u] have "snd (folderAnchors d now u) = []" by auto
  with True show ?thesis
    by (auto simp: VisibleFoldersUnder_def FolderPathVisible_iff Let_def split_beta path_visible_def)
next
  case False
  then show ?thesis
    by (auto simp: VisibleFoldersUnder_def FolderPathVisible_iff allFoldersAtLevel_def childCandidateFolderIDs_def
        AllFolderIDs_def allFolderIDs_def Let_def split_beta nullableUUIDArg_def VisibleFoldersUnder_q_root image_image)
qed

text \<open>
  C35: browsing folders is consistent. Listing the whole tree shows exactly the folders
  \<open>FolderPathVisible\<close> admits one by one, a list under any parent shows only those, and the parent of
  a visible folder is visible: no visible folder is cut off from the root.
\<close>

theorem folder_browsing_consistent:
  assumes "folders_wf d"
  shows "vf_ID ` set (VisibleFoldersUnder d now u uuid_nil True) = {i. FolderPathVisible d now u i} \<and>
    vf_ID ` set (VisibleFoldersUnder d now u parent cascade) \<subseteq> {i. FolderPathVisible d now u i} \<and>
    (\<forall>f \<in> set (folders d). \<forall>p. FolderPathVisible d now u (f_id f) \<longrightarrow> f_parent f = Some p \<longrightarrow>
       FolderPathVisible d now u p)"
proof (intro conjI ballI allI impI)
  fix f p assume f: "f \<in> set (folders d)" and vis: "FolderPathVisible d now u (f_id f)" and p: "f_parent f = Some p"
  from f p folder_cases [OF assms f] obtain g where g: "g \<in> set (folders d)" "f_id g = p" by auto
  from vis obtain f' where f': "f' \<in> set (folders d)" "f_id f' = f_id f"
    "Allows (globalHeldCapabilities d u) FolderReadCap \<or>
      path_visible d (fst (folderAnchors d now u)) (snd (folderAnchors d now u)) f'"
    unfolding FolderPathVisible_iff by blast
  have "f' = f" using assms f f'(1,2) distinct_key_eq [of f_id "folders d" f' f] by (simp add: folders_wf_def)
  with f' path_visible_parent [OF assms folderAnchors_mgmt f p] g show "FolderPathVisible d now u p"
    unfolding FolderPathVisible_iff by blast
qed (auto simp: VisibleFoldersUnder_root VisibleFoldersUnder_visible)

theorem folder_browsing_consistent_witness:
  "vf_ID ` set (VisibleFoldersUnder sample_db 0 2 uuid_nil True) = {i. FolderPathVisible sample_db 0 2 i} \<and>
   FolderPathVisible sample_db 0 2 10"
proof -
  have wf: "folders_wf sample_db" by code_simp
  have "FolderPathVisible sample_db 0 2 11" "f_parent (folders sample_db ! 1) = Some 10"
    "f_id (folders sample_db ! 1) = 11" "folders sample_db ! 1 \<in> set (folders sample_db)" by code_simp+
  then show ?thesis using folder_browsing_consistent [OF wf, of 0 2 uuid_nil True] by metis
qed

section \<open>Assets and the folders they are in\<close>

text \<open>No stored pattern has a wildcard scope, apart from the full wildcard.\<close>

definition scopes_named :: "db \<Rightarrow> bool" where
  "scopes_named d = list_all (\<lambda>rc. fst (rc_cols rc) = ''*'' \<longrightarrow> rc_cols rc = (''*'', ''*'', ''*'')) (role_capabilities d)"

lemma folder_read_is_management:
  assumes "scopes_named d" and "rc \<in> set (role_capabilities d)"
    and "sql_cap_match (rc_cols rc) (''catalog'', ''folder'', ''read'')"
  shows "isManagementCap (ReconstructCap (rc_cols rc))"
proof (cases "fst (rc_cols rc) = ''*''")
  case True
  with assms(1,2) have "rc_cols rc = (''*'', ''*'', ''*'')" by (simp add: scopes_named_def list_all_iff)
  then show ?thesis by (simp add: isManagementCap_def ReconstructCap_def)
next
  case False
  then obtain a q where "rc_cols rc = (''catalog'', a, q)" "a = ''folder'' \<or> a = ''*''" "q = ''read'' \<or> q = ''*''"
    using assms(3) by (cases "rc_cols rc") (auto simp: sql_cap_match_def)
  then show ?thesis by (auto simp: isManagementCap_def ReconstructCap_def)
qed

lemma held_folder_caps_iff:
  "(o', cols) \<in> set (HeldFolderCapabilities d now u) \<longleftrightarrow>
     (\<exists>rc \<in> set (role_capabilities d). rc_cols rc = cols \<and> (rc_role rc, KFolder, o') \<in> set (authz_held d now u))"
proof
  assume "(o', cols) \<in> set (HeldFolderCapabilities d now u)"
  then obtain r k rc where "(r, k, o') \<in> set (authz_held d now u)" "rc \<in> set (role_capabilities d)"
    "k = KFolder" "rc_role rc = r" "cols = rc_cols rc"
    unfolding HeldFolderCapabilities_def by auto
  then show "\<exists>rc \<in> set (role_capabilities d). rc_cols rc = cols \<and> (rc_role rc, KFolder, o') \<in> set (authz_held d now u)"
    by blast
next
  assume "\<exists>rc \<in> set (role_capabilities d). rc_cols rc = cols \<and> (rc_role rc, KFolder, o') \<in> set (authz_held d now u)"
  then obtain rc where rc: "rc \<in> set (role_capabilities d)" "rc_cols rc = cols"
    "(rc_role rc, KFolder, o') \<in> set (authz_held d now u)" by blast
  then have "(o', cols) \<in> (\<lambda>rc. (o', rc_cols rc)) ` {rc' \<in> set (role_capabilities d). rc_role rc' = rc_role rc}" by blast
  with rc(3) show "(o', cols) \<in> set (HeldFolderCapabilities d now u)"
    unfolding HeldFolderCapabilities_def set_remdups set_concat set_map UN_iff bex_simps
    by (intro bexI [of _ "(rc_role rc, KFolder, o')"]) auto
qed

lemma anchor_caps_rows:
  "h \<in> set (anchor_caps_folders d now u cols) \<longleftrightarrow>
      (\<exists>m rc. (Some m, rc) \<in> set (HeldFolderCapabilities d now u) \<and> sql_cap_match rc cols \<and>
        (\<exists>mf \<in> set (folders d). f_id mf = m \<and> (\<exists>nf \<in> set (folders d). f_id nf = h \<and>
          ltree_ancestor (f_path_ids mf) (f_path_ids nf))))" (is "?l \<longleftrightarrow> ?r")
proof
  assume ?l
  then obtain x mf nf where "x \<in> set (HeldFolderCapabilities d now u)" "sql_cap_match (snd x) cols"
    "mf \<in> set (folders d)" "Some (f_id mf) = fst x" "nf \<in> set (folders d)" "f_id nf = h"
    "ltree_ancestor (f_path_ids mf) (f_path_ids nf)"
    unfolding anchor_caps_folders_def by (auto simp: sql_eq_iff)
  then show ?r by (intro exI [of _ "f_id mf"] exI [of _ "snd x"]) auto
next
  assume ?r
  then obtain m rc mf nf where h: "(Some m, rc) \<in> set (HeldFolderCapabilities d now u)" "sql_cap_match rc cols"
    "mf \<in> set (folders d)" "f_id mf = m" "nf \<in> set (folders d)" "f_id nf = h"
    "ltree_ancestor (f_path_ids mf) (f_path_ids nf)" by blast
  have "(Some m, rc) \<in> {x \<in> set (HeldFolderCapabilities d now u). sql_cap_match (snd x) cols}" using h by simp
  moreover have "h \<in> f_id ` {nf \<in> set (folders d). ltree_ancestor (f_path_ids mf) (f_path_ids nf)}" using h by blast
  ultimately show ?l unfolding anchor_caps_folders_def set_concat set_map set_filter UN_iff bex_simps
    using h(3,4) by (intro exI [of _ "(Some m, rc)"]) (auto simp: sql_eq_iff split_beta)
qed

lemma anchor_caps_iff:
  assumes "folders_wf d"
  shows "h \<in> set (anchor_caps_folders d now u cols) \<longleftrightarrow>
    (\<exists>m \<in> set (folderAncestorsAndSelf d h). \<exists>rc \<in> set (role_capabilities d).
       (rc_role rc, KFolder, Some m) \<in> set (authz_held d now u) \<and> sql_cap_match (rc_cols rc) cols)"
  unfolding anchor_caps_rows subtree_ancestor [OF assms] held_folder_caps_iff by blast

lemma mgmt_scope:
  assumes "(Some m, cols) \<in> set (HeldFolderCapabilities d now u)" and "isManagementCap (ReconstructCap cols)"
  shows "m \<in> set (snd (folderAnchors d now u))"
proof -
  have "m \<in> set (mgmtScopeFolders d now u)"
    unfolding mgmtScopeFolders_def set_remdups set_map set_filter
    using assms by (intro image_eqI [of _ _ "(Some m, cols)"]) auto
  then show ?thesis by (simp add: folderAnchors_def Let_def split_beta)
qed

lemma governed_visible:
  assumes "folders_wf d" and "f \<in> set (folders d)" and "m \<in> set (folderAncestorsAndSelf d (f_id f))"
    and "m \<in> set (snd (folderAnchors d now u))"
  shows "FolderPathVisible d now u (f_id f)"
proof -
  from assms(3) obtain g where g: "g \<in> set (folders d)" "f_id g = m" "prefix (f_path_ids g) (f_path_ids f)"
    unfolding ancestors_iff FolderPathIDs_self [OF assms(1,2)] by blast
  then have "path_visible d (fst (folderAnchors d now u)) (snd (folderAnchors d now u)) f"
    using assms(4) unfolding path_visible_def by blast
  then show ?thesis unfolding FolderPathVisible_iff using assms(2) by blast
qed

lemma anchor_visible:
  assumes "f \<in> set (folders d)" and "f_id f \<in> set (fst (folderAnchors d now u))"
  shows "FolderPathVisible d now u (f_id f)"
  unfolding FolderPathVisible_iff path_visible_def using assms by blast

lemma global_folder_read:
  assumes "stored_caps_ok d" and "rc \<in> set (role_capabilities d)" and "rc_role rc \<in> set (authz_global_held d u)"
    and "sql_cap_match (rc_cols rc) (''catalog'', ''folder'', ''read'')"
  shows "Allows (globalHeldCapabilities d u) FolderReadCap"
  using assms(2-4) stored_cap_match [OF assms(1) folder_read_plain(1)]
  unfolding Allows_iff folder_read_plain(2) globalHeldCapabilities_def GlobalHeldCapabilities_def by fastforce

lemma mgmt_reveals:
  assumes wf: "folders_wf d" and "stored_caps_ok d" and "scopes_named d" and f: "f \<in> set (folders d)"
    and mgmt: "authz_mgmt_global_read d u cols \<or> f_id f \<in> set (authz_mgmt_visible_folders d now u cols)"
  shows "FolderPathVisible d now u (f_id f) \<or> anchor_global d u cols \<or> f_id f \<in> set (anchor_caps_folders d now u cols)"
  using mgmt
proof
  assume "authz_mgmt_global_read d u cols"
  then obtain rc where rc: "rc \<in> set (role_capabilities d)" "rc_role rc \<in> set (authz_global_held d u)"
    "mgmt_read_match (rc_cols rc) cols" by (auto simp: authz_mgmt_global_read_def list_ex_iff)
  show ?thesis
  proof (cases "sql_cap_match (rc_cols rc) cols")
    case True
    with rc(1,2) have "anchor_global d u cols" by (auto simp: anchor_global_def GlobalHeldCapabilities_def list_ex_iff)
    then show ?thesis by blast
  next
    case False
    with rc(3) have "sql_cap_match (rc_cols rc) (''catalog'', ''folder'', ''read'')" by (simp add: mgmt_read_match_def)
    from global_folder_read [OF assms(2) rc(1,2) this] f show ?thesis unfolding FolderPathVisible_iff by blast
  qed
next
  assume "f_id f \<in> set (authz_mgmt_visible_folders d now u cols)"
  then obtain m rc where m: "m \<in> set (folderAncestorsAndSelf d (f_id f))" and rc: "rc \<in> set (role_capabilities d)"
    "(rc_role rc, KFolder, Some m) \<in> set (authz_held d now u)" "mgmt_read_match (rc_cols rc) cols"
    unfolding visible_folders_iff [OF wf] anchor_folders_iff by blast
  show ?thesis
  proof (cases "sql_cap_match (rc_cols rc) cols")
    case True
    with m rc(1,2) show ?thesis unfolding anchor_caps_iff [OF wf] by blast
  next
    case False
    with rc(3) have "isManagementCap (ReconstructCap (rc_cols rc))"
      using folder_read_is_management [OF assms(3) rc(1)] by (simp add: mgmt_read_match_def)
    moreover have "(Some m, rc_cols rc) \<in> set (HeldFolderCapabilities d now u)"
      unfolding held_folder_caps_iff using rc(1,2) by blast
    ultimately have "m \<in> set (snd (folderAnchors d now u))"
      by (intro mgmt_scope)
    from governed_visible [OF wf f m this] show ?thesis by blast
  qed
qed

lemma anchor_homes_iff:
  "h \<in> set (anchor_homes d now u cols access nodes) \<longleftrightarrow> h \<in> f_id ` set (folders d) \<and>
     (\<exists>i. (i, Some h) \<in> set nodes \<and>
       (i \<in> set access \<or> anchor_global d u cols \<or> h \<in> set (anchor_caps_folders d now u cols)))"
  unfolding anchor_homes_def by (auto split: option.splits if_splits)

text \<open>The foreign keys from roles, groups and assets to their folders.\<close>

definition homes_fk :: "db \<Rightarrow> bool" where
  "homes_fk d = (list_all (\<lambda>r. \<forall>h \<in> set_option (r_folder r). h \<in> f_id ` set (folders d)) (roles d) \<and>
     list_all (\<lambda>g. \<forall>h \<in> set_option (g_folder g). h \<in> f_id ` set (folders d)) (groups d) \<and>
     list_all (\<lambda>a. a_folder a \<in> f_id ` set (folders d)) (assets d))"

lemma vis_fold_ids: "av_AssetID ` set (fold (vis_add b) ps vs) = fst ` set ps \<union> av_AssetID ` set vs"
proof (induction ps arbitrary: vs)
  case (Cons p ps)
  obtain a r where p: "p = (a, r)" by (cases p)
  have "av_AssetID ` set (vis_add b (a, r) vs) = insert a (av_AssetID ` set vs)"
    by (induction vs) auto
  then show ?case using Cons.IH by (simp add: p)
qed simp

lemma AnchorHomeFolders_cong:
  assumes "set ra = set ra'" and "set aa = set aa'"
  shows "set (AnchorHomeFolders d now u ra ga aa) = set (AnchorHomeFolders d now u ra' ga aa')"
  unfolding AnchorHomeFolders_def anchor_homes_def assms by simp

lemma anchors_of_homes:
  "set (fst (folderAnchors d now u)) = set (mgmtScopeFolders d now u) \<union>
     set (AnchorHomeFolders d now u (unionKeys (heldRoleIDs d now u) (requestableRoleIDs d now u))
       (memberGroupIDs d u) (accessibleAssetSet d now u))"
proof -
  have roles: "set (remdups (fst (heldRolesAndAssets d now u) @ map snd (visibleRequestable d now u))) =
      set (unionKeys (heldRoleIDs d now u) (requestableRoleIDs d now u))"
    by (simp add: heldRolesAndAssets_def HeldRolesAndAssets_def Let_def unionKeys_def heldRoleIDs_def
        HeldRoleIDs_def requestableRoleIDs_def)
  have held: "set (snd (heldRolesAndAssets d now u)) = fst ` set (HeldAssets d now u)"
    by (force simp: heldRolesAndAssets_def HeldRolesAndAssets_def Let_def HeldAssets_def split: option.splits if_splits)
  have assets: "set (remdups (snd (heldRolesAndAssets d now u) @ map fst (visibleRequestable d now u))) =
      set (accessibleAssetSet d now u)"
    by (auto simp: accessibleAssetSet_def VisibleAssets_def vis_fold_ids held)
  have "set (fst (folderAnchors d now u)) = set (mgmtScopeFolders d now u) \<union>
     set (AnchorHomeFolders d now u (remdups (fst (heldRolesAndAssets d now u) @ map snd (visibleRequestable d now u)))
       (memberGroupIDs d u) (remdups (snd (heldRolesAndAssets d now u) @ map fst (visibleRequestable d now u))))"
    unfolding folderAnchors_def Let_def split_beta anchorHomeFolders_def by auto
  then show ?thesis unfolding AnchorHomeFolders_cong [OF roles assets] .
qed

lemma home_revealed:
  assumes "folders_wf d" and "stored_caps_ok d" and "scopes_named d" and "h \<in> f_id ` set (folders d)"
    and "set (anchor_homes d now u cols access nodes) \<subseteq> set (fst (folderAnchors d now u))"
    and "(i, Some h) \<in> set nodes" and "homed_visible d now u cols access i (Some h)"
  shows "FolderPathVisible d now u h"
proof -
  from assms(4) obtain f where f: "f \<in> set (folders d)" "f_id f = h" by blast
  have "FolderPathVisible d now u h \<or> h \<in> set (anchor_homes d now u cols access nodes)"
    using assms(4,6,7) mgmt_reveals [OF assms(1-3) f(1), unfolded f(2)]
    unfolding homed_visible_def option.case anchor_homes_iff by blast
  then show ?thesis using assms(5) anchor_visible [OF f(1)] f(2) by blast
qed

lemma homed_anchors:
  "set (anchor_homes d now u (NormalizeCap RoleReadCap) (unionKeys (heldRoleIDs d now u) (requestableRoleIDs d now u))
      (map (\<lambda>r. (r_id r, r_folder r)) (roles d))) \<subseteq> set (fst (folderAnchors d now u))"
  "set (anchor_homes d now u (NormalizeCap GroupReadCap) (memberGroupIDs d u)
      (map (\<lambda>g. (g_id g, g_folder g)) (groups d))) \<subseteq> set (fst (folderAnchors d now u))"
proof -
  have cols: "NormalizeCap RoleReadCap = (''access'', ''role'', ''read'')"
    "NormalizeCap GroupReadCap = (''identity'', ''group'', ''read'')" by code_simp+
  show "set (anchor_homes d now u (NormalizeCap RoleReadCap) (unionKeys (heldRoleIDs d now u) (requestableRoleIDs d now u))
      (map (\<lambda>r. (r_id r, r_folder r)) (roles d))) \<subseteq> set (fst (folderAnchors d now u))"
    "set (anchor_homes d now u (NormalizeCap GroupReadCap) (memberGroupIDs d u)
      (map (\<lambda>g. (g_id g, g_folder g)) (groups d))) \<subseteq> set (fst (folderAnchors d now u))"
    unfolding anchors_of_homes AnchorHomeFolders_def cols set_remdups set_append by blast+
qed

lemma asset_home_revealed:
  assumes "folders_wf d" and "stored_caps_ok d" and "scopes_named d" and "a_folder row \<in> f_id ` set (folders d)"
    and "row \<in> set (assets d)"
    and "a_id row \<in> set (accessibleAssetSet d now u) \<or> authz_mgmt_global_read d u (NormalizeCap AssetReadCap) \<or>
      a_folder row \<in> set (authz_mgmt_visible_folders d now u (NormalizeCap AssetReadCap)) \<or> connect_visible d now u row"
  shows "FolderPathVisible d now u (a_folder row)"
proof -
  have cols: "NormalizeCap AssetReadCap = (''catalog'', ''asset'', ''read'')" by code_simp
  from assms(4) obtain f where f: "f \<in> set (folders d)" "f_id f = a_folder row" by force
  let ?arm = "\<lambda>a. a_id a \<in> set (accessibleAssetSet d now u) \<or> anchor_global d u (''catalog'', ''asset'', ''read'') \<or>
    a_folder a \<in> set (anchor_caps_folders d now u (''catalog'', ''asset'', ''read'')) \<or> connect_visible d now u a"
  have "FolderPathVisible d now u (a_folder row) \<or> ?arm row"
    using assms(6) mgmt_reveals [OF assms(1-3) f(1), unfolded f(2)] unfolding cols by blast
  moreover have "a_folder row \<in> set (fst (folderAnchors d now u))" if "?arm row"
    unfolding anchors_of_homes AnchorHomeFolders_def using that assms(5) by simp
  ultimately show ?thesis using anchor_visible [OF f(1)] f(2) by auto
qed



end
