(* ===== verification/Names.thy ===== *)
theory Names
  imports Paging "HOL-Library.Char_ord" "HOL-Library.List_Lexorder"
begin

text \<open>
  Names: lower case and trimming of the Go \<open>strings\<close> package, for ASCII text, and the lists that are
  ordered by a name and paged by a keyset \<open>(name, id)\<close>. Strings are ordered bytewise; of the
  database's collation only that it is a linear order matters. The locale \<open>named_table\<close> is the
  contract of such a list; in it the pages a client walks through are the whole list.
\<close>

section \<open>Strings\<close>

definition lower_char :: "char \<Rightarrow> char" where
  "lower_char c = (if 65 \<le> (of_char c :: nat) \<and> (of_char c :: nat) \<le> 90 then char_of (of_char c + (32 :: nat)) else c)"

definition go_to_lower :: "string \<Rightarrow> string" where
  "go_to_lower s = map lower_char s"

definition go_space :: "char \<Rightarrow> bool" where
  "go_space c = (of_char c \<in> {9, 10, 11, 12, 13, 32 :: nat})"

definition go_trim_space :: "string \<Rightarrow> string" where
  "go_trim_space s = rev (dropWhile go_space (rev (dropWhile go_space s)))"

section \<open>Lists ordered by name\<close>

text \<open>\<open>(name, id) > ($1, $2)\<close>, \<open>ORDER BY name, id LIMIT\<close>.\<close>

definition name_page :: "('a \<Rightarrow> string \<times> uuid) \<Rightarrow> (string \<times> uuid) option \<Rightarrow> nat \<Rightarrow> 'a list \<Rightarrow> 'a list" where
  "name_page key after limit rows = take limit (sort_key key
     (filter (\<lambda>x. case after of None \<Rightarrow> True | Some k \<Rightarrow> k < key x) rows))"

text \<open>\<open>pgconv.Text\<close> makes an empty name NULL, which restarts the list.\<close>

definition name_after :: "PageKey option \<Rightarrow> (string \<times> uuid) option" where
  "name_after k = (case k of
     None \<Rightarrow> None
   | Some k \<Rightarrow> if pk_Name k = [] then None else Some (pk_Name k, pk_ID k))"

text \<open>The tail shared by the name-ordered lists: the page size, the token, the query, the next token.\<close>

definition name_list ::
  "('a \<Rightarrow> string \<times> uuid) \<Rightarrow> (PageKey option \<Rightarrow> (string \<times> uuid) option) \<Rightarrow>
     ((string \<times> uuid) option \<Rightarrow> nat \<Rightarrow> 'a list) \<Rightarrow> int \<Rightarrow> page_token \<Rightarrow> connect_code + ('a list \<times> page_token)" where
  "name_list key after query pageSize pageToken =
     (let limit = nat (ClampPageSize pageSize)
      in and_then (DecodePageToken pageToken) (\<lambda>k.
           let rows = query (after k) limit
           in Inr (rows, if length rows = limit then EncodeNameToken (fst (key (last rows))) (snd (key (last rows)))
                         else EmptyToken)))"

definition name_fetch ::
  "('a \<Rightarrow> string \<times> uuid) \<Rightarrow> (PageKey option \<Rightarrow> (string \<times> uuid) option) \<Rightarrow> 'a list \<Rightarrow> int \<Rightarrow> page_token \<Rightarrow>
     connect_code + ('a list \<times> page_token)" where
  "name_fetch key after rows = name_list key after (\<lambda>c n. name_page key c n rows)"

text \<open>A client that follows the tokens of such a list.\<close>

fun walk_names :: "nat \<Rightarrow> (page_token \<Rightarrow> connect_code + ('a list \<times> page_token)) \<Rightarrow> page_token \<Rightarrow> 'a list option" where
  "walk_names 0 fetch tok = None"
| "walk_names (Suc fuel) fetch tok = (case fetch tok of
     Inl e \<Rightarrow> None
   | Inr (rows, EmptyToken) \<Rightarrow> Some rows
   | Inr (rows, tok') \<Rightarrow> map_option (\<lambda>rest. rows @ rest) (walk_names fuel fetch tok'))"

lemma ClampPageSize_pos: "0 < nat (ClampPageSize n)"
  by (simp add: ClampPageSize_def)

lemma filter_greater_sorted:
  fixes key :: "'a \<Rightarrow> 'k :: linorder"
  assumes "sorted (map key (xs @ y # ys))" and "distinct (map key (xs @ y # ys))"
  shows "filter (\<lambda>x. key y < key x) (xs @ y # ys) = ys"
proof -
  have "\<not> key y < key x" if "x \<in> set xs" for x using assms(1) that by (auto simp: sorted_append not_less)
  moreover have "key y < key x" if "x \<in> set ys" for x
  proof -
    have "key y \<le> key x" using assms(1) that by (auto simp: sorted_append)
    moreover have "key x \<noteq> key y" using assms(2) that by (auto simp: image_iff)
    ultimately show ?thesis by simp
  qed
  ultimately show ?thesis by (simp add: filter_empty_conv)
qed

lemma sort_key_drop:
  fixes key :: "'a \<Rightarrow> 'k :: linorder"
  assumes "distinct (map key rows)" and "0 < limit" and "limit \<le> length rows"
  shows "sort_key key (filter (\<lambda>x. key (last (take limit (sort_key key rows))) < key x) rows) =
    drop limit (sort_key key rows)"
proof -
  let ?L = "sort_key key rows"
  let ?y = "?L ! (limit - 1)"
  have split: "?L = take (limit - 1) ?L @ ?y # drop limit ?L"
    using assms(2,3) by (metis Suc_diff_1 Suc_le_lessD id_take_nth_drop length_sort)
  have last: "last (take limit ?L) = ?y"
    using assms(2,3) by (cases limit) (simp_all add: take_Suc_conv_app_nth)
  have "distinct (map key ?L)" using assms(1) by (metis distinct_map distinct_sort set_sort)
  moreover have "sorted (map key ?L)" by simp
  ultimately have "filter (\<lambda>x. key ?y < key x) ?L = drop limit ?L"
    using filter_greater_sorted [of key "take (limit - 1) ?L" ?y "drop limit ?L"] split by metis
  then show ?thesis unfolding last filter_sort [symmetric] .
qed

definition named_rows :: "('a \<Rightarrow> string \<times> uuid) \<Rightarrow> ('a \<Rightarrow> uuid) \<Rightarrow> 'a list \<Rightarrow> bool" where
  "named_rows key ident rows = (distinct (map ident rows) \<and> list_all (\<lambda>x. ident x \<noteq> uuid_nil \<and> fst (key x) \<noteq> []) rows)"

text \<open>
  The contract: the id of a row is part of its key, and a token carries the key of a row with a name
  to the query.
\<close>

locale named_table =
  fixes key :: "'a \<Rightarrow> string \<times> uuid" and ident :: "'a \<Rightarrow> uuid"
    and after :: "PageKey option \<Rightarrow> (string \<times> uuid) option"
  assumes key_ident: "snd (key x) = ident x"
    and carried: "fst (key x) \<noteq> [] \<Longrightarrow>
      after (Some \<lparr>pk_Name = fst (key x), pk_Time = None, pk_ID = ident x\<rparr>) = Some (key x)"
    and first_page: "after None = None"
begin

lemma named_keys: "named_rows key ident rows \<Longrightarrow> distinct (map key rows)"
  unfolding named_rows_def using key_ident by (metis (mono_tags, lifting) distinct_map inj_onCI inj_onD)

lemma walk_rest:
  assumes "named_rows key ident rows"
    and "tok = EmptyToken \<and> rest = rows \<or>
      (\<exists>x \<in> set rows. tok = EncodeNameToken (fst (key x)) (snd (key x)) \<and> rest = filter (\<lambda>y. key x < key y) rows)"
    and "length rest < fuel"
  shows "walk_names fuel (name_fetch key after rows pageSize) tok = Some (sort_key key rest)"
  using assms(2,3)
proof (induction fuel arbitrary: tok rest)
  case (Suc fuel)
  let ?n = "nat (ClampPageSize pageSize)"
  obtain k c where dec: "DecodePageToken tok = Inr k" "after k = c"
    and c: "filter (\<lambda>x. case c of None \<Rightarrow> True | Some k \<Rightarrow> k < key x) rows = rest"
    using Suc.prems(1) first_page carried assms(1)
    by (auto simp: DecodePageToken_def EncodeNameToken_def named_rows_def list_all_iff key_ident)
  let ?page = "take ?n (sort_key key rest)"
  have dist: "distinct (map key rest)" unfolding c [symmetric] using named_keys [OF assms(1)] by (simp add: distinct_map_filter)
  have sub: "set rest \<subseteq> set rows" unfolding c [symmetric] by auto
  have fetch: "name_fetch key after rows pageSize tok = Inr (?page, if length ?page = ?n
      then EncodeNameToken (fst (key (last ?page))) (snd (key (last ?page))) else EmptyToken)"
    by (simp only: name_fetch_def name_list_def name_page_def dec and_then_Inr c Let_def)
  show ?case
  proof (cases "?n \<le> length rest")
    case False
    then show ?thesis by (simp add: fetch)
  next
    case True
    let ?x = "last ?page"
    have "length ?page = ?n" using True by simp
    then have "?page \<noteq> []" using ClampPageSize_pos [of pageSize] by fastforce
    then have x: "?x \<in> set rest" using set_take_subset [of ?n "sort_key key rest"] last_in_set [of ?page] by auto
    have "filter (\<lambda>y. key z < key y) rows = filter (\<lambda>y. key z < key y) rest" if "z \<in> set rest" for z
    proof -
      from that have "case c of None \<Rightarrow> True | Some k \<Rightarrow> k < key z" unfolding c [symmetric] by simp
      then have "key z < key y \<longleftrightarrow> key z < key y \<and> (case c of None \<Rightarrow> True | Some k \<Rightarrow> k < key y)" for y
        by (auto split: option.splits)
      then show ?thesis unfolding c [symmetric] filter_filter by (intro filter_cong refl) blast
    qed
    then have rest': "sort_key key (filter (\<lambda>y. key ?x < key y) rows) = drop ?n (sort_key key rest)"
      using sort_key_drop [OF dist ClampPageSize_pos True] x by simp
    have "length (filter (\<lambda>y. key ?x < key y) rows) = length rest - ?n"
      using arg_cong [OF rest', of length] by simp
    then have less: "length (filter (\<lambda>y. key ?x < key y) rows) < fuel"
      using Suc.prems(2) True ClampPageSize_pos [of pageSize] by simp
    have "walk_names fuel (name_fetch key after rows pageSize) (EncodeNameToken (fst (key ?x)) (snd (key ?x))) =
        Some (drop ?n (sort_key key rest))"
      unfolding rest' [symmetric] using x sub less by (intro Suc.IH) blast+
    then show ?thesis using True by (simp add: fetch EncodeNameToken_def)
  qed
qed simp

theorem walk_all:
  "named_rows key ident rows \<Longrightarrow> length rows < fuel \<Longrightarrow>
     walk_names fuel (name_fetch key after rows pageSize) EmptyToken = Some (sort_key key rows)"
  by (rule walk_rest) simp_all

end

end
