(* ===== verification/Sessions.thy ===== *)
theory Sessions
  imports Guard AccessRequest Names Sample
begin

text \<open>
  Live sessions of the data plane (\<open>warden/internal/dataplane\<close>): the authorization of a session at
  its set-up (\<open>setup.go\<close>), the teardown of sessions (\<open>terminator.go\<close>) and the sweeper that
  re-evaluates them when the configuration changes (\<open>sweeper.go\<close>). The state is the database, the
  audit outbox and the teardown notifications sent to the workers. The verifier of session tokens
  and the parser of client keys are libraries: their results are arguments. The ledger of live
  sessions knows the workers by name; which of them are connected is an argument.
\<close>

section \<open>State\<close>

record plane =
  pl_db :: db
  pl_outbox :: "event list"
  pl_notified :: "(uuid \<times> string) list"

definition EventSessionPrepared :: string where "EventSessionPrepared = ''session.prepared''"
definition EventSessionEnded :: string where "EventSessionEnded = ''session.ended''"
definition EventSessionTerminated :: string where "EventSessionTerminated = ''session.terminated''"

definition session_event :: "string \<Rightarrow> uuid \<Rightarrow> uuid \<Rightarrow> (string \<times> detail) list \<Rightarrow> event" where
  "session_event eventType actor sid details = \<lparr>ev_type = eventType, ev_actor = actor,
     ev_subject_kind = ''live_session'', ev_subject_id = sid, ev_details = details\<rparr>"

section \<open>Queries\<close>

definition GetLiveSession :: "db \<Rightarrow> uuid \<Rightarrow> live_session option" where
  "GetLiveSession d i = find (\<lambda>s. ls_id s = i) (live_sessions d)"

text \<open>The primary key is the session id of the token; the other reference is to an existing user and asset.\<close>

definition InsertLiveSession :: "db \<Rightarrow> live_session \<Rightarrow> db_error + db" where
  "InsertLiveSession d s =
     (if list_ex (\<lambda>s'. ls_id s' = ls_id s) (live_sessions d) then Inl UniqueViolation
      else if \<not> (list_ex (\<lambda>u. u_id u = ls_user s) (users d) \<and> list_ex (\<lambda>a. a_id a = ls_asset s) (assets d))
        then Inl OtherViolation
      else Inr (d\<lparr>live_sessions := live_sessions d @ [s]\<rparr>))"

definition DeleteLiveSession :: "db \<Rightarrow> uuid \<Rightarrow> nat \<times> db" where
  "DeleteLiveSession d i = (length (filter (\<lambda>s. ls_id s = i) (live_sessions d)),
     d\<lparr>live_sessions := filter (\<lambda>s. ls_id s \<noteq> i) (live_sessions d)\<rparr>)"

definition MarkLiveSessionTerminating :: "db \<Rightarrow> time \<Rightarrow> uuid \<Rightarrow> nat \<times> db" where
  "MarkLiveSessionTerminating d now i =
     (length (filter (\<lambda>s. ls_id s = i \<and> ls_terminate_requested_at s = None) (live_sessions d)),
      d\<lparr>live_sessions := map (\<lambda>s. if ls_id s = i \<and> ls_terminate_requested_at s = None
          then s\<lparr>ls_terminate_requested_at := Some now\<rparr> else s) (live_sessions d)\<rparr>)"

definition ListLiveSessionsByUserAsset :: "db \<Rightarrow> uuid \<Rightarrow> uuid \<Rightarrow> live_session list" where
  "ListLiveSessionsByUserAsset d user asset =
     filter (\<lambda>s. ls_user s = user \<and> ls_asset s = asset) (live_sessions d)"

definition ListLiveSessionsByUser :: "db \<Rightarrow> uuid \<Rightarrow> uuid list" where
  "ListLiveSessionsByUser d user = map ls_id (filter (\<lambda>s. ls_user s = user) (live_sessions d))"

definition ListLiveSessionsByAsset :: "db \<Rightarrow> uuid \<Rightarrow> live_session list" where
  "ListLiveSessionsByAsset d asset = filter (\<lambda>s. ls_asset s = asset) (live_sessions d)"

definition ListDistinctUserAssetsByWorkers :: "db \<Rightarrow> string list \<Rightarrow> (uuid \<times> uuid) list" where
  "ListDistinctUserAssetsByWorkers d workers = remdups (map (\<lambda>s. (ls_user s, ls_asset s))
     (filter (\<lambda>s. ls_worker s \<in> set workers) (live_sessions d)))"

definition ListDistinctAssetsByUserAndWorkers :: "db \<Rightarrow> uuid \<Rightarrow> string list \<Rightarrow> uuid list" where
  "ListDistinctAssetsByUserAndWorkers d user workers = remdups (map ls_asset
     (filter (\<lambda>s. ls_user s = user \<and> ls_worker s \<in> set workers) (live_sessions d)))"

definition ListStaleWorkerSessions :: "db \<Rightarrow> time \<Rightarrow> uuid list" where
  "ListStaleWorkerSessions d cutoff = concat (map (\<lambda>s. map (\<lambda>wp. ls_id s)
     (filter (\<lambda>wp. wp_worker wp = ls_worker s \<and> wp_last_seen_at wp < cutoff) (worker_presence d)))
     (live_sessions d))"

definition ListStuckTerminatingSessions :: "db \<Rightarrow> time \<Rightarrow> uuid list" where
  "ListStuckTerminatingSessions d cutoff = map ls_id (filter (\<lambda>s.
     case ls_terminate_requested_at s of None \<Rightarrow> False | Some t \<Rightarrow> t < cutoff) (live_sessions d))"

definition DeleteStaleWorkerPresence :: "db \<Rightarrow> time \<Rightarrow> db" where
  "DeleteStaleWorkerPresence d cutoff = d\<lparr>worker_presence := filter (\<lambda>wp.
     \<not> (wp_last_seen_at wp < cutoff \<and> \<not> list_ex (\<lambda>s. ls_worker s = wp_worker wp) (live_sessions d)))
     (worker_presence d)\<rparr>"

definition ActiveGrantIDsForUserAsset :: "db \<Rightarrow> time \<Rightarrow> uuid \<Rightarrow> uuid \<Rightarrow> uuid list" where
  "ActiveGrantIDsForUserAsset d now user asset = map ag_id (filter (\<lambda>g.
     ag_subject g = user \<and> ag_asset g = asset \<and> ag_revoked_at g = None \<and> ag_expires_at g > now)
     (access_grants d))"

definition GetSSHAssetConfig :: "db \<Rightarrow> uuid \<Rightarrow> asset_config option" where
  "GetSSHAssetConfig d asset = find (\<lambda>c. ac_asset c = asset) (ssh_asset_configs d)"

definition ListSSHAssetLogins :: "db \<Rightarrow> uuid \<Rightarrow> asset_login list" where
  "ListSSHAssetLogins d asset = sort_key al_login (filter (\<lambda>l. al_asset l = asset) (ssh_asset_logins d))"

definition GetPostgresAssetConfig :: "db \<Rightarrow> uuid \<Rightarrow> asset_config option" where
  "GetPostgresAssetConfig d asset = find (\<lambda>c. ac_asset c = asset) (postgres_asset_configs d)"

definition ListPostgresAssetLogins :: "db \<Rightarrow> uuid \<Rightarrow> asset_login list" where
  "ListPostgresAssetLogins d asset = sort_key al_login (filter (\<lambda>l. al_asset l = asset) (postgres_asset_logins d))"

definition GetRDPAssetConfig :: "db \<Rightarrow> uuid \<Rightarrow> asset_config option" where
  "GetRDPAssetConfig d asset = find (\<lambda>c. ac_asset c = asset) (rdp_asset_configs d)"

definition ListRDPAssetLogins :: "db \<Rightarrow> uuid \<Rightarrow> asset_login list" where
  "ListRDPAssetLogins d asset = sort_key al_login (filter (\<lambda>l. al_asset l = asset) (rdp_asset_logins d))"

section \<open>Session set-up\<close>

record Claims =
  cl_SessionID :: uuid
  cl_UserID :: uuid
  cl_AssetID :: uuid
  cl_Protocol :: string
  cl_Mode :: string
  cl_Login :: string
  cl_ClientKeyFingerprint :: string

datatype setup_error = ErrBadToken | ErrKeyMismatch | ErrNotAuthorized | ErrReplay | ErrNoTarget | ErrNoConfig | ErrWrite

text \<open>
  The recording key is a path built from the UTC date, which \<open>time\<close> reads off the instant by the
  calendar, and from the printed session id; the printing of uuids is a parameter.
\<close>

fun decimal :: "nat \<Rightarrow> string" where
  "decimal n = (if n < 10 then [char_of (48 + n)] else decimal (n div 10) @ [char_of (48 + n mod 10)])"

declare decimal.simps [simp del]

definition zero_padded :: "nat \<Rightarrow> nat \<Rightarrow> string" where
  "zero_padded width n = replicate (width - length (decimal n)) (CHR ''0'') @ decimal n"

definition utc_date :: "time \<Rightarrow> int \<times> int \<times> int" where
  "utc_date t =
     (let z = t div (86400 * 1000000000) + 719468; era = z div 146097; doe = z mod 146097;
          yoe = (doe - doe div 1460 + doe div 36524 - doe div 146096) div 365;
          doy = doe - (365 * yoe + yoe div 4 - yoe div 100);
          mp = (5 * doy + 2) div 153;
          month = (if mp < 10 then mp + 3 else mp - 9)
      in (yoe + era * 400 + (if month \<le> 2 then 1 else 0), month, doy - (153 * mp + 2) div 5 + 1))"

definition recordingObjectKey :: "(uuid \<Rightarrow> string) \<Rightarrow> uuid \<Rightarrow> time \<Rightarrow> string \<Rightarrow> string \<Rightarrow> string" where
  "recordingObjectKey uuid_string sessionID at protocol ext =
     (let (year, month, day) = utc_date at
      in ''recordings/'' @ protocol @ ''/'' @ zero_padded 4 (nat year) @ ''/'' @ zero_padded 2 (nat month) @ ''/'' @
         zero_padded 2 (nat day) @ ''/'' @ uuid_string sessionID @ ''.'' @ ext)"

lemma recordingObjectKey_example:
  "recordingObjectKey decimal 7 (1709210096 * 1000000000) ''ssh'' ''cast'' = ''recordings/ssh/2024/02/29/7.cast''"
  by code_simp

record sessionPrep =
  sp_claims :: Claims
  sp_login :: string
  sp_protocol :: string
  sp_targetAddress :: string
  sp_defaultDB :: string
  sp_recordingRequired :: bool
  sp_recordingKey :: string

definition capRecordExempt :: string where
  "capRecordExempt = ''ssh:record:exempt''"

definition find_config :: "asset_config option \<Rightarrow> setup_error + asset_config" where
  "find_config cfg = (case cfg of
     None \<Rightarrow> Inl ErrNoConfig
   | Some c \<Rightarrow> if ac_target_address c = [] then Inl ErrNoTarget else Inr c)"

definition resolveSession ::
  "(uuid \<Rightarrow> string) \<Rightarrow> db \<Rightarrow> time \<Rightarrow> Claims option \<Rightarrow> string \<Rightarrow> string option \<Rightarrow> setup_error + sessionPrep" where
  "resolveSession uuid_string d now verified login clientKeyFp = (case verified of
     None \<Rightarrow> Inl ErrBadToken
   | Some claims \<Rightarrow>
       and_then
         (if cl_Mode claims = ''web'' then Inr (cl_Login claims)
          else (case clientKeyFp of
             None \<Rightarrow> Inl ErrBadToken
           | Some fp \<Rightarrow> if fp \<noteq> cl_ClientKeyFingerprint claims then Inl ErrKeyMismatch else Inr login))
         (\<lambda>login.
            let caps = ConnectCapabilities d now (cl_UserID claims) (cl_AssetID claims);
                asset = cl_AssetID claims;
                prep = \<lparr>sp_claims = claims, sp_login = login, sp_protocol = cl_Protocol claims,
                  sp_targetAddress = [], sp_defaultDB = [], sp_recordingRequired = True,
                  sp_recordingKey = []\<rparr>;
                key = recordingObjectKey uuid_string (cl_SessionID claims) now
            in if cl_Protocol claims = ''postgres'' then
                 and_then (find_config (GetPostgresAssetConfig d asset)) (\<lambda>cfg.
                   if login \<notin> set (EntitledLoginsFor caps DBLoginPrefix (map al_login (ListPostgresAssetLogins d asset)))
                   then Inl ErrNotAuthorized
                   else Inr (prep\<lparr>sp_targetAddress := ac_target_address cfg, sp_defaultDB := ac_default_database cfg,
                     sp_recordingKey := key ''postgres'' ''ndjson''\<rparr>))
               else if cl_Protocol claims = ''rdp'' then
                 and_then (find_config (GetRDPAssetConfig d asset)) (\<lambda>cfg.
                   if login \<notin> set (EntitledLoginsFor caps RDPLoginPrefix (map al_login (ListRDPAssetLogins d asset)))
                   then Inl ErrNotAuthorized
                   else Inr (prep\<lparr>sp_targetAddress := ac_target_address cfg, sp_recordingKey := key ''rdp'' ''rdpg''\<rparr>))
               else
                 and_then (find_config (GetSSHAssetConfig d asset)) (\<lambda>cfg.
                   if login \<notin> set (EntitledLoginsFor caps SSHLoginPrefix (map al_login (ListSSHAssetLogins d asset)))
                   then Inl ErrNotAuthorized
                   else Inr (prep\<lparr>sp_protocol := ''ssh'', sp_targetAddress := ac_target_address cfg,
                     sp_recordingRequired := \<not> Allows caps capRecordExempt,
                     sp_recordingKey := key ''ssh'' ''cast''\<rparr>))))"

definition recordLiveSession ::
  "time \<Rightarrow> plane \<Rightarrow> sessionPrep \<Rightarrow> string \<Rightarrow> string \<Rightarrow> setup_error + (uuid option \<times> plane)" where
  "recordLiveSession now p prep workerID eventType =
     (let claims = sp_claims prep;
          ids = ActiveGrantIDsForUserAsset (pl_db p) now (cl_UserID claims) (cl_AssetID claims);
          grantID = (case ids of [i] \<Rightarrow> Some i | _ \<Rightarrow> None);
          s = \<lparr>ls_id = cl_SessionID claims, ls_user = cl_UserID claims, ls_asset = cl_AssetID claims,
               ls_worker = workerID, ls_grant = grantID, ls_protocol = sp_protocol prep,
               ls_principals = [sp_login prep], ls_client_key_fp = cl_ClientKeyFingerprint claims,
               ls_started_at = now, ls_terminate_requested_at = None\<rparr>
      in case InsertLiveSession (pl_db p) s of
           Inl UniqueViolation \<Rightarrow> Inl ErrReplay
         | Inl OtherViolation \<Rightarrow> Inl ErrWrite
         | Inr d' \<Rightarrow> Inr (grantID, p\<lparr>pl_db := d', pl_outbox := pl_outbox p @
             [session_event eventType (cl_UserID claims) (cl_SessionID claims)
               [(''session_id'', DId (cl_SessionID claims)), (''user_id'', DId (cl_UserID claims)),
                (''asset_id'', DId (cl_AssetID claims)), (''worker_id'', DText workerID),
                (''login'', DText (sp_login prep))]]\<rparr>))"

section \<open>Teardown\<close>

definition NotifyTeardown :: "plane \<Rightarrow> uuid \<Rightarrow> string \<Rightarrow> plane" where
  "NotifyTeardown p sessionID reason = p\<lparr>pl_notified := pl_notified p @ [(sessionID, reason)]\<rparr>"

definition requestTeardown :: "time \<Rightarrow> plane \<Rightarrow> uuid \<Rightarrow> string \<Rightarrow> plane" where
  "requestTeardown now p sessionID reason =
     (let (n, d') = MarkLiveSessionTerminating (pl_db p) now sessionID;
          p' = (if n > 0 then p\<lparr>pl_db := d', pl_outbox := pl_outbox p @
                  [session_event EventSessionTerminated uuid_nil sessionID
                    [(''session_id'', DId sessionID), (''reason'', DText reason)]]\<rparr>
                else p)
      in NotifyTeardown p' sessionID reason)"

definition reevaluate_entitled :: "db \<Rightarrow> time \<Rightarrow> uuid \<Rightarrow> asset_row \<Rightarrow> string list" where
  "reevaluate_entitled d now user a =
     (if a_kind a = ''postgres'' then
        EntitledLoginsFor_asset d now user (a_id a) DBLoginPrefix (map al_login (ListPostgresAssetLogins d (a_id a)))
      else if a_kind a = ''rdp'' then
        EntitledLoginsFor_asset d now user (a_id a) RDPLoginPrefix (map al_login (ListRDPAssetLogins d (a_id a)))
      else EntitledLogins d now user (a_id a) (map al_login (ListSSHAssetLogins d (a_id a))))"

text \<open>An asset that is gone is an error; its sessions went with it.\<close>

definition Reevaluate :: "time \<Rightarrow> plane \<Rightarrow> uuid \<Rightarrow> uuid \<Rightarrow> unit + plane" where
  "Reevaluate now p user asset =
     (let sessions = ListLiveSessionsByUserAsset (pl_db p) user asset
      in if sessions = [] then Inr p
         else case find (\<lambda>a. a_id a = asset) (assets (pl_db p)) of
           None \<Rightarrow> Inl ()
         | Some a \<Rightarrow>
             if reevaluate_entitled (pl_db p) now user a \<noteq> [] then Inr p
             else Inr (fold (\<lambda>s p. requestTeardown now p (ls_id s) ''authorization revoked'') sessions p))"

definition TerminateGrant :: "time \<Rightarrow> plane \<Rightarrow> uuid \<Rightarrow> unit + plane" where
  "TerminateGrant now p grantID = (case GetGrant (pl_db p) grantID of
     None \<Rightarrow> Inr p
   | Some g \<Rightarrow> Reevaluate now p (ag_subject g) (ag_asset g))"

text \<open>
  The access-request service calls the terminator for each grant that ends, after its transaction;
  an error is logged and the next grant is taken.
\<close>

definition terminate_grants :: "time \<Rightarrow> uuid list \<Rightarrow> plane \<Rightarrow> plane" where
  "terminate_grants now = fold (\<lambda>i p. case TerminateGrant now p i of Inl _ \<Rightarrow> p | Inr p' \<Rightarrow> p')"

definition MarkEnded :: "plane \<Rightarrow> uuid \<Rightarrow> string \<Rightarrow> plane" where
  "MarkEnded p sessionID reason =
     (let (n, d') = DeleteLiveSession (pl_db p) sessionID
      in if n = 0 then p
         else p\<lparr>pl_db := d', pl_outbox := pl_outbox p @
           [session_event EventSessionEnded uuid_nil sessionID
             [(''session_id'', DId sessionID), (''reason'', DText reason)]]\<rparr>)"

definition TerminateUser :: "time \<Rightarrow> plane \<Rightarrow> uuid \<Rightarrow> string \<Rightarrow> nat \<times> plane" where
  "TerminateUser now p user reason =
     (let ids = ListLiveSessionsByUser (pl_db p) user
      in (length ids, fold (\<lambda>i p. requestTeardown now p i reason) ids p))"

definition TerminateAssetSessions :: "time \<Rightarrow> plane \<Rightarrow> uuid \<Rightarrow> plane" where
  "TerminateAssetSessions now p asset =
     fold (\<lambda>s p. requestTeardown now p (ls_id s) ''asset_deleted'') (ListLiveSessionsByAsset (pl_db p) asset) p"

section \<open>The sweeper\<close>

text \<open>A pair whose re-evaluation fails is logged and skipped.\<close>

definition sweep_pair :: "time \<Rightarrow> uuid \<times> uuid \<Rightarrow> plane \<Rightarrow> plane" where
  "sweep_pair now = (\<lambda>(user, asset) p. case Reevaluate now p user asset of Inl _ \<Rightarrow> p | Inr p' \<Rightarrow> p')"

definition SweepOwned :: "time \<Rightarrow> string list \<Rightarrow> plane \<Rightarrow> plane" where
  "SweepOwned now workers p = (if workers = [] then p
     else fold (sweep_pair now) (ListDistinctUserAssetsByWorkers (pl_db p) workers) p)"

definition SweepOwnedForUser :: "time \<Rightarrow> string list \<Rightarrow> uuid \<Rightarrow> plane \<Rightarrow> plane" where
  "SweepOwnedForUser now workers user p = (if workers = [] then p
     else fold (\<lambda>asset. sweep_pair now (user, asset)) (ListDistinctAssetsByUserAndWorkers (pl_db p) user workers) p)"

definition SweepGC :: "time \<Rightarrow> duration \<Rightarrow> duration \<Rightarrow> plane \<Rightarrow> plane" where
  "SweepGC now orphanGrace teardownGrace p =
     (let orphanCutoff = now - orphanGrace;
          p1 = fold (\<lambda>i p. MarkEnded p i ''worker unreachable'') (ListStaleWorkerSessions (pl_db p) orphanCutoff) p;
          stuckCutoff = now - teardownGrace;
          p2 = fold (\<lambda>i p. MarkEnded (NotifyTeardown p i ''teardown unconfirmed (final)'') i ''teardown unconfirmed'')
                 (ListStuckTerminatingSessions (pl_db p1) stuckCutoff) p1
      in p2\<lparr>pl_db := DeleteStaleWorkerPresence (pl_db p2) orphanCutoff\<rparr>)"

text \<open>
  The batch of one debounce window: a full sweep, or the users to sweep. The set of users is a Go
  map; its order does not matter.
\<close>

definition accumulate ::
  "(string \<Rightarrow> uuid option) \<Rightarrow> string \<Rightarrow> bool \<times> uuid list \<Rightarrow> bool \<times> uuid list" where
  "accumulate parse payload = (\<lambda>(full, users).
     if full then (True, [])
     else if payload = [] then (True, [])
     else case parse payload of
       None \<Rightarrow> (True, [])
     | Some i \<Rightarrow> (False, if i \<in> set users then users else users @ [i]))"

definition runBatch :: "time \<Rightarrow> string list \<Rightarrow> bool \<times> uuid list \<Rightarrow> plane \<Rightarrow> plane" where
  "runBatch now workers = (\<lambda>(full, users) p.
     if full \<or> users = [] then SweepOwned now workers p
     else fold (SweepOwnedForUser now workers) users p)"

definition authz_batch :: "(string \<Rightarrow> uuid option) \<Rightarrow> time \<Rightarrow> string list \<Rightarrow> string list \<Rightarrow> plane \<Rightarrow> plane" where
  "authz_batch parse now workers payloads = runBatch now workers (fold (accumulate parse) payloads (False, []))"

section \<open>Teardown of a set of sessions\<close>

definition mark_terminating :: "time \<Rightarrow> uuid set \<Rightarrow> live_session \<Rightarrow> live_session" where
  "mark_terminating now S s = (if ls_id s \<in> S \<and> ls_terminate_requested_at s = None
     then s\<lparr>ls_terminate_requested_at := Some now\<rparr> else s)"

definition termination_event :: "string \<Rightarrow> uuid \<Rightarrow> event" where
  "termination_event reason i = session_event EventSessionTerminated uuid_nil i
     [(''session_id'', DId i), (''reason'', DText reason)]"

text \<open>
  Exactly the sessions of a set have been told to end: their rows are marked, the workers are
  notified, and each session that was not ending yet is audited once.
\<close>

definition torn_down :: "time \<Rightarrow> string \<Rightarrow> uuid set \<Rightarrow> plane \<Rightarrow> plane \<Rightarrow> bool" where
  "torn_down now reason S p p' \<longleftrightarrow>
     pl_db p' = (pl_db p)\<lparr>live_sessions := map (mark_terminating now S) (live_sessions (pl_db p))\<rparr> \<and>
     (\<exists>ns. pl_notified p' = pl_notified p @ ns \<and> set ns = (\<lambda>i. (i, reason)) ` S) \<and>
     (\<exists>ids. pl_outbox p' = pl_outbox p @ map (termination_event reason) ids \<and> distinct ids \<and>
        set ids = {ls_id s |s. s \<in> set (live_sessions (pl_db p)) \<and> ls_id s \<in> S \<and> ls_terminate_requested_at s = None})"

lemma mark_terminating_simps [simp]:
  "ls_id (mark_terminating now S s) = ls_id s" "ls_user (mark_terminating now S s) = ls_user s"
  "ls_asset (mark_terminating now S s) = ls_asset s" "ls_worker (mark_terminating now S s) = ls_worker s"
  by (simp_all add: mark_terminating_def)

lemma torn_down_empty: "torn_down now reason {} p p"
proof -
  have "map (mark_terminating now {}) xs = xs" for xs by (simp add: mark_terminating_def map_idI)
  then show ?thesis by (simp add: torn_down_def)
qed

lemma torn_down_ids: "torn_down now reason S p p' \<Longrightarrow> map ls_id (live_sessions (pl_db p')) = map ls_id (live_sessions (pl_db p))"
  by (simp add: torn_down_def)

lemma torn_down_trans:
  assumes "torn_down now reason S p p'" and "torn_down now reason T p' p''"
  shows "torn_down now reason (S \<union> T) p p''"
proof -
  from assms(1) obtain ns ids where 1: "pl_db p' = (pl_db p)\<lparr>live_sessions := map (mark_terminating now S) (live_sessions (pl_db p))\<rparr>"
    "pl_notified p' = pl_notified p @ ns" "set ns = (\<lambda>i. (i, reason)) ` S"
    "pl_outbox p' = pl_outbox p @ map (termination_event reason) ids" "distinct ids"
    "set ids = {ls_id s |s. s \<in> set (live_sessions (pl_db p)) \<and> ls_id s \<in> S \<and> ls_terminate_requested_at s = None}"
    unfolding torn_down_def by blast
  from assms(2) obtain ns' ids' where 2: "pl_db p'' = (pl_db p')\<lparr>live_sessions := map (mark_terminating now T) (live_sessions (pl_db p'))\<rparr>"
    "pl_notified p'' = pl_notified p' @ ns'" "set ns' = (\<lambda>i. (i, reason)) ` T"
    "pl_outbox p'' = pl_outbox p' @ map (termination_event reason) ids'" "distinct ids'"
    "set ids' = {ls_id s |s. s \<in> set (live_sessions (pl_db p')) \<and> ls_id s \<in> T \<and> ls_terminate_requested_at s = None}"
    unfolding torn_down_def by blast
  have mark: "mark_terminating now T (mark_terminating now S s) = mark_terminating now (S \<union> T) s" for s
    by (auto simp: mark_terminating_def)
  have still: "ls_terminate_requested_at (mark_terminating now S s) = None \<longleftrightarrow>
      ls_terminate_requested_at s = None \<and> ls_id s \<notin> S" for s by (auto simp: mark_terminating_def)
  have ids': "set ids' = {ls_id s |s. s \<in> set (live_sessions (pl_db p)) \<and> ls_id s \<in> T - S \<and> ls_terminate_requested_at s = None}"
  proof -
    have "{ls_id s |s. s \<in> mark_terminating now S ` A \<and> ls_id s \<in> T \<and> ls_terminate_requested_at s = None} =
        {ls_id (mark_terminating now S s) |s. s \<in> A \<and> ls_id (mark_terminating now S s) \<in> T \<and>
          ls_terminate_requested_at (mark_terminating now S s) = None}" for A by blast
    then show ?thesis unfolding 2(6) 1(1) by (simp add: still) blast
  qed
  have "pl_db p'' = (pl_db p)\<lparr>live_sessions := map (mark_terminating now (S \<union> T)) (live_sessions (pl_db p))\<rparr>"
    by (simp add: 2(1) 1(1) mark)
  moreover have "pl_notified p'' = pl_notified p @ (ns @ ns')" "set (ns @ ns') = (\<lambda>i. (i, reason)) ` (S \<union> T)"
    by (auto simp: 1(2,3) 2(2,3))
  moreover have "pl_outbox p'' = pl_outbox p @ map (termination_event reason) (ids @ ids')" by (simp add: 1(4) 2(4))
  moreover have "distinct (ids @ ids')" using 1(5,6) 2(5) ids' by auto
  moreover have "set (ids @ ids') = {ls_id s |s. s \<in> set (live_sessions (pl_db p)) \<and> ls_id s \<in> S \<union> T \<and>
      ls_terminate_requested_at s = None}"
    unfolding set_append ids' 1(6) by blast
  ultimately show ?thesis unfolding torn_down_def by blast
qed

lemma requestTeardown_torn:
  "torn_down now reason {i} p (requestTeardown now p i reason)"
proof -
  let ?P = "\<lambda>s. ls_id s = i \<and> ls_terminate_requested_at s = None"
  let ?ls = "live_sessions (pl_db p)"
  have mark: "map (\<lambda>s. if ls_id s = i \<and> ls_terminate_requested_at s = None
      then s\<lparr>ls_terminate_requested_at := Some now\<rparr> else s) ?ls = map (mark_terminating now {i}) ?ls"
    by (simp add: mark_terminating_def)
  show ?thesis
  proof (cases "filter ?P ?ls = []")
    case True
    then have none: "\<forall>s \<in> set ?ls. \<not> ?P s" by (simp add: filter_empty_conv)
    then have "map (mark_terminating now {i}) ?ls = ?ls" by (intro map_idI) (auto simp: mark_terminating_def)
    moreover have "{ls_id s |s. s \<in> set ?ls \<and> ls_id s \<in> {i} \<and> ls_terminate_requested_at s = None} = {}" using none by auto
    ultimately show ?thesis
      using True by (simp add: torn_down_def requestTeardown_def MarkLiveSessionTerminating_def NotifyTeardown_def Let_def)
  next
    case False
    then have "{ls_id s |s. s \<in> set ?ls \<and> ls_id s \<in> {i} \<and> ls_terminate_requested_at s = None} = {i}"
      by (auto simp: filter_empty_conv)
    then show ?thesis
      using False mark unfolding torn_down_def requestTeardown_def MarkLiveSessionTerminating_def NotifyTeardown_def Let_def
      by (auto simp: termination_event_def intro: exI [of _ "[(i, reason)]"] exI [of _ "[i]"])
  qed
qed

lemma teardown_all: "torn_down now reason (set ids) p (fold (\<lambda>i p. requestTeardown now p i reason) ids p)"
proof (induction ids arbitrary: p)
  case Nil
  show ?case by (simp add: torn_down_empty)
next
  case (Cons i ids)
  from torn_down_trans [OF requestTeardown_torn Cons.IH] show ?case by simp
qed

text \<open>The user may not use any login of the asset any more.\<close>

definition lost :: "db \<Rightarrow> time \<Rightarrow> uuid \<Rightarrow> uuid \<Rightarrow> bool" where
  "lost d now user asset = (case find (\<lambda>a. a_id a = asset) (assets d) of
     None \<Rightarrow> False | Some a \<Rightarrow> reevaluate_entitled d now user a = [])"

definition pair_sessions :: "db \<Rightarrow> uuid \<Rightarrow> uuid \<Rightarrow> uuid set" where
  "pair_sessions d user asset = ls_id ` set (ListLiveSessionsByUserAsset d user asset)"

text \<open>
  The sessions of the users concerned that lost their logins, where the user has a session on the
  asset at one of the workers.
\<close>

definition lost_sessions :: "db \<Rightarrow> time \<Rightarrow> string list \<Rightarrow> (uuid \<Rightarrow> bool) \<Rightarrow> uuid set" where
  "lost_sessions d now workers concerned = {ls_id s |s. s \<in> set (live_sessions d) \<and> concerned (ls_user s) \<and>
     lost d now (ls_user s) (ls_asset s) \<and>
     (\<exists>s' \<in> set (live_sessions d). ls_user s' = ls_user s \<and> ls_asset s' = ls_asset s \<and> ls_worker s' \<in> set workers)}"

lemma torn_down_keeps:
  assumes "torn_down now reason S p p'"
  shows "lost (pl_db p') = lost (pl_db p)" and "pair_sessions (pl_db p') = pair_sessions (pl_db p)"
    and "lost_sessions (pl_db p') = lost_sessions (pl_db p)"
proof -
  from assms have db: "pl_db p' = (pl_db p)\<lparr>live_sessions := map (mark_terminating now S) (live_sessions (pl_db p))\<rparr>"
    by (simp add: torn_down_def)
  have "same_authz (pl_db p') (pl_db p)" by (simp add: db same_authz_def)
  note ent = same_authz_capabilities [OF this]
  have re: "reevaluate_entitled (pl_db p') = reevaluate_entitled (pl_db p)"
    by (intro ext) (simp add: reevaluate_entitled_def ent, simp add: ListPostgresAssetLogins_def ListRDPAssetLogins_def
        ListSSHAssetLogins_def db)
  have "assets (pl_db p') = assets (pl_db p)" by (simp add: db)
  then show lost: "lost (pl_db p') = lost (pl_db p)" by (intro ext) (simp only: lost_def re)
  show "pair_sessions (pl_db p') = pair_sessions (pl_db p)"
    by (intro ext) (simp add: pair_sessions_def ListLiveSessionsByUserAsset_def db filter_map comp_def image_image)
  have rows: "set (live_sessions (pl_db p')) = mark_terminating now S ` set (live_sessions (pl_db p))" by (simp add: db)
  have "lost_sessions (pl_db p') n W C = lost_sessions (pl_db p) n W C" for n W C
  proof -
    have "lost_sessions (pl_db p') n W C = {ls_id (mark_terminating now S s) |s. s \<in> set (live_sessions (pl_db p)) \<and>
        C (ls_user (mark_terminating now S s)) \<and>
        lost (pl_db p) n (ls_user (mark_terminating now S s)) (ls_asset (mark_terminating now S s)) \<and>
        (\<exists>s' \<in> set (live_sessions (pl_db p)). ls_user (mark_terminating now S s') = ls_user (mark_terminating now S s) \<and>
           ls_asset (mark_terminating now S s') = ls_asset (mark_terminating now S s) \<and>
           ls_worker (mark_terminating now S s') \<in> set W)}"
      unfolding lost_sessions_def lost rows by blast
    then show ?thesis by (simp add: lost_sessions_def)
  qed
  then show "lost_sessions (pl_db p') = lost_sessions (pl_db p)" by (intro ext)
qed

lemma sweep_pair_torn:
  "torn_down now ''authorization revoked''
     (if lost (pl_db p) now user asset then pair_sessions (pl_db p) user asset else {}) p (sweep_pair now (user, asset) p)"
proof -
  let ?ss = "ListLiveSessionsByUserAsset (pl_db p) user asset"
  have "fold (\<lambda>s p. requestTeardown now p (ls_id s) ''authorization revoked'') ?ss p =
      fold (\<lambda>i p. requestTeardown now p i ''authorization revoked'') (map ls_id ?ss) p" by (simp add: fold_map comp_def)
  then have "torn_down now ''authorization revoked'' (pair_sessions (pl_db p) user asset) p
      (fold (\<lambda>s p. requestTeardown now p (ls_id s) ''authorization revoked'') ?ss p)"
    using teardown_all [of now "''authorization revoked''" "map ls_id ?ss" p] by (simp add: pair_sessions_def)
  then show ?thesis
    using torn_down_empty [of now "''authorization revoked''" p]
    by (auto simp: sweep_pair_def Reevaluate_def lost_def Let_def pair_sessions_def split: option.splits)
qed

lemma sweep_pairs_torn:
  "torn_down now ''authorization revoked''
     (\<Union>(user, asset) \<in> set pairs. if lost (pl_db p) now user asset then pair_sessions (pl_db p) user asset else {})
     p (fold (sweep_pair now) pairs p)"
proof (induction pairs arbitrary: p)
  case Nil
  show ?case by (simp add: torn_down_empty)
next
  case (Cons pr pairs)
  obtain user asset where pr: "pr = (user, asset)" by (cases pr)
  note one = sweep_pair_torn [of now p user asset]
  from torn_down_trans [OF one Cons.IH, unfolded torn_down_keeps [OF one]] show ?case by (simp add: pr)
qed

lemma GetGrant_torn: "torn_down now reason S p p' \<Longrightarrow> GetGrant (pl_db p') = GetGrant (pl_db p)"
  by (simp add: torn_down_def GetGrant_def fun_eq_iff)

lemma terminate_grants_torn:
  "\<exists>S. torn_down now ''authorization revoked'' S p (terminate_grants now ids p) \<and>
     S \<subseteq> (\<Union>i \<in> set ids. case GetGrant (pl_db p) i of None \<Rightarrow> {} | Some g \<Rightarrow> pair_sessions (pl_db p) (ag_subject g) (ag_asset g))"
proof (induction ids arbitrary: p)
  case Nil
  show ?case using torn_down_empty by (auto simp: terminate_grants_def)
next
  case (Cons i ids)
  let ?p1 = "case TerminateGrant now p i of Inl _ \<Rightarrow> p | Inr p' \<Rightarrow> p'"
  let ?U = "case GetGrant (pl_db p) i of None \<Rightarrow> {} | Some g \<Rightarrow> pair_sessions (pl_db p) (ag_subject g) (ag_asset g)"
  have "\<exists>S. torn_down now ''authorization revoked'' S p ?p1 \<and> S \<subseteq> ?U"
  proof (cases "GetGrant (pl_db p) i")
    case None
    then show ?thesis using torn_down_empty by (auto simp: TerminateGrant_def)
  next
    case (Some g)
    then have "?p1 = sweep_pair now (ag_subject g, ag_asset g) p" by (simp add: TerminateGrant_def sweep_pair_def)
    with sweep_pair_torn [of now p "ag_subject g" "ag_asset g"] Some show ?thesis by (intro exI conjI) (assumption | simp)+
  qed
  then obtain S where S: "torn_down now ''authorization revoked'' S p ?p1" "S \<subseteq> ?U" by blast
  obtain T where T: "torn_down now ''authorization revoked'' T ?p1 (terminate_grants now ids ?p1)"
    "T \<subseteq> (\<Union>i \<in> set ids. case GetGrant (pl_db p) i of None \<Rightarrow> {} | Some g \<Rightarrow> pair_sessions (pl_db p) (ag_subject g) (ag_asset g))"
    using Cons.IH [of ?p1] unfolding GetGrant_torn [OF S(1)] torn_down_keeps(2) [OF S(1)] by blast
  show ?case
    using torn_down_trans [OF S(1) T(1)] S(2) T(2) by (intro exI [of _ "S \<union> T"]) (auto simp: terminate_grants_def)
qed

lemma SweepOwned_torn:
  "torn_down now ''authorization revoked'' (lost_sessions (pl_db p) now workers (\<lambda>_. True)) p (SweepOwned now workers p)"
proof (cases "workers = []")
  case True
  then show ?thesis using torn_down_empty by (simp add: SweepOwned_def lost_sessions_def)
next
  case False
  have "(\<Union>(user, asset) \<in> set (ListDistinctUserAssetsByWorkers (pl_db p) workers).
      if lost (pl_db p) now user asset then pair_sessions (pl_db p) user asset else {}) =
      lost_sessions (pl_db p) now workers (\<lambda>_. True)"
    by (auto simp: ListDistinctUserAssetsByWorkers_def pair_sessions_def ListLiveSessionsByUserAsset_def lost_sessions_def
        split: if_splits) metis
  with sweep_pairs_torn [of now p "ListDistinctUserAssetsByWorkers (pl_db p) workers"] False show ?thesis
    by (simp add: SweepOwned_def)
qed

lemma SweepOwnedForUser_torn:
  "torn_down now ''authorization revoked'' (lost_sessions (pl_db p) now workers (\<lambda>u. u = user)) p
     (SweepOwnedForUser now workers user p)"
proof (cases "workers = []")
  case True
  then show ?thesis using torn_down_empty by (simp add: SweepOwnedForUser_def lost_sessions_def)
next
  case False
  let ?pairs = "map (Pair user) (ListDistinctAssetsByUserAndWorkers (pl_db p) user workers)"
  have "(\<Union>(user, asset) \<in> set ?pairs.
      if lost (pl_db p) now user asset then pair_sessions (pl_db p) user asset else {}) =
      lost_sessions (pl_db p) now workers (\<lambda>u. u = user)"
    by (auto simp: ListDistinctAssetsByUserAndWorkers_def pair_sessions_def ListLiveSessionsByUserAsset_def lost_sessions_def
        split: if_splits) metis
  with sweep_pairs_torn [of now p ?pairs] False show ?thesis by (simp add: SweepOwnedForUser_def fold_map comp_def)
qed

lemma sweep_users_torn:
  "torn_down now ''authorization revoked'' (lost_sessions (pl_db p) now workers (\<lambda>u. u \<in> set us)) p
     (fold (SweepOwnedForUser now workers) us p)"
proof (induction us arbitrary: p)
  case Nil
  show ?case using torn_down_empty by (simp add: lost_sessions_def)
next
  case (Cons user us)
  note one = SweepOwnedForUser_torn [of now p workers user]
  have "lost_sessions d now workers (\<lambda>u. u \<in> set (user # us)) =
      lost_sessions d now workers (\<lambda>u. u = user) \<union> lost_sessions d now workers (\<lambda>u. u \<in> set us)" for d
    by (auto simp: lost_sessions_def)
  with torn_down_trans [OF one Cons.IH, unfolded torn_down_keeps [OF one]] show ?case by simp
qed

lemma accumulate_batch:
  "fold (accumulate parse) payloads (False, us) = (full, us') \<Longrightarrow>
     full = (\<exists>x \<in> set payloads. x = [] \<or> parse x = None) \<and>
     (\<not> full \<longrightarrow> set us' = set us \<union> {i. \<exists>x \<in> set payloads. parse x = Some i})"
proof (induction payloads arbitrary: us)
  case (Cons x payloads)
  have full: "fold (accumulate parse) xs (True, us) = (f, us') \<Longrightarrow> f" for xs us f us'
    by (induction xs arbitrary: us) (auto simp: accumulate_def)
  show ?case
  proof (cases "x = [] \<or> parse x = None")
    case True
    then have "accumulate parse x (False, us) = (True, [])" by (auto simp: accumulate_def)
    with Cons.prems full [of payloads "[]" full us'] True show ?thesis by auto
  next
    case False
    then obtain i where i: "parse x = Some i" "x \<noteq> []" by auto
    then have "accumulate parse x (False, us) = (False, if i \<in> set us then us else us @ [i])"
      by (simp add: accumulate_def)
    with Cons.prems Cons.IH [of "if i \<in> set us then us else us @ [i]"] i show ?thesis by (auto split: if_splits)
  qed
qed simp


section \<open>A session outlives its login\<close>

text \<open>
  The sample with a second login, which user 1 may use by a standing binding, and an active grant of
  the role for the first one.
\<close>

definition two_login_db :: db where
  "two_login_db = sample_db\<lparr>
     ssh_asset_logins := [\<lparr>al_asset = 20, al_login = ''root'', al_kind = ''ca'', al_secret = None\<rparr>,
       \<lparr>al_asset = 20, al_login = ''dev'', al_kind = ''ca'', al_secret = None\<rparr>],
     roles := roles sample_db @ [\<lparr>r_id = 34, r_name = ''developer'', r_folder = None\<rparr>],
     role_capabilities := role_capabilities sample_db @ [\<lparr>rc_role = 34, rc_cols = NormalizeCap ''ssh:login:dev''\<rparr>],
     role_bindings := role_bindings sample_db @ [\<lparr>rb_id = 43, rb_role = 34, rb_scope_folder = None,
       rb_scope_asset = Some 20, rb_subject_user = Some 1, rb_subject_group = None, rb_created_at = 0\<rparr>],
     access_grants := [sample_grant]\<rparr>"

definition root_claims :: Claims where
  "root_claims = \<lparr>cl_SessionID = 95, cl_UserID = 1, cl_AssetID = 20, cl_Protocol = ''ssh'', cl_Mode = [],
     cl_Login = [], cl_ClientKeyFingerprint = ''fp''\<rparr>"

definition root_session :: plane where
  "root_session = (case and_then (resolveSession decimal two_login_db 50 (Some root_claims) ''root'' (Some ''fp''))
     (\<lambda>prep. recordLiveSession 50 \<lparr>pl_db = two_login_db, pl_outbox = [], pl_notified = []\<rparr> prep ''w1'' EventSessionPrepared) of
       Inr (g, p) \<Rightarrow> p
     | Inl _ \<Rightarrow> \<lparr>pl_db = two_login_db, pl_outbox = [], pl_notified = []\<rparr>)"


end
