(* ===== verification/Identity.thy ===== *)
theory Identity
  imports Access Visibility Sessions WorkflowProperties
begin

text \<open>
  Users and groups (\<open>warden/internal/identity/service.go\<close>, \<open>groups.go\<close>, and the password policy of
  \<open>warden/internal/auth/policy.go\<close>): the life cycle of a user with the cascade of a deactivation,
  groups and the nesting of groups. The parser of uuid strings and the password hash belong to
  libraries and are parameters. An event a service hands to the audit log is part of its result.
\<close>

section \<open>Passwords and emails\<close>

definition minPasswordLen :: nat where
  "minPasswordLen = 12"

definition commonPasswords :: "string list" where
  "commonPasswords = [''password'', ''password1234'', ''administrator'', ''changeme'', ''letmein'',
     ''qwerty123456'', ''111111111111'', ''admin-password-1234'']"

text \<open>Every caller passes an empty current hash, so the reuse check is never reached.\<close>

definition ValidatePassword :: "string \<Rightarrow> bool" where
  "ValidatePassword pw = (length pw \<ge> minPasswordLen \<and> go_to_lower pw \<notin> set commonPasswords)"

definition NormalizeEmail :: "string \<Rightarrow> string" where
  "NormalizeEmail email = go_to_lower (go_trim_space email)"

section \<open>Queries on users\<close>

text \<open>The unique indexes on the email and on its lower case.\<close>

definition CreateUserFull :: "db \<Rightarrow> user_row \<Rightarrow> pg_write_error + db" where
  "CreateUserFull d u =
     (if list_ex (\<lambda>u'. u_id u' = u_id u \<or> u_email u' = u_email u \<or> go_to_lower (u_email u') = go_to_lower (u_email u)) (users d)
      then Inl WUnique
      else Inr (d\<lparr>users := users d @ [u]\<rparr>))"

definition SetUserPassword :: "db \<Rightarrow> uuid \<Rightarrow> string \<Rightarrow> db" where
  "SetUserPassword d i hash = d\<lparr>users := map (\<lambda>u. if u_id u = i then u\<lparr>u_password_hash := hash\<rparr> else u) (users d)\<rparr>"

definition GetUserByID :: "db \<Rightarrow> uuid \<Rightarrow> user_row option" where
  "GetUserByID d i = find (\<lambda>u. u_id u = i) (users d)"

definition GetUserByEmail :: "db \<Rightarrow> string \<Rightarrow> user_row option" where
  "GetUserByEmail d email = find (\<lambda>u. go_to_lower (u_email u) = go_to_lower email) (users d)"

definition user_key :: "user_row \<Rightarrow> string \<times> uuid" where
  "user_key u = (u_email u, u_id u)"

definition ListUsers_q :: "db \<Rightarrow> (string \<times> uuid) option \<Rightarrow> nat \<Rightarrow> user_row list" where
  "ListUsers_q d after limit = name_page user_key after limit (users d)"

definition DeactivateUser_q :: "db \<Rightarrow> time \<Rightarrow> uuid \<Rightarrow> db" where
  "DeactivateUser_q d now i = d\<lparr>users := map (\<lambda>u. if u_id u = i \<and> u_deactivated_at u = None
     then u\<lparr>u_deactivated_at := Some now\<rparr> else u) (users d)\<rparr>"

definition ReactivateUser_q :: "db \<Rightarrow> uuid \<Rightarrow> db" where
  "ReactivateUser_q d i = d\<lparr>users := map (\<lambda>u. if u_id u = i then u\<lparr>u_deactivated_at := None\<rparr> else u) (users d)\<rparr>"

text \<open>
  The foreign keys of a deleted user: memberships, bindings, policy subjects, requests with their
  votes and grants, votes, grants and live sessions go; the revoker of a grant becomes NULL.
\<close>

definition DeleteUser_q :: "db \<Rightarrow> uuid \<Rightarrow> db" where
  "DeleteUser_q d i =
     (let gone_requests = map ar_id (filter (\<lambda>r. ar_requester r = i) (access_requests d));
          gone_grants = map ag_id (filter (\<lambda>g. ag_subject g = i \<or> ag_request g \<in> set gone_requests) (access_grants d))
      in d\<lparr>users := filter (\<lambda>u. u_id u \<noteq> i) (users d),
           group_memberships := filter (\<lambda>m. gm_member_user m \<noteq> Some i) (group_memberships d),
           role_bindings := filter (\<lambda>b. rb_subject_user b \<noteq> Some i) (role_bindings d),
           policy_subjects := filter (\<lambda>s. ps_user s \<noteq> Some i) (policy_subjects d),
           access_requests := filter (\<lambda>r. ar_requester r \<noteq> i) (access_requests d),
           request_approvals := filter (\<lambda>a. ap_approver a \<noteq> i \<and> ap_request a \<notin> set gone_requests) (request_approvals d),
           access_grants := map (\<lambda>g. if ag_revoked_by g = Some i then g\<lparr>ag_revoked_by := None\<rparr> else g)
             (filter (\<lambda>g. ag_id g \<notin> set gone_grants) (access_grants d)),
           live_sessions := map (\<lambda>s. if list_ex (\<lambda>g. ls_grant s = Some g) gone_grants then s\<lparr>ls_grant := None\<rparr> else s)
             (filter (\<lambda>s. ls_user s \<noteq> i) (live_sessions d))\<rparr>)"

section \<open>Users\<close>

definition EventLocalPasswordSet :: string where
  "EventLocalPasswordSet = ''auth.local_password.set''"

definition EventGroupExternalKeySet :: string where
  "EventGroupExternalKeySet = ''identity.group.external_key_set''"

definition password_hash_of :: "(string \<Rightarrow> string option) \<Rightarrow> string \<Rightarrow> connect_code + string" where
  "password_hash_of HashPassword password =
     (if password = [] then Inr []
      else if \<not> ValidatePassword password then Inl CodeInvalidArgument
      else case HashPassword password of None \<Rightarrow> Inl CodeInternal | Some h \<Rightarrow> Inr h)"

definition CreateUser ::
  "(string \<Rightarrow> string option) \<Rightarrow> db \<Rightarrow> uuid \<Rightarrow> string \<Rightarrow> string \<Rightarrow> string \<Rightarrow> connect_code + (user_row \<times> db)" where
  "CreateUser HashPassword d new_id email displayName password =
     and_then (password_hash_of HashPassword password) (\<lambda>hash.
       let u = \<lparr>u_id = new_id, u_email = NormalizeEmail email, u_display_name = displayName,
                u_password_hash = [], u_deactivated_at = None\<rparr>
       in case CreateUserFull d u of
            Inl _ \<Rightarrow> Inl CodeAlreadyExists
          | Inr d1 \<Rightarrow> Inr (u, if hash \<noteq> [] then SetUserPassword d1 new_id hash else d1))"

definition SetLocalPassword ::
  "(string \<Rightarrow> string option) \<Rightarrow> db \<Rightarrow> uuid \<Rightarrow> uuid \<Rightarrow> string \<Rightarrow> connect_code + (event \<times> db)" where
  "SetLocalPassword HashPassword d actor userID newPassword =
     and_then (password_hash_of HashPassword newPassword) (\<lambda>hash.
       Inr (\<lparr>ev_type = EventLocalPasswordSet, ev_actor = actor, ev_subject_kind = ''user'', ev_subject_id = userID,
              ev_details = [(''action'', DText (if newPassword = [] then ''clear'' else ''set''))]\<rparr>,
            SetUserPassword d userID hash))"

definition GetUser :: "(string \<Rightarrow> uuid option) \<Rightarrow> db \<Rightarrow> string \<Rightarrow> connect_code + user_row" where
  "GetUser parse d idStr = (case parse idStr of
     None \<Rightarrow> Inl CodeNotFound
   | Some i \<Rightarrow> (case GetUserByID d i of None \<Rightarrow> Inl CodeNotFound | Some u \<Rightarrow> Inr u))"

definition GetUserDisplay :: "(string \<Rightarrow> uuid option) \<Rightarrow> db \<Rightarrow> string \<Rightarrow> connect_code + user_row" where
  "GetUserDisplay parse d idStr = (case parse idStr of
     None \<Rightarrow> Inl CodeNotFound
   | Some i \<Rightarrow> (case GetUserByID d i of None \<Rightarrow> Inl CodeNotFound | Some u \<Rightarrow> Inr u))"

definition ResolveUser :: "db \<Rightarrow> string \<Rightarrow> connect_code + user_row" where
  "ResolveUser d email = (case GetUserByEmail d email of None \<Rightarrow> Inl CodeNotFound | Some u \<Rightarrow> Inr u)"

text \<open>Unlike the other lists this one passes an empty name on as it is.\<close>

definition ListUsers :: "db \<Rightarrow> int \<Rightarrow> page_token \<Rightarrow> connect_code + (user_row list \<times> page_token)" where
  "ListUsers d = name_list user_key (map_option (\<lambda>k. (pk_Name k, pk_ID k))) (ListUsers_q d)"

text \<open>
  The deactivation and its cascade: the grants of the user are revoked, with the terminator run for
  each, and the live sessions told to end, where the service has a revoker and an evictor.
\<close>

record estate =
  es_world :: world
  es_notified :: "(uuid \<times> string) list"

definition DeactivateUser ::
  "Service option \<Rightarrow> bool \<Rightarrow> clocks \<Rightarrow> uuid \<Rightarrow> uuid \<Rightarrow> estate \<Rightarrow> estate" where
  "DeactivateUser revoker evictor ck actor uid st =
     (let w = (es_world st)\<lparr>w_db := DeactivateUser_q (w_db (es_world st)) (at_tx ck) uid\<rparr>;
          w1 = (case revoker of
                  None \<Rightarrow> w
                | Some s \<Rightarrow> snd (RevokeGrantsForUser s ck w actor uid ''user_deactivated''));
          p0 = \<lparr>pl_db = w_db w1, pl_outbox = w_outbox w1, pl_notified = es_notified st\<rparr>;
          p1 = terminate_grants (at_tx ck) (drop (length (w_terminated w)) (w_terminated w1)) p0;
          p2 = (if evictor then snd (TerminateUser (at_tx ck) p1 uid ''user_deactivated'') else p1)
      in \<lparr>es_world = w1\<lparr>w_db := pl_db p2, w_outbox := pl_outbox p2\<rparr>, es_notified = pl_notified p2\<rparr>)"

definition ReactivateUser :: "uuid \<Rightarrow> estate \<Rightarrow> estate" where
  "ReactivateUser uid st = st\<lparr>es_world := (es_world st)\<lparr>w_db := ReactivateUser_q (w_db (es_world st)) uid\<rparr>\<rparr>"

definition DeleteUser :: "uuid \<Rightarrow> estate \<Rightarrow> estate" where
  "DeleteUser uid st = st\<lparr>es_world := (es_world st)\<lparr>w_db := DeleteUser_q (w_db (es_world st)) uid\<rparr>\<rparr>"

section \<open>Queries on groups\<close>

text \<open>
  The unique indexes: the name within a folder or among the global groups, and the external key.
  Which index a write violates decides only the text of the error.
\<close>

definition CreateGroup_q :: "db \<Rightarrow> group_row \<Rightarrow> pg_write_error + db" where
  "CreateGroup_q d g =
     (if \<not> canon_name (g_name g) then Inl WCheck
      else if list_ex (\<lambda>g'. g_id g' = g_id g \<or> g_name g' = g_name g \<and> g_folder g' = g_folder g \<or>
          sql_eq (g_external_key g') (g_external_key g)) (groups d) then Inl WUnique
      else if \<not> folder_fk d (g_folder g) then Inl WForeignKey
      else Inr (d\<lparr>groups := groups d @ [g]\<rparr>))"

definition SetGroupExternalKey_q :: "db \<Rightarrow> uuid \<Rightarrow> string option \<Rightarrow> pg_write_error + db" where
  "SetGroupExternalKey_q d gid key =
     (if list_ex (\<lambda>g. g_id g = gid) (groups d) \<and>
         list_ex (\<lambda>g. g_id g \<noteq> gid \<and> sql_eq (g_external_key g) key) (groups d) then Inl WUnique
      else Inr (d\<lparr>groups := map (\<lambda>g. if g_id g = gid then g\<lparr>g_external_key := key\<rparr> else g) (groups d)\<rparr>))"

definition GetGroupByFolderAndName :: "db \<Rightarrow> uuid \<Rightarrow> string \<Rightarrow> group_row option" where
  "GetGroupByFolderAndName d fid name = find (\<lambda>g. g_folder g = Some fid \<and> g_name g = name) (groups d)"

definition GetGroupByNameGlobal :: "db \<Rightarrow> string \<Rightarrow> group_row option" where
  "GetGroupByNameGlobal d name = find (\<lambda>g. g_name g = name \<and> g_folder g = None) (groups d)"

text \<open>The checks \<open>no_self_member\<close> and \<open>one_member\<close>, the unique member of a group, the foreign keys.\<close>

definition insert_membership :: "db \<Rightarrow> group_membership \<Rightarrow> pg_write_error + db" where
  "insert_membership d gm =
     (if gm_member_group gm = Some (gm_group gm) \<or> \<not> one_subject (gm_member_user gm) (gm_member_group gm) then Inl WCheck
      else if list_ex (\<lambda>gm'. gm_id gm' = gm_id gm \<or> gm_group gm' = gm_group gm \<and>
          (sql_eq (gm_member_user gm') (gm_member_user gm) \<or> sql_eq (gm_member_group gm') (gm_member_group gm)))
        (group_memberships d) then Inl WUnique
      else if \<not> (group_fk d (Some (gm_group gm)) \<and> user_fk d (gm_member_user gm) \<and> group_fk d (gm_member_group gm))
        then Inl WForeignKey
      else Inr (d\<lparr>group_memberships := group_memberships d @ [gm]\<rparr>))"

definition AddUserToGroup_q :: "db \<Rightarrow> time \<Rightarrow> uuid \<Rightarrow> uuid \<Rightarrow> uuid \<Rightarrow> pg_write_error + db" where
  "AddUserToGroup_q d now new_id gid uid = insert_membership d \<lparr>gm_id = new_id, gm_group = gid,
     gm_member_user = Some uid, gm_member_group = None, gm_origin = ''manual'', gm_created_at = now\<rparr>"

definition AddGroupToGroup_q :: "db \<Rightarrow> time \<Rightarrow> uuid \<Rightarrow> uuid \<Rightarrow> uuid \<Rightarrow> pg_write_error + db" where
  "AddGroupToGroup_q d now new_id gid mid = insert_membership d \<lparr>gm_id = new_id, gm_group = gid,
     gm_member_user = None, gm_member_group = Some mid, gm_origin = ''manual'', gm_created_at = now\<rparr>"

text \<open>The supergroups of \<open>gid\<close>, with the same step as the closure of the memberships of a user.\<close>

definition supergroups :: "db \<Rightarrow> uuid \<Rightarrow> uuid list" where
  "supergroups d gid = cte_union (Suc (length (group_memberships d))) (user_groups_step d) (user_groups_step d gid)"

definition GroupNestingCyclic :: "db \<Rightarrow> uuid \<Rightarrow> uuid \<Rightarrow> bool" where
  "GroupNestingCyclic d gid mid = (mid \<in> set (supergroups d gid))"

definition RemoveUserFromGroup_q :: "db \<Rightarrow> uuid \<Rightarrow> uuid \<Rightarrow> db" where
  "RemoveUserFromGroup_q d gid uid = d\<lparr>group_memberships :=
     filter (\<lambda>gm. \<not> (gm_group gm = gid \<and> gm_member_user gm = Some uid)) (group_memberships d)\<rparr>"

definition RemoveGroupFromGroup_q :: "db \<Rightarrow> uuid \<Rightarrow> uuid \<Rightarrow> db" where
  "RemoveGroupFromGroup_q d gid mid = d\<lparr>group_memberships :=
     filter (\<lambda>gm. \<not> (gm_group gm = gid \<and> gm_member_group gm = Some mid)) (group_memberships d)\<rparr>"

definition membership_key :: "group_membership \<Rightarrow> time \<times> uuid" where
  "membership_key gm = (gm_created_at gm, gm_id gm)"

definition ListGroupMembersPaged :: "db \<Rightarrow> uuid \<Rightarrow> PageParams \<Rightarrow> group_membership list" where
  "ListGroupMembersPaged d gid pp = sql_page membership_key pp (filter (\<lambda>gm. gm_group gm = gid) (group_memberships d))"

text \<open>The foreign keys of a deleted group: memberships, bindings and policy subjects go with it.\<close>

definition DeleteGroup_q :: "db \<Rightarrow> uuid \<Rightarrow> db" where
  "DeleteGroup_q d gid = d\<lparr>groups := filter (\<lambda>g. g_id g \<noteq> gid) (groups d),
     group_memberships := filter (\<lambda>gm. gm_group gm \<noteq> gid \<and> gm_member_group gm \<noteq> Some gid) (group_memberships d),
     role_bindings := filter (\<lambda>b. rb_subject_group b \<noteq> Some gid) (role_bindings d),
     policy_subjects := filter (\<lambda>s. ps_group s \<noteq> Some gid) (policy_subjects d)\<rparr>"

section \<open>Groups\<close>

record GroupResult =
  gr_Group :: group_row
  gr_FolderPath :: string

definition groupResult :: "db \<Rightarrow> group_row \<Rightarrow> GroupResult" where
  "groupResult d g = \<lparr>gr_Group = g,
     gr_FolderPath = (case g_folder g of None \<Rightarrow> [] | Some f \<Rightarrow> folder_path d (Some f))\<rparr>"

definition CreateGroup ::
  "db \<Rightarrow> uuid \<Rightarrow> uuid option \<Rightarrow> string \<Rightarrow> string \<Rightarrow> connect_code + (GroupResult \<times> db)" where
  "CreateGroup d new_id folderID name externalKey =
     (let g = \<lparr>g_id = new_id, g_name = name, g_folder = folderID, g_external_key = pgconv_Text externalKey\<rparr>
      in case CreateGroup_q d g of Inl e \<Rightarrow> Inl (MapWrite e) | Inr d' \<Rightarrow> Inr (groupResult d' g, d'))"

definition SetGroupExternalKey :: "db \<Rightarrow> uuid \<Rightarrow> uuid \<Rightarrow> string \<Rightarrow> connect_code + (event \<times> db)" where
  "SetGroupExternalKey d actor gid externalKey = (case SetGroupExternalKey_q d gid (pgconv_Text externalKey) of
     Inl e \<Rightarrow> Inl (MapWrite e)
   | Inr d' \<Rightarrow> Inr (\<lparr>ev_type = EventGroupExternalKeySet, ev_actor = actor, ev_subject_kind = ''group'',
       ev_subject_id = gid, ev_details = [(''action'', DText (if externalKey = [] then ''clear'' else ''set''))]\<rparr>, d'))"

text \<open>A reference is a uuid, \<open>name@folder-path\<close> split at the last \<open>@\<close>, or the name of a global group.\<close>

definition resolve_group_row :: "(string \<Rightarrow> uuid option) \<Rightarrow> db \<Rightarrow> string \<Rightarrow> group_row option" where
  "resolve_group_row parse d ref = (case parse ref of
     Some i \<Rightarrow> GetGroup_q d i
   | None \<Rightarrow>
       if CHR ''@'' \<in> set ref then
         let folderPath = rev (takeWhile (\<lambda>c. c \<noteq> CHR ''@'') (rev ref));
             name = rev (tl (dropWhile (\<lambda>c. c \<noteq> CHR ''@'') (rev ref)))
         in (case resolveFolderIDByPath d folderPath of
               None \<Rightarrow> None
             | Some fid \<Rightarrow> GetGroupByFolderAndName d fid name)
       else GetGroupByNameGlobal d ref)"

definition ResolveGroup :: "(string \<Rightarrow> uuid option) \<Rightarrow> db \<Rightarrow> time \<Rightarrow> uuid \<Rightarrow> string \<Rightarrow> connect_code + GroupResult" where
  "ResolveGroup parse d now caller ref = (case resolve_group_row parse d ref of
     None \<Rightarrow> Inl CodeNotFound
   | Some g \<Rightarrow> (case RequireReadCap d now caller GroupReadCap (ScopeOfFolderID (g_folder g)) of
       Inl _ \<Rightarrow> Inl CodeNotFound
     | Inr _ \<Rightarrow> Inr (groupResult d g)))"

definition AddUserToGroup :: "db \<Rightarrow> time \<Rightarrow> uuid \<Rightarrow> uuid \<Rightarrow> uuid \<Rightarrow> connect_code + db" where
  "AddUserToGroup d now new_id gid uid = (case AddUserToGroup_q d now new_id gid uid of
     Inl _ \<Rightarrow> Inl CodeInternal | Inr d' \<Rightarrow> Inr d')"

definition AddGroupToGroup :: "db \<Rightarrow> time \<Rightarrow> uuid \<Rightarrow> uuid \<Rightarrow> uuid \<Rightarrow> connect_code + db" where
  "AddGroupToGroup d now new_id gid mid =
     (if gid = mid then Inl CodeFailedPrecondition
      else if GroupNestingCyclic d gid mid then Inl CodeFailedPrecondition
      else case AddGroupToGroup_q d now new_id gid mid of Inl _ \<Rightarrow> Inl CodeInternal | Inr d' \<Rightarrow> Inr d')"

definition RemoveUserFromGroup :: "db \<Rightarrow> uuid \<Rightarrow> uuid \<Rightarrow> db" where
  "RemoveUserFromGroup d gid uid = RemoveUserFromGroup_q d gid uid"

definition RemoveGroupFromGroup :: "db \<Rightarrow> uuid \<Rightarrow> uuid \<Rightarrow> db" where
  "RemoveGroupFromGroup d gid mid = RemoveGroupFromGroup_q d gid mid"

definition ListGroupMembers ::
  "db \<Rightarrow> uuid \<Rightarrow> int \<Rightarrow> page_token \<Rightarrow> (connect_code + (group_membership list \<times> page_token)) outcome" where
  "ListGroupMembers d gid pageSize pageToken = time_list membership_key (ListGroupMembersPaged d gid) pageSize pageToken"

definition GetGroupAccess :: "db \<Rightarrow> time \<Rightarrow> uuid \<Rightarrow> uuid \<Rightarrow> connect_code + string list" where
  "GetGroupAccess d now caller gid = (case GetGroup_q d gid of
     None \<Rightarrow> Inl CodeNotFound
   | Some g \<Rightarrow>
       let caps = CapabilitiesOnScope d now caller (ScopeOfFolderID (g_folder g))
       in if caps = [] \<and> \<not> IsMember d caller gid then Inl CodeNotFound else Inr caps)"

definition DeleteGroup :: "db \<Rightarrow> uuid \<Rightarrow> db" where
  "DeleteGroup d gid = DeleteGroup_q d gid"

definition group_key :: "GroupResult \<Rightarrow> string \<times> uuid" where
  "group_key r = (g_name (gr_Group r), g_id (gr_Group r))"

definition groups_by_ids :: "db \<Rightarrow> uuid list \<Rightarrow> GroupResult list" where
  "groups_by_ids d ids = map (\<lambda>g. \<lparr>gr_Group = g, gr_FolderPath = folder_path d (g_folder g)\<rparr>)
     (filter (\<lambda>g. g_id g \<in> set ids) (groups d))"

definition ListGroupsByIDsPaged :: "db \<Rightarrow> uuid list \<Rightarrow> (string \<times> uuid) option \<Rightarrow> nat \<Rightarrow> GroupResult list" where
  "ListGroupsByIDsPaged d ids after limit = name_page group_key after limit (groups_by_ids d ids)"

text \<open>A list with nothing to see returns before the page token is decoded.\<close>

definition ListGroups ::
  "(string \<Rightarrow> uuid option) \<Rightarrow> db \<Rightarrow> time \<Rightarrow> uuid \<Rightarrow> string \<Rightarrow> bool \<Rightarrow> int \<Rightarrow> page_token \<Rightarrow>
     connect_code + (GroupResult list \<times> page_token)" where
  "ListGroups parse d now caller parentRef cascade pageSize pageToken =
     and_then (resolveParentFolderRef parse d parentRef) (\<lambda>parent.
       let ids = VisibleGroupsUnder d now caller parent cascade
       in if ids = [] then Inr ([], EmptyToken)
          else name_list group_key name_after (ListGroupsByIDsPaged d ids) pageSize pageToken)"

section \<open>Walking the lists\<close>

interpretation users_by_email: named_table user_key u_id "map_option (\<lambda>k. (pk_Name k, pk_ID k))"
  by unfold_locales (simp_all add: user_key_def)

interpretation groups_by_name: named_table group_key "\<lambda>r. g_id (gr_Group r)" name_after
  by unfold_locales (simp_all add: group_key_def name_after_def)

end
