(* ===== verification/Spec2Isabelle.thy ===== *)
theory Spec2Isabelle
  imports AccessProperties Explain Identity
begin

text \<open>
  Verification of the access model of jumpgate.
\<close>

end
